theory Spec2Isabelle
  imports Complex_Main
begin

section \<open>Values and errors\<close>

text \<open>
  A JavaScript \<open>number\<close> is an IEEE double. A finite double is represented by the rational
  it denotes; negative zero is not distinguished from zero. Conversions between doubles,
  decimals and text round in binary and are supplied by the \<open>runtime\<close> record below.
\<close>

datatype jsnumber = Finite rat | NaN | PosInfinity | NegInfinity

text \<open>
  Modelled from the spec: the \<open>Decimal\<close> class of the external package decimal.js, which
  is not under src/ (spec 6.3, "Decimal primitive contract"). A finite decimal is a
  coefficient and a scale: \<open>Decimal c s\<close> denotes \<open>c / 10 ^ s\<close>. Every operation returns
  a value without trailing zeros in the fraction, so that two results are equal exactly
  when they denote the same number. The values NaN and Infinity of decimal.js are
  outside the model.
\<close>

datatype decimal = Decimal (coefficient: int) (scale: nat)

text \<open>
  \<open>FormulaValue\<close> of types.ts, together with the values that the evaluator can reach and
  that are no \<open>FormulaValue\<close>: \<open>undefined\<close>, and what the reading of a property finds on
  a prototype, a function such as \<open>Object.prototype.toString\<close> or an object such as
  \<open>Object.prototype\<close> itself. A function or object of the runtime is known by its
  reference, a number; two of them are the same object when they have the same reference.
\<close>

datatype formulaValue =
    VDecimal decimal
  | VNumber jsnumber
  | VString string
  | VBool bool
  | VNull
  | VUndefined
  | VArray "formulaValue list"
  | VObject "(string \<times> formulaValue) list"
  | VFunction nat
  | VHostObject nat

text \<open>errors.ts: one constructor per error class, with the fields the class stores.\<close>

datatype error =
    SyntaxError string nat nat nat
  | UnexpectedTokenError string "string list" nat
  | UnterminatedStringError nat
  | InvalidNumberError string nat
  | CircularDependencyError "string list" "string list"
  | UndefinedVariableError string
  | UndefinedFunctionError string
  | DuplicateFormulaError string
  | DivisionByZeroError
  | TypeMismatchError string string string
  | ArgumentCountError string nat int nat
  | InvalidOperationError string "string list"
  | PropertyAccessError string string
  | IndexAccessError formulaValue string
  | DecimalDivisionByZeroError
  | InvalidDecimalError string
  | MaxIterationsError nat
  | MaxRecursionError nat
  | MaxExpressionLengthError nat nat
  | GeneralError string
  | JsTypeError

text \<open>
  \<open>GeneralError\<close> is a plain \<open>new Error(message)\<close>; \<open>JsTypeError\<close> is the TypeError the
  JavaScript runtime raises when a property of \<open>undefined\<close> is read.
\<close>

section \<open>Decimal arithmetic (decimal-utils.ts over decimal.js)\<close>

datatype DecimalRoundingMode =
  CEIL | FLOOR | DOWN | UP | HALF_UP | HALF_DOWN | HALF_EVEN | HALF_ODD

datatype decimalJsRounding =
    ROUND_UP | ROUND_DOWN | ROUND_CEIL | ROUND_FLOOR | ROUND_HALF_UP | ROUND_HALF_DOWN
  | ROUND_HALF_EVEN | ROUND_HALF_CEIL | ROUND_HALF_FLOOR

fun ROUNDING_MODE_MAP :: "DecimalRoundingMode \<Rightarrow> decimalJsRounding" where
  "ROUNDING_MODE_MAP CEIL = ROUND_CEIL"
| "ROUNDING_MODE_MAP FLOOR = ROUND_FLOOR"
| "ROUNDING_MODE_MAP DOWN = ROUND_DOWN"
| "ROUNDING_MODE_MAP UP = ROUND_UP"
| "ROUNDING_MODE_MAP HALF_UP = ROUND_HALF_UP"
| "ROUNDING_MODE_MAP HALF_DOWN = ROUND_HALF_DOWN"
| "ROUNDING_MODE_MAP HALF_EVEN = ROUND_HALF_EVEN"
| "ROUNDING_MODE_MAP HALF_ODD = ROUND_HALF_CEIL"

text \<open>\<open>DecimalConfig\<close> of types.ts (every field is optional) and the configuration that
  \<open>DecimalUtils\<close> keeps after merging it over \<open>DEFAULT_CONFIG\<close>.\<close>

record DecimalConfig =
  cfgPrecision :: "nat option"
  cfgRoundingMode :: "DecimalRoundingMode option"
  cfgDivisionScale :: "nat option"
  autoConvertFloats :: "bool option"

record DecimalUtilsConfig =
  precision :: nat
  roundingMode :: DecimalRoundingMode
  divisionScale :: nat

definition DEFAULT_CONFIG :: DecimalUtilsConfig where
  "DEFAULT_CONFIG = \<lparr>precision = 20, roundingMode = HALF_UP, divisionScale = 10\<rparr>"

definition orElse :: "'a option \<Rightarrow> 'a \<Rightarrow> 'a" where
  "orElse x d = (case x of Some v \<Rightarrow> v | None \<Rightarrow> d)"

definition newDecimalUtils :: "DecimalConfig option \<Rightarrow> DecimalUtilsConfig" where
  "newDecimalUtils config =
     (case config of
        None \<Rightarrow> DEFAULT_CONFIG
      | Some c \<Rightarrow>
          \<lparr>precision = orElse (cfgPrecision c) (precision DEFAULT_CONFIG),
           roundingMode = orElse (cfgRoundingMode c) (roundingMode DEFAULT_CONFIG),
           divisionScale = orElse (cfgDivisionScale c) (divisionScale DEFAULT_CONFIG)\<rparr>)"

function normalise :: "decimal \<Rightarrow> decimal" where
  "normalise (Decimal c s) =
     (if 0 < s \<and> c mod 10 = 0 then normalise (Decimal (c div 10) (s - 1)) else Decimal c s)"
  by pat_completeness auto
termination
  by (relation "measure scale") auto

text \<open>\<open>roundDiv m n d\<close> is the integer nearest to \<open>n / d\<close> in the direction of mode \<open>m\<close>,
  for \<open>0 < d\<close>.\<close>

definition roundDiv :: "decimalJsRounding \<Rightarrow> int \<Rightarrow> int \<Rightarrow> int" where
  "roundDiv m n d =
     (let q = n div d; r = n mod d in
      if r = 0 then q
      else (case m of
          ROUND_UP \<Rightarrow> (if 0 < n then q + 1 else q)
        | ROUND_DOWN \<Rightarrow> (if 0 < n then q else q + 1)
        | ROUND_CEIL \<Rightarrow> q + 1
        | ROUND_FLOOR \<Rightarrow> q
        | ROUND_HALF_UP \<Rightarrow>
            (if d < 2 * r then q + 1 else if 2 * r < d then q else if 0 < n then q + 1 else q)
        | ROUND_HALF_DOWN \<Rightarrow>
            (if d < 2 * r then q + 1 else if 2 * r < d then q else if 0 < n then q else q + 1)
        | ROUND_HALF_EVEN \<Rightarrow>
            (if d < 2 * r then q + 1 else if 2 * r < d then q else if even q then q else q + 1)
        | ROUND_HALF_CEIL \<Rightarrow> (if d \<le> 2 * r then q + 1 else q)
        | ROUND_HALF_FLOOR \<Rightarrow> (if d < 2 * r then q + 1 else q)))"

text \<open>\<open>Decimal.toDecimalPlaces(dp, rm)\<close>.\<close>

definition toDecimalPlaces :: "decimal \<Rightarrow> nat \<Rightarrow> decimalJsRounding \<Rightarrow> decimal" where
  "toDecimalPlaces x dp rm =
     (if scale x \<le> dp then normalise x
      else normalise (Decimal (roundDiv rm (coefficient x) (10 ^ (scale x - dp))) dp))"

function countDigits :: "nat \<Rightarrow> nat" where
  "countDigits n = (if n < 10 then 1 else 1 + countDigits (n div 10))"
  by pat_completeness auto
termination
  by (relation "measure id") auto

declare countDigits.simps [simp del]

text \<open>Rounding of an arithmetic result to \<open>precision\<close> significant digits.\<close>

definition finalise :: "DecimalUtilsConfig \<Rightarrow> decimal \<Rightarrow> decimal" where
  "finalise cfg x =
     (let n = countDigits (nat \<bar>coefficient x\<bar>) in
      if n \<le> precision cfg then normalise x
      else
        (let k = n - precision cfg;
             c = roundDiv (ROUNDING_MODE_MAP (roundingMode cfg)) (coefficient x) (10 ^ k)
         in if k \<le> scale x then normalise (Decimal c (scale x - k))
            else Decimal (c * 10 ^ (k - scale x)) 0))"

definition decPlus :: "DecimalUtilsConfig \<Rightarrow> decimal \<Rightarrow> decimal \<Rightarrow> decimal" where
  "decPlus cfg x y =
     (let s = max (scale x) (scale y) in
      finalise cfg
        (Decimal (coefficient x * 10 ^ (s - scale x) + coefficient y * 10 ^ (s - scale y)) s))"

definition decMinus :: "DecimalUtilsConfig \<Rightarrow> decimal \<Rightarrow> decimal \<Rightarrow> decimal" where
  "decMinus cfg x y =
     (let s = max (scale x) (scale y) in
      finalise cfg
        (Decimal (coefficient x * 10 ^ (s - scale x) - coefficient y * 10 ^ (s - scale y)) s))"

definition decTimes :: "DecimalUtilsConfig \<Rightarrow> decimal \<Rightarrow> decimal \<Rightarrow> decimal" where
  "decTimes cfg x y = finalise cfg (Decimal (coefficient x * coefficient y) (scale x + scale y))"

definition negated :: "decimal \<Rightarrow> decimal" where
  "negated x = Decimal (- coefficient x) (scale x)"

definition isZero :: "decimal \<Rightarrow> bool" where
  "isZero x = (coefficient x = 0)"

text \<open>\<open>comparedTo\<close>: the sign of \<open>x - y\<close>.\<close>

definition comparedTo :: "decimal \<Rightarrow> decimal \<Rightarrow> int" where
  "comparedTo x y =
     sgn (coefficient x * 10 ^ scale y - coefficient y * 10 ^ scale x)"

definition decEquals :: "decimal \<Rightarrow> decimal \<Rightarrow> bool" where
  "decEquals x y = (comparedTo x y = 0)"

definition isDigit :: "char \<Rightarrow> bool" where
  "isDigit c = (of_char c \<ge> (48::nat) \<and> of_char c \<le> (57::nat))"

definition digitsToNat :: "string \<Rightarrow> nat" where
  "digitsToNat ds = foldl (\<lambda>a c. 10 * a + (of_char c - 48)) 0 ds"

text \<open>
  \<open>new Decimal(text)\<close> for the texts the lexer produces, \<open>digits (. digits)?\<close>. Other
  texts that decimal.js accepts (a sign, an exponent, a radix prefix) are not modelled and
  are rejected.
\<close>

definition decimalOfText :: "string \<Rightarrow> decimal option" where
  "decimalOfText t =
     (let ip = takeWhile isDigit t; rest = dropWhile isDigit t in
      if ip = [] then None
      else if rest = [] then Some (normalise (Decimal (int (digitsToNat ip)) 0))
      else if hd rest = CHR ''.'' \<and> tl rest \<noteq> [] \<and> list_all isDigit (tl rest)
        then Some (normalise (Decimal (int (digitsToNat (ip @ tl rest))) (length (tl rest))))
      else None)"

function natToText :: "nat \<Rightarrow> string" where
  "natToText n =
     (if n < 10 then [char_of (48 + n)] else natToText (n div 10) @ [char_of (48 + n mod 10)])"
  by pat_completeness auto
termination
  by (relation "measure id") auto

declare natToText.simps [simp del]

text \<open>\<open>Decimal.toString()\<close> in plain notation (the engine sets the exponent thresholds of
  decimal.js to -1000 and 1000).\<close>

definition decToString :: "decimal \<Rightarrow> string" where
  "decToString x =
     (let y = normalise x;
          ds = natToText (nat \<bar>coefficient y\<bar>);
          padded = replicate (Suc (scale y) - length ds) (CHR ''0'') @ ds;
          ip = take (length padded - scale y) padded;
          fp = drop (length padded - scale y) padded
      in (if coefficient y < 0 then ''-'' else '''') @ ip @ (if scale y = 0 then '''' else ''.'' @ fp))"

text \<open>
  The operations of the JavaScript runtime and of decimal.js that round in binary or to
  the working precision, and the identity of heap objects, are parameters of the model:
  \<open>parseFloat\<close> and \<open>String\<close> on numbers, \<open>new Decimal(number)\<close>, and \<open>toNumber\<close>,
  \<open>dividedBy\<close>, \<open>modulo\<close> and \<open>pow\<close> of \<open>Decimal\<close>. \<open>sameObject a b\<close> tells whether two
  arrays or objects are the same heap object, which is what \<open>===\<close> compares.

  The prototypes are parameters too. \<open>prototypeProperty object key\<close> is what the reading
  \<open>object[key]\<close> finds when \<open>key\<close> is not one of the properties that the model holds for
  the object: the property of that name on the prototype chain (for a plain object, what
  \<open>Object.prototype\<close> has under that name; for an array, \<open>Array.prototype\<close> and then
  \<open>Object.prototype\<close>), for a \<open>Decimal\<close> or an object of the runtime also its own fields,
  and \<open>None\<close> when there is no such property, so that \<open>key in object\<close> is false and the
  reading gives \<open>undefined\<close>. \<open>hostToString\<close> is \<open>String\<close> on a function or an object of the
  runtime, and \<open>ownEntries\<close> is \<open>Object.entries\<close> on a \<open>Decimal\<close> or an object of the runtime.
\<close>

record runtime =
  parseFloat :: "string \<Rightarrow> jsnumber"
  numberToString :: "jsnumber \<Rightarrow> string"
  decimalOfNumber :: "jsnumber \<Rightarrow> decimal"
  decToNumber :: "decimal \<Rightarrow> jsnumber"
  decDividedBy :: "decimal \<Rightarrow> decimal \<Rightarrow> decimal"
  decModulo :: "decimal \<Rightarrow> decimal \<Rightarrow> decimal"
  decPow :: "decimal \<Rightarrow> jsnumber \<Rightarrow> decimal"
  sameObject :: "formulaValue \<Rightarrow> formulaValue \<Rightarrow> bool"
  prototypeProperty :: "formulaValue \<Rightarrow> string \<Rightarrow> formulaValue option"
  hostToString :: "formulaValue \<Rightarrow> string"
  ownEntries :: "formulaValue \<Rightarrow> (string \<times> formulaValue) list"

section \<open>Lexer (lexer.ts)\<close>

datatype TokenType =
    NUMBER | STRING | BOOLEAN | NULL
  | IDENTIFIER | VARIABLE | CONTEXT_VAR
  | PLUS | MINUS | MULTIPLY | DIVIDE | MODULO | POWER
  | EQ | NEQ | LT | GT | LTE | GTE
  | AND | OR | NOT
  | LPAREN | RPAREN | LBRACKET | RBRACKET | COMMA | DOT | QUESTION | COLON
  | EOF

text \<open>The payload of a token: \<open>string | number | boolean | null\<close>.\<close>

datatype tokenPayload = TString string | TNumber jsnumber | TBool bool | TNull

record Token =
  tokenType :: TokenType
  tokenValue :: tokenPayload
  tokenPosition :: nat
  tokenLine :: nat
  tokenColumn :: nat

record Lexer =
  input :: string
  position :: nat
  line :: nat
  column :: nat
  tokens :: "Token list"

definition isAtEnd :: "Lexer \<Rightarrow> bool" where
  "isAtEnd L = (position L \<ge> length (input L))"

definition peek :: "Lexer \<Rightarrow> char" where
  "peek L = (if isAtEnd L then CHR 0x00 else input L ! position L)"

definition peekNext :: "Lexer \<Rightarrow> char" where
  "peekNext L =
     (if position L + 1 \<ge> length (input L) then CHR 0x00 else input L ! (position L + 1))"

text \<open>\<open>advance\<close> is only called where the lexer has checked that it is not at the end.\<close>

definition advance :: "Lexer \<Rightarrow> char \<times> Lexer" where
  "advance L =
     (let char = input L ! position L in
      (char,
       if char = CHR 0x0A
       then L\<lparr>position := position L + 1, line := line L + 1, column := 1\<rparr>
       else L\<lparr>position := position L + 1, column := column L + 1\<rparr>))"

lemma advance_input [simp]: "input (snd (advance L)) = input L"
  by (simp add: advance_def Let_def)

lemma advance_position [simp]: "position (snd (advance L)) = position L + 1"
  by (simp add: advance_def Let_def)

function skipWhitespace :: "Lexer \<Rightarrow> Lexer" where
  "skipWhitespace L =
     (if \<not> isAtEnd L \<and>
         (peek L = CHR '' '' \<or> peek L = CHR 0x09 \<or> peek L = CHR 0x0D \<or> peek L = CHR 0x0A)
      then skipWhitespace (snd (advance L))
      else L)"
  by pat_completeness auto
termination
  by (relation "measure (\<lambda>L. length (input L) - position L)") (auto simp: isAtEnd_def)

declare skipWhitespace.simps [simp del]

definition addToken :: "Lexer \<Rightarrow> TokenType \<Rightarrow> tokenPayload \<Rightarrow> Lexer" where
  "addToken L t v =
     L\<lparr>tokens := tokens L @
        [\<lparr>tokenType = t, tokenValue = v, tokenPosition = position L,
          tokenLine = line L, tokenColumn = column L\<rparr>]\<rparr>"

definition isAlpha :: "char \<Rightarrow> bool" where
  "isAlpha c =
     ((of_char c \<ge> (97::nat) \<and> of_char c \<le> (122::nat)) \<or>
      (of_char c \<ge> (65::nat) \<and> of_char c \<le> (90::nat)) \<or> c = CHR ''_'')"

definition isAlphaNumeric :: "char \<Rightarrow> bool" where
  "isAlphaNumeric c = (isAlpha c \<or> isDigit c)"

text \<open>The loop \<open>while (!this.isAtEnd() && p(this.peek())) s += this.advance()\<close>.\<close>

function advanceWhile :: "(char \<Rightarrow> bool) \<Rightarrow> Lexer \<Rightarrow> string \<Rightarrow> string \<times> Lexer" where
  "advanceWhile p L s =
     (if \<not> isAtEnd L \<and> p (peek L)
      then advanceWhile p (snd (advance L)) (s @ [fst (advance L)])
      else (s, L))"
  by pat_completeness auto
termination
  by (relation "measure (\<lambda>(p, L, s). length (input L) - position L)") (auto simp: isAtEnd_def)

declare advanceWhile.simps [simp del]

definition toUpperCase :: "string \<Rightarrow> string" where
  "toUpperCase s =
     map (\<lambda>c. if of_char c \<ge> (97::nat) \<and> of_char c \<le> (122::nat)
              then char_of (of_char c - (32::nat)) else c) s"

definition scanVariable :: "Lexer \<Rightarrow> error + Lexer" where
  "scanVariable L =
     (let (name, L1) = advanceWhile isAlphaNumeric L [] in
      if name = []
      then Inl (SyntaxError ''Expected variable name after $'' (position L1) (line L1) (column L1))
      else Inr (addToken L1 VARIABLE (TString name)))"

definition scanContextVariable :: "Lexer \<Rightarrow> error + Lexer" where
  "scanContextVariable L =
     (let (name, L1) = advanceWhile isAlphaNumeric L [] in
      if name = []
      then Inl (SyntaxError ''Expected variable name after @'' (position L1) (line L1) (column L1))
      else Inr (addToken L1 CONTEXT_VAR (TString name)))"

definition unescape :: "char \<Rightarrow> char" where
  "unescape c =
     (if c = CHR ''n'' then CHR 0x0A
      else if c = CHR ''t'' then CHR 0x09
      else if c = CHR ''r'' then CHR 0x0D
      else c)"

function scanStringLoop :: "char \<Rightarrow> Lexer \<Rightarrow> string \<Rightarrow> string \<times> Lexer" where
  "scanStringLoop quote L v =
     (if \<not> isAtEnd L \<and> peek L \<noteq> quote
      then
        (if peek L = CHR 0x5C
         then
           (let L1 = snd (advance L) in
            if \<not> isAtEnd L1
            then scanStringLoop quote (snd (advance L1)) (v @ [unescape (fst (advance L1))])
            else scanStringLoop quote L1 v)
         else scanStringLoop quote (snd (advance L)) (v @ [fst (advance L)]))
      else (v, L))"
  by pat_completeness auto
termination
  by (relation "measure (\<lambda>(q, L, v). length (input L) - position L)") (auto simp: isAtEnd_def)

declare scanStringLoop.simps [simp del]

definition scanString :: "char \<Rightarrow> Lexer \<Rightarrow> error + Lexer" where
  "scanString quote L =
     (let startPosition = position L - 1;
          (v, L1) = scanStringLoop quote L []
      in if isAtEnd L1 then Inl (UnterminatedStringError startPosition)
         else Inr (addToken (snd (advance L1)) STRING (TString v)))"

text \<open>The three optional parts of a number: fraction, exponent, suffix. Each takes and
  returns the text read so far, the \<open>isFloat\<close> flag and the lexer.\<close>

definition scanFraction :: "string \<times> Lexer \<Rightarrow> string \<times> Lexer" where
  "scanFraction a =
     (let (numStr, L) = a in
      if peek L = CHR ''.'' \<and> isDigit (peekNext L)
      then advanceWhile isDigit (snd (advance L)) (numStr @ [fst (advance L)])
      else (numStr, L))"

definition scanExponent :: "nat \<Rightarrow> string \<times> Lexer \<Rightarrow> error + (string \<times> bool \<times> Lexer)" where
  "scanExponent startPosition a =
     (let (numStr, L) = a in
      if peek L = CHR ''e'' \<or> peek L = CHR ''E''
      then
        (let numStr1 = numStr @ [fst (advance L)]; L1 = snd (advance L);
             (numStr2, L2) =
               (if peek L1 = CHR ''+'' \<or> peek L1 = CHR ''-''
                then (numStr1 @ [fst (advance L1)], snd (advance L1))
                else (numStr1, L1))
         in if \<not> isDigit (peek L2) then Inl (InvalidNumberError numStr2 startPosition)
            else (let (numStr3, L3) = advanceWhile isDigit L2 numStr2
                  in Inr (numStr3, True, L3)))
      else Inr (numStr, False, L))"

definition scanSuffix :: "bool \<times> Lexer \<Rightarrow> bool \<times> Lexer" where
  "scanSuffix a =
     (let (isFloat, L) = a;
          (isFloat1, L1) =
            (if peek L = CHR ''f'' \<or> peek L = CHR ''F'' then (True, snd (advance L))
             else (isFloat, L))
      in if peek L1 = CHR ''d'' \<or> peek L1 = CHR ''D'' then (False, snd (advance L1))
         else (isFloat1, L1))"

definition scanNumber :: "runtime \<Rightarrow> char \<Rightarrow> Lexer \<Rightarrow> error + Lexer" where
  "scanNumber rt firstChar L =
     (let startPosition = position L - 1 in
      case scanExponent startPosition (scanFraction (advanceWhile isDigit L [firstChar])) of
        Inl e \<Rightarrow> Inl e
      | Inr (numStr, isFloat, L1) \<Rightarrow>
          (let (isFloat2, L2) = scanSuffix (isFloat, L1) in
           if isFloat2
           then (if parseFloat rt numStr = NaN then Inl (InvalidNumberError numStr startPosition)
                 else Inr (addToken L2 NUMBER (TNumber (parseFloat rt numStr))))
           else Inr (addToken L2 NUMBER (TString numStr))))"

text \<open>
  \<open>KEYWORDS[name] || KEYWORDS[name.toUpperCase()]\<close>. The properties that the object
  literal \<open>KEYWORDS\<close> inherits from \<open>Object.prototype\<close> are not modelled.
\<close>

definition KEYWORDS :: "string \<Rightarrow> TokenType option" where
  "KEYWORDS name =
     (if name = ''true'' then Some BOOLEAN
      else if name = ''false'' then Some BOOLEAN
      else if name = ''null'' then Some NULL
      else if name = ''AND'' then Some AND
      else if name = ''OR'' then Some OR
      else if name = ''NOT'' then Some NOT
      else None)"

definition scanIdentifier :: "char \<Rightarrow> Lexer \<Rightarrow> Lexer" where
  "scanIdentifier firstChar L =
     (let (name, L1) = advanceWhile isAlphaNumeric L [firstChar];
          keywordType = (case KEYWORDS name of Some t \<Rightarrow> Some t | None \<Rightarrow> KEYWORDS (toUpperCase name))
      in case keywordType of
           Some t \<Rightarrow>
             (if t = BOOLEAN then addToken L1 BOOLEAN (TBool (name = ''true''))
              else if t = NULL then addToken L1 NULL TNull
              else addToken L1 t (TString (toUpperCase name)))
         | None \<Rightarrow> addToken L1 IDENTIFIER (TString name))"

definition unexpectedCharacter :: "char \<Rightarrow> nat \<Rightarrow> nat \<Rightarrow> nat \<Rightarrow> error" where
  "unexpectedCharacter char startPosition startLine startColumn =
     SyntaxError (''Unexpected character '' @ [CHR 0x27, char, CHR 0x27])
       startPosition startLine startColumn"

definition scanToken :: "runtime \<Rightarrow> Lexer \<Rightarrow> error + Lexer" where
  "scanToken rt L0 =
     (let startPosition = position L0; startLine = line L0; startColumn = column L0;
          char = fst (advance L0); L = snd (advance L0)
      in
      if char = CHR ''('' then Inr (addToken L LPAREN (TString ''(''))
      else if char = CHR '')'' then Inr (addToken L RPAREN (TString '')''))
      else if char = CHR ''['' then Inr (addToken L LBRACKET (TString ''[''))
      else if char = CHR '']'' then Inr (addToken L RBRACKET (TString '']''))
      else if char = CHR '','' then Inr (addToken L COMMA (TString '',''))
      else if char = CHR ''.'' then Inr (addToken L DOT (TString ''.''))
      else if char = CHR ''?'' then Inr (addToken L QUESTION (TString ''?''))
      else if char = CHR '':'' then Inr (addToken L COLON (TString '':''))
      else if char = CHR ''+'' then Inr (addToken L PLUS (TString ''+''))
      else if char = CHR ''-'' then Inr (addToken L MINUS (TString ''-''))
      else if char = CHR ''*'' then Inr (addToken L MULTIPLY (TString ''*''))
      else if char = CHR ''/'' then Inr (addToken L DIVIDE (TString ''/''))
      else if char = CHR ''%'' then Inr (addToken L MODULO (TString ''%''))
      else if char = CHR ''^'' then Inr (addToken L POWER (TString ''^''))
      else if char = CHR ''='' then
        (if peek L = CHR ''='' then Inr (addToken (snd (advance L)) EQ (TString ''==''))
         else Inl (unexpectedCharacter char startPosition startLine startColumn))
      else if char = CHR ''!'' then
        (if peek L = CHR ''='' then Inr (addToken (snd (advance L)) NEQ (TString ''!=''))
         else Inr (addToken L NOT (TString ''!'')))
      else if char = CHR ''<'' then
        (if peek L = CHR ''='' then Inr (addToken (snd (advance L)) LTE (TString ''<=''))
         else Inr (addToken L LT (TString ''<'')))
      else if char = CHR ''>'' then
        (if peek L = CHR ''='' then Inr (addToken (snd (advance L)) GTE (TString ''>=''))
         else Inr (addToken L GT (TString ''>'')))
      else if char = CHR ''&'' then
        (if peek L = CHR ''&'' then Inr (addToken (snd (advance L)) AND (TString ''&&''))
         else Inl (unexpectedCharacter char startPosition startLine startColumn))
      else if char = CHR ''|'' then
        (if peek L = CHR ''|'' then Inr (addToken (snd (advance L)) OR (TString ''||''))
         else Inl (unexpectedCharacter char startPosition startLine startColumn))
      else if char = CHR ''$'' then scanVariable L
      else if char = CHR ''@'' then scanContextVariable L
      else if char = CHR 0x22 \<or> char = CHR 0x27 then scanString char L
      else if isDigit char then scanNumber rt char L
      else if isAlpha char then Inr (scanIdentifier char L)
      else Inl (unexpectedCharacter char startPosition startLine startColumn))"

text \<open>Every scanner keeps the input and never moves the position backwards, and
  \<open>scanToken\<close> consumes at least one character: the main loop of \<open>tokenize\<close> ends.\<close>

lemma skipWhitespace_frame:
  "input (skipWhitespace L) = input L \<and> position L \<le> position (skipWhitespace L)"
proof (induction L rule: skipWhitespace.induct)
  case (1 L)
  show ?case
  proof (cases "\<not> isAtEnd L \<and>
         (peek L = CHR '' '' \<or> peek L = CHR 0x09 \<or> peek L = CHR 0x0D \<or> peek L = CHR 0x0A)")
    case True
    then have eq: "skipWhitespace L = skipWhitespace (snd (advance L))"
      by (subst skipWhitespace.simps) simp
    from 1 True show ?thesis by (simp add: eq)
  next
    case False
    then have "skipWhitespace L = L" by (subst skipWhitespace.simps) auto
    then show ?thesis by simp
  qed
qed

lemma advanceWhile_frame:
  "input (snd (advanceWhile p L s)) = input L \<and> position L \<le> position (snd (advanceWhile p L s))"
proof (induction p L s rule: advanceWhile.induct)
  case (1 p L s)
  show ?case
  proof (cases "\<not> isAtEnd L \<and> p (peek L)")
    case True
    then have eq: "advanceWhile p L s = advanceWhile p (snd (advance L)) (s @ [fst (advance L)])"
      by (subst advanceWhile.simps) simp
    from 1 True show ?thesis by (simp add: eq)
  next
    case False
    then have "advanceWhile p L s = (s, L)" by (subst advanceWhile.simps) auto
    then show ?thesis by simp
  qed
qed

lemma scanStringLoop_frame:
  "input (snd (scanStringLoop q L v)) = input L \<and> position L \<le> position (snd (scanStringLoop q L v))"
proof (induction q L v rule: scanStringLoop.induct)
  case (1 q L v)
  have eq: "scanStringLoop q L v =
     (if \<not> isAtEnd L \<and> peek L \<noteq> q
      then
        (if peek L = CHR 0x5C
         then
           (let L1 = snd (advance L) in
            if \<not> isAtEnd L1
            then scanStringLoop q (snd (advance L1)) (v @ [unescape (fst (advance L1))])
            else scanStringLoop q L1 v)
         else scanStringLoop q (snd (advance L)) (v @ [fst (advance L)]))
      else (v, L))"
    by (subst scanStringLoop.simps) simp
  show ?case
    using 1 by (auto simp: eq Let_def)
qed

lemma addToken_frame [simp]:
  "input (addToken L t v) = input L" "position (addToken L t v) = position L"
  by (simp_all add: addToken_def)

lemma scanVariable_frame:
  "scanVariable L = Inr L' \<Longrightarrow> input L' = input L \<and> position L \<le> position L'"
  using advanceWhile_frame [of isAlphaNumeric L "[]"]
  by (auto simp: scanVariable_def split: prod.splits if_splits)

lemma scanContextVariable_frame:
  "scanContextVariable L = Inr L' \<Longrightarrow> input L' = input L \<and> position L \<le> position L'"
  using advanceWhile_frame [of isAlphaNumeric L "[]"]
  by (auto simp: scanContextVariable_def split: prod.splits if_splits)

lemma scanString_frame:
  "scanString q L = Inr L' \<Longrightarrow> input L' = input L \<and> position L \<le> position L'"
  using scanStringLoop_frame [of q L "[]"]
  by (auto simp: scanString_def Let_def split: prod.splits if_splits)

lemma scanFraction_frame:
  "input (snd (scanFraction (s, L))) = input L \<and> position L \<le> position (snd (scanFraction (s, L)))"
  using advanceWhile_frame [of isDigit "snd (advance L)" "s @ [fst (advance L)]"]
  by (auto simp: scanFraction_def)

lemma scanExponent_frame:
  "scanExponent sp (s, L) = Inr (s', f, L') \<Longrightarrow> input L' = input L \<and> position L \<le> position L'"
  using advanceWhile_frame [of isDigit "snd (advance L)" "s @ [fst (advance L)]"]
    advanceWhile_frame [of isDigit "snd (advance (snd (advance L)))"
       "s @ [fst (advance L)] @ [fst (advance (snd (advance L)))]"]
  by (auto simp: scanExponent_def Let_def split: prod.splits if_splits)

lemma scanSuffix_frame:
  "input (snd (scanSuffix (f, L))) = input L \<and> position L \<le> position (snd (scanSuffix (f, L)))"
  by (auto simp: scanSuffix_def Let_def split: prod.splits if_splits)

lemma scanNumber_frame:
  assumes "scanNumber rt c L = Inr L'"
  shows "input L' = input L \<and> position L \<le> position L'"
proof -
  obtain s1 L1 where a: "advanceWhile isDigit L [c] = (s1, L1)" by (cases "advanceWhile isDigit L [c]")
  obtain s2 L2 where b: "scanFraction (s1, L1) = (s2, L2)" by (cases "scanFraction (s1, L1)")
  from assms a b obtain s3 f L3 where c: "scanExponent (position L - 1) (s2, L2) = Inr (s3, f, L3)"
    by (auto simp: scanNumber_def Let_def split: sum.splits)
  obtain f4 L4 where d: "scanSuffix (f, L3) = (f4, L4)" by (cases "scanSuffix (f, L3)")
  from assms a b c d have e: "input L' = input L4 \<and> position L' = position L4"
    by (auto simp: scanNumber_def Let_def split: if_splits)
  from advanceWhile_frame [of isDigit L "[c]"] a
       scanFraction_frame [of s1 L1] b scanExponent_frame [OF c] scanSuffix_frame [of f L3] d e
  show ?thesis by auto
qed

lemma scanIdentifier_frame:
  "input (scanIdentifier c L) = input L \<and> position L \<le> position (scanIdentifier c L)"
  using advanceWhile_frame [of isAlphaNumeric L "[c]"]
  by (auto simp: scanIdentifier_def Let_def split: prod.splits option.splits)

lemma scanToken_progress:
  assumes "scanToken rt L = Inr L'"
  shows "input L' = input L \<and> position L < position L'"
proof -
  define M where "M = snd (advance L)"
  have M: "input M = input L" "position M = position L + 1"
    by (simp_all add: M_def)
  have "input L' = input M \<and> position M \<le> position L'"
    using assms scanVariable_frame [of M L'] scanContextVariable_frame [of M L']
      scanString_frame [of _ M L'] scanNumber_frame [of rt _ M L']
      scanIdentifier_frame [of _ M]
    unfolding scanToken_def Let_def M_def [symmetric]
    by (auto split: if_splits)
  with M show ?thesis by simp
qed

function tokenizeLoop :: "runtime \<Rightarrow> Lexer \<Rightarrow> error + Lexer" where
  "tokenizeLoop rt L =
     (if \<not> isAtEnd L
      then
        (let L1 = skipWhitespace L in
         if \<not> isAtEnd L1
         then (case scanToken rt L1 of Inl e \<Rightarrow> Inl e | Inr L2 \<Rightarrow> tokenizeLoop rt L2)
         else Inr L1)
      else Inr L)"
  by pat_completeness auto
termination
proof (relation "measure (\<lambda>(rt, L). length (input L) - position L)")
  show "wf (measure (\<lambda>(rt, L). length (input L) - position L))" by simp
next
  fix rt :: runtime and L L1 L2 :: Lexer
  assume a: "\<not> isAtEnd L" "L1 = skipWhitespace L" "\<not> isAtEnd L1" "scanToken rt L1 = Inr L2"
  from skipWhitespace_frame [of L] a(2)
  have "input L1 = input L" "position L \<le> position L1" by simp_all
  moreover from scanToken_progress [OF a(4)]
  have "input L2 = input L1" "position L1 < position L2" by simp_all
  ultimately show "((rt, L2), (rt, L)) \<in> measure (\<lambda>(rt, L). length (input L) - position L)"
    using a(3) by (simp add: isAtEnd_def)
qed

declare tokenizeLoop.simps [simp del]

definition tokenize :: "runtime \<Rightarrow> string \<Rightarrow> error + Token list" where
  "tokenize rt inp =
     (case tokenizeLoop rt \<lparr>input = inp, position = 0, line = 1, column = 1, tokens = []\<rparr> of
        Inl e \<Rightarrow> Inl e
      | Inr L \<Rightarrow> Inr (tokens (addToken L EOF TNull)))"

section \<open>Parser\<close>

datatype variablePrefix = Dollar | At

text \<open>
  \<open>ASTNode\<close> of types.ts. \<open>ObjectLiteral\<close> is not in the union that types.ts declares;
  index.ts exports it and the dependency extractor has a case for it, so it is a
  constructor here. The parser below never builds it.
\<close>

datatype ASTNode =
    DecimalLiteral string
  | NumberLiteral jsnumber
  | StringLiteral string
  | BooleanLiteral bool
  | NullLiteral
  | ArrayLiteral "ASTNode list"
  | ObjectLiteral "(string \<times> ASTNode) list"
  | VariableReference variablePrefix string
  | BinaryOperation string ASTNode ASTNode
  | UnaryOperation string ASTNode
  | ConditionalExpression ASTNode ASTNode ASTNode
  | FunctionCall string "ASTNode list"
  | MemberAccess ASTNode string
  | IndexAccess ASTNode ASTNode

definition PRECEDENCE_LOWEST :: nat where "PRECEDENCE_LOWEST = 1"
definition PRECEDENCE_TERNARY :: nat where "PRECEDENCE_TERNARY = 2"
definition PRECEDENCE_OR :: nat where "PRECEDENCE_OR = 3"
definition PRECEDENCE_AND :: nat where "PRECEDENCE_AND = 4"
definition PRECEDENCE_EQUALITY :: nat where "PRECEDENCE_EQUALITY = 5"
definition PRECEDENCE_COMPARISON :: nat where "PRECEDENCE_COMPARISON = 6"
definition PRECEDENCE_TERM :: nat where "PRECEDENCE_TERM = 7"
definition PRECEDENCE_FACTOR :: nat where "PRECEDENCE_FACTOR = 8"
definition PRECEDENCE_POWER :: nat where "PRECEDENCE_POWER = 9"
definition PRECEDENCE_UNARY :: nat where "PRECEDENCE_UNARY = 10"
definition PRECEDENCE_CALL :: nat where "PRECEDENCE_CALL = 11"
definition PRECEDENCE_MEMBER :: nat where "PRECEDENCE_MEMBER = 12"

text \<open>
  The parser keeps the token list and the index \<open>current\<close>. The list ends with the EOF
  token and \<open>advance\<close> does not move past it, so \<open>current\<close> stays inside the list.
  The functions below take the token list \<open>ts\<close> and \<open>current\<close>, and return the new
  \<open>current\<close> with their result.
\<close>

definition peekToken :: "Token list \<Rightarrow> nat \<Rightarrow> Token" where
  "peekToken ts cur = ts ! cur"

definition parserAtEnd :: "Token list \<Rightarrow> nat \<Rightarrow> bool" where
  "parserAtEnd ts cur = (tokenType (peekToken ts cur) = EOF)"

definition advanceParser :: "Token list \<Rightarrow> nat \<Rightarrow> Token \<times> nat" where
  "advanceParser ts cur =
     (let cur1 = (if \<not> parserAtEnd ts cur then cur + 1 else cur) in (ts ! (cur1 - 1), cur1))"

text \<open>\<open>String(token.value)\<close>.\<close>

definition tokenText :: "runtime \<Rightarrow> tokenPayload \<Rightarrow> string" where
  "tokenText rt v =
     (case v of
        TString s \<Rightarrow> s
      | TNumber n \<Rightarrow> numberToString rt n
      | TBool b \<Rightarrow> (if b then ''true'' else ''false'')
      | TNull \<Rightarrow> ''null'')"

definition expect :: "runtime \<Rightarrow> Token list \<Rightarrow> TokenType \<Rightarrow> string \<Rightarrow> nat \<Rightarrow> error + nat" where
  "expect rt ts t expected cur =
     (if tokenType (peekToken ts cur) = t then Inr (snd (advanceParser ts cur))
      else Inl (UnexpectedTokenError (tokenText rt (tokenValue (peekToken ts cur))) [expected]
                  (tokenPosition (peekToken ts cur))))"

definition getTokenPrecedence :: "TokenType \<Rightarrow> nat" where
  "getTokenPrecedence t =
     (case t of
        OR \<Rightarrow> PRECEDENCE_OR
      | AND \<Rightarrow> PRECEDENCE_AND
      | EQ \<Rightarrow> PRECEDENCE_EQUALITY
      | NEQ \<Rightarrow> PRECEDENCE_EQUALITY
      | LT \<Rightarrow> PRECEDENCE_COMPARISON
      | GT \<Rightarrow> PRECEDENCE_COMPARISON
      | LTE \<Rightarrow> PRECEDENCE_COMPARISON
      | GTE \<Rightarrow> PRECEDENCE_COMPARISON
      | PLUS \<Rightarrow> PRECEDENCE_TERM
      | MINUS \<Rightarrow> PRECEDENCE_TERM
      | MULTIPLY \<Rightarrow> PRECEDENCE_FACTOR
      | DIVIDE \<Rightarrow> PRECEDENCE_FACTOR
      | MODULO \<Rightarrow> PRECEDENCE_FACTOR
      | POWER \<Rightarrow> PRECEDENCE_POWER
      | DOT \<Rightarrow> PRECEDENCE_MEMBER
      | LBRACKET \<Rightarrow> PRECEDENCE_MEMBER
      | QUESTION \<Rightarrow> PRECEDENCE_TERNARY
      | _ \<Rightarrow> PRECEDENCE_LOWEST)"

definition getPrecedence :: "Token list \<Rightarrow> nat \<Rightarrow> nat" where
  "getPrecedence ts cur = getTokenPrecedence (tokenType (peekToken ts cur))"

definition getOperatorSymbol :: "TokenType \<Rightarrow> string" where
  "getOperatorSymbol t =
     (case t of
        PLUS \<Rightarrow> ''+'' | MINUS \<Rightarrow> ''-'' | MULTIPLY \<Rightarrow> ''*'' | DIVIDE \<Rightarrow> ''/''
      | MODULO \<Rightarrow> ''%'' | POWER \<Rightarrow> ''^'' | EQ \<Rightarrow> ''=='' | NEQ \<Rightarrow> ''!=''
      | LT \<Rightarrow> ''<'' | GT \<Rightarrow> ''>'' | LTE \<Rightarrow> ''<='' | GTE \<Rightarrow> ''>=''
      | AND \<Rightarrow> ''&&'' | OR \<Rightarrow> ''||'' | NOT \<Rightarrow> ''!''
      | _ \<Rightarrow> [])"

definition parseNumber :: "Token list \<Rightarrow> nat \<Rightarrow> ASTNode \<times> nat" where
  "parseNumber ts cur =
     (let (token, cur1) = advanceParser ts cur in
      case tokenValue token of
        TNumber n \<Rightarrow> (NumberLiteral n, cur1)
      | TString s \<Rightarrow> (DecimalLiteral s, cur1)
      | TBool b \<Rightarrow> (DecimalLiteral (if b then ''true'' else ''false''), cur1)
      | TNull \<Rightarrow> (DecimalLiteral ''null'', cur1))"

definition parseString :: "runtime \<Rightarrow> Token list \<Rightarrow> nat \<Rightarrow> ASTNode \<times> nat" where
  "parseString rt ts cur =
     (let (token, cur1) = advanceParser ts cur in (StringLiteral (tokenText rt (tokenValue token)), cur1))"

definition parseBoolean :: "Token list \<Rightarrow> nat \<Rightarrow> ASTNode \<times> nat" where
  "parseBoolean ts cur =
     (let (token, cur1) = advanceParser ts cur in (BooleanLiteral (tokenValue token = TBool True), cur1))"

definition parseNull :: "Token list \<Rightarrow> nat \<Rightarrow> ASTNode \<times> nat" where
  "parseNull ts cur = (NullLiteral, snd (advanceParser ts cur))"

definition parseVariable :: "runtime \<Rightarrow> Token list \<Rightarrow> nat \<Rightarrow> ASTNode \<times> nat" where
  "parseVariable rt ts cur =
     (let (token, cur1) = advanceParser ts cur
      in (VariableReference Dollar (tokenText rt (tokenValue token)), cur1))"

definition parseContextVariable :: "runtime \<Rightarrow> Token list \<Rightarrow> nat \<Rightarrow> ASTNode \<times> nat" where
  "parseContextVariable rt ts cur =
     (let (token, cur1) = advanceParser ts cur
      in (VariableReference At (tokenText rt (tokenValue token)), cur1))"

definition quoted :: "string \<Rightarrow> string" where
  "quoted s = [CHR 0x27] @ s @ [CHR 0x27]"

text \<open>The error of \<open>parseIdentifierOrFunctionCall\<close> for an identifier that is not followed
  by an opening parenthesis.\<close>

definition bareIdentifierError :: "Token \<Rightarrow> string \<Rightarrow> error" where
  "bareIdentifierError token name =
     (if toUpperCase name = ''AND'' \<or> toUpperCase name = ''OR''
      then SyntaxError (quoted name @ '' cannot be used as an identifier'')
             (tokenPosition token) (tokenLine token) (tokenColumn token)
      else SyntaxError (''Unknown identifier '' @ quoted name @
                        ''. Variables must be prefixed with $ or @'')
             (tokenPosition token) (tokenLine token) (tokenColumn token))"

definition prefixExpected :: "string list" where
  "prefixExpected =
     [''number'', ''string'', ''boolean'', ''null'', ''variable'', ''identifier'',
      ''('', ''['', ''-'', ''!'']"

definition isBinaryOperator :: "TokenType \<Rightarrow> bool" where
  "isBinaryOperator t =
     (t = PLUS \<or> t = MINUS \<or> t = MULTIPLY \<or> t = DIVIDE \<or> t = MODULO \<or> t = POWER \<or>
      t = EQ \<or> t = NEQ \<or> t = LT \<or> t = GT \<or> t = LTE \<or> t = GTE \<or> t = AND \<or> t = OR)"

text \<open>
  The recursive descent. Each function takes a bound on the depth of the calls as its
  first argument, which the source does not have; \<open>None\<close> means that the bound was
  reached. \<open>parseElements\<close> is the do-while loop that \<open>parseFunctionCall\<close> and
  \<open>parseArrayLiteral\<close> both contain, and \<open>parseInfixLoop\<close> is the while loop of
  \<open>parseExpression\<close>.
\<close>

function (sequential) parseExpression :: "nat \<Rightarrow> runtime \<Rightarrow> Token list \<Rightarrow> nat \<Rightarrow> nat \<Rightarrow> (error + ASTNode \<times> nat) option"
and parseInfixLoop :: "nat \<Rightarrow> runtime \<Rightarrow> Token list \<Rightarrow> nat \<Rightarrow> ASTNode \<Rightarrow> nat \<Rightarrow> (error + ASTNode \<times> nat) option"
and parsePrefixExpression :: "nat \<Rightarrow> runtime \<Rightarrow> Token list \<Rightarrow> nat \<Rightarrow> (error + ASTNode \<times> nat) option"
and parseInfixExpression :: "nat \<Rightarrow> runtime \<Rightarrow> Token list \<Rightarrow> ASTNode \<Rightarrow> nat \<Rightarrow> (error + ASTNode \<times> nat) option"
and parseElements :: "nat \<Rightarrow> runtime \<Rightarrow> Token list \<Rightarrow> ASTNode list \<Rightarrow> nat \<Rightarrow> (error + ASTNode list \<times> nat) option"
and parseMemberAccess :: "nat \<Rightarrow> runtime \<Rightarrow> Token list \<Rightarrow> ASTNode \<Rightarrow> nat \<Rightarrow> (error + ASTNode \<times> nat) option"
and parseIndexAccess :: "nat \<Rightarrow> runtime \<Rightarrow> Token list \<Rightarrow> ASTNode \<Rightarrow> nat \<Rightarrow> (error + ASTNode \<times> nat) option"
where
  "parseExpression 0 rt ts precedence cur = None"
| "parseExpression (Suc n) rt ts precedence cur =
     (case parsePrefixExpression n rt ts cur of
        None \<Rightarrow> None
      | Some (Inl e) \<Rightarrow> Some (Inl e)
      | Some (Inr (left, cur1)) \<Rightarrow> parseInfixLoop n rt ts precedence left cur1)"
| "parseInfixLoop 0 rt ts precedence left cur = None"
| "parseInfixLoop (Suc n) rt ts precedence left cur =
     (if \<not> parserAtEnd ts cur \<and> precedence < getPrecedence ts cur
      then
        (case parseInfixExpression n rt ts left cur of
           None \<Rightarrow> None
         | Some (Inl e) \<Rightarrow> Some (Inl e)
         | Some (Inr (left1, cur1)) \<Rightarrow> parseInfixLoop n rt ts precedence left1 cur1)
      else Some (Inr (left, cur)))"
| "parsePrefixExpression 0 rt ts cur = None"
| "parsePrefixExpression (Suc n) rt ts cur =
     (let token = peekToken ts cur; t = tokenType token in
      if t = NUMBER then Some (Inr (parseNumber ts cur))
      else if t = STRING then Some (Inr (parseString rt ts cur))
      else if t = BOOLEAN then Some (Inr (parseBoolean ts cur))
      else if t = NULL then Some (Inr (parseNull ts cur))
      else if t = VARIABLE then Some (Inr (parseVariable rt ts cur))
      else if t = CONTEXT_VAR then Some (Inr (parseContextVariable rt ts cur))
      else if t = IDENTIFIER then
        \<comment> \<open>parseIdentifierOrFunctionCall, parseFunctionCall\<close>
        (let token1 = fst (advanceParser ts cur); cur1 = snd (advanceParser ts cur);
             name = tokenText rt (tokenValue token1) in
         if tokenType (peekToken ts cur1) = LPAREN
         then
           (let cur2 = snd (advanceParser ts cur1) in
            case (if tokenType (peekToken ts cur2) \<noteq> RPAREN
                  then parseElements n rt ts [] cur2 else Some (Inr ([], cur2))) of
              None \<Rightarrow> None
            | Some (Inl e) \<Rightarrow> Some (Inl e)
            | Some (Inr (args, cur3)) \<Rightarrow>
                (case expect rt ts RPAREN '')'' cur3 of
                   Inl e \<Rightarrow> Some (Inl e)
                 | Inr cur4 \<Rightarrow> Some (Inr (FunctionCall (toUpperCase name) args, cur4))))
         else Some (Inl (bareIdentifierError token1 name)))
      else if t = LPAREN then
        \<comment> \<open>parseGroupedExpression\<close>
        (case parseExpression n rt ts PRECEDENCE_LOWEST (snd (advanceParser ts cur)) of
           None \<Rightarrow> None
         | Some (Inl e) \<Rightarrow> Some (Inl e)
         | Some (Inr (expr, cur1)) \<Rightarrow>
             (case expect rt ts RPAREN '')'' cur1 of
                Inl e \<Rightarrow> Some (Inl e)
              | Inr cur2 \<Rightarrow> Some (Inr (expr, cur2))))
      else if t = LBRACKET then
        \<comment> \<open>parseArrayLiteral\<close>
        (let cur1 = snd (advanceParser ts cur) in
         case (if tokenType (peekToken ts cur1) \<noteq> RBRACKET
               then parseElements n rt ts [] cur1 else Some (Inr ([], cur1))) of
           None \<Rightarrow> None
         | Some (Inl e) \<Rightarrow> Some (Inl e)
         | Some (Inr (elements, cur2)) \<Rightarrow>
             (case expect rt ts RBRACKET '']'' cur2 of
                Inl e \<Rightarrow> Some (Inl e)
              | Inr cur3 \<Rightarrow> Some (Inr (ArrayLiteral elements, cur3))))
      else if t = MINUS \<or> t = NOT then
        \<comment> \<open>parseUnaryExpression\<close>
        (let token1 = fst (advanceParser ts cur); cur1 = snd (advanceParser ts cur) in
         case parseExpression n rt ts PRECEDENCE_UNARY cur1 of
           None \<Rightarrow> None
         | Some (Inl e) \<Rightarrow> Some (Inl e)
         | Some (Inr (operand, cur2)) \<Rightarrow>
             Some (Inr (UnaryOperation (getOperatorSymbol (tokenType token1)) operand, cur2)))
      else Some (Inl (UnexpectedTokenError (tokenText rt (tokenValue token)) prefixExpected
                        (tokenPosition token))))"
| "parseInfixExpression 0 rt ts left cur = None"
| "parseInfixExpression (Suc n) rt ts left cur =
     (let t = tokenType (peekToken ts cur) in
      if isBinaryOperator t
      then
        \<comment> \<open>parseBinaryExpression\<close>
        (let token = fst (advanceParser ts cur); cur1 = snd (advanceParser ts cur);
             precedence = getTokenPrecedence (tokenType token);
             nextPrecedence = (if tokenType token = POWER then precedence - 1 else precedence)
         in case parseExpression n rt ts nextPrecedence cur1 of
              None \<Rightarrow> None
            | Some (Inl e) \<Rightarrow> Some (Inl e)
            | Some (Inr (right, cur2)) \<Rightarrow>
                Some (Inr (BinaryOperation (getOperatorSymbol (tokenType token)) left right, cur2)))
      else if t = QUESTION then
        \<comment> \<open>parseTernaryExpression\<close>
        (case parseExpression n rt ts PRECEDENCE_LOWEST (snd (advanceParser ts cur)) of
           None \<Rightarrow> None
         | Some (Inl e) \<Rightarrow> Some (Inl e)
         | Some (Inr (consequent, cur1)) \<Rightarrow>
             (case expect rt ts COLON '':'' cur1 of
                Inl e \<Rightarrow> Some (Inl e)
              | Inr cur2 \<Rightarrow>
                  (case parseExpression n rt ts (PRECEDENCE_TERNARY - 1) cur2 of
                     None \<Rightarrow> None
                   | Some (Inl e) \<Rightarrow> Some (Inl e)
                   | Some (Inr (alternate, cur3)) \<Rightarrow>
                       Some (Inr (ConditionalExpression left consequent alternate, cur3)))))
      else if t = DOT then parseMemberAccess n rt ts left cur
      else if t = LBRACKET then parseIndexAccess n rt ts left cur
      else Some (Inr (left, cur)))"
| "parseElements 0 rt ts acc cur = None"
| "parseElements (Suc n) rt ts acc cur =
     (let cur1 = (if tokenType (peekToken ts cur) = COMMA then snd (advanceParser ts cur) else cur) in
      case parseExpression n rt ts PRECEDENCE_LOWEST cur1 of
        None \<Rightarrow> None
      | Some (Inl e) \<Rightarrow> Some (Inl e)
      | Some (Inr (element, cur2)) \<Rightarrow>
          (if tokenType (peekToken ts cur2) = COMMA
           then parseElements n rt ts (acc @ [element]) cur2
           else Some (Inr (acc @ [element], cur2))))"
| "parseMemberAccess 0 rt ts object cur = None"
| "parseMemberAccess (Suc n) rt ts object cur =
     (let cur1 = snd (advanceParser ts cur); token = peekToken ts cur1 in
      if tokenType token \<noteq> IDENTIFIER \<and> tokenType token \<noteq> VARIABLE
      then Some (Inl (UnexpectedTokenError (tokenText rt (tokenValue token)) [''identifier'']
                        (tokenPosition token)))
      else
        (let cur2 = snd (advanceParser ts cur1);
             node = MemberAccess object (tokenText rt (tokenValue token))
         in if tokenType (peekToken ts cur2) = DOT then parseMemberAccess n rt ts node cur2
            else if tokenType (peekToken ts cur2) = LBRACKET then parseIndexAccess n rt ts node cur2
            else Some (Inr (node, cur2))))"
| "parseIndexAccess 0 rt ts object cur = None"
| "parseIndexAccess (Suc n) rt ts object cur =
     (case parseExpression n rt ts PRECEDENCE_LOWEST (snd (advanceParser ts cur)) of
        None \<Rightarrow> None
      | Some (Inl e) \<Rightarrow> Some (Inl e)
      | Some (Inr (index, cur1)) \<Rightarrow>
          (case expect rt ts RBRACKET '']'' cur1 of
             Inl e \<Rightarrow> Some (Inl e)
           | Inr cur2 \<Rightarrow>
               (let node = IndexAccess object index in
                if tokenType (peekToken ts cur2) = DOT then parseMemberAccess n rt ts node cur2
                else if tokenType (peekToken ts cur2) = LBRACKET
                  then parseIndexAccess n rt ts node cur2
                else Some (Inr (node, cur2)))))"

  by pat_completeness auto
termination
  by (relation "measure (\<lambda>x. case x of
      Inl (Inl (n, _)) \<Rightarrow> n | Inl (Inr (Inl (n, _))) \<Rightarrow> n | Inl (Inr (Inr (n, _))) \<Rightarrow> n
    | Inr (Inl (Inl (n, _))) \<Rightarrow> n | Inr (Inl (Inr (n, _))) \<Rightarrow> n
    | Inr (Inr (Inl (n, _))) \<Rightarrow> n | Inr (Inr (Inr (n, _))) \<Rightarrow> n)") auto

text \<open>
  \<open>Parser.parse\<close>. Every call inside the descent follows the consumption of a token or
  is one of at most four calls that pass the same token on, so four calls for each token
  bound the depth.
\<close>

definition parse :: "runtime \<Rightarrow> string \<Rightarrow> (error + ASTNode) option" where
  "parse rt expression =
     (case tokenize rt expression of
        Inl e \<Rightarrow> Some (Inl e)
      | Inr ts \<Rightarrow>
          (case parseExpression (4 * length ts + 4) rt ts PRECEDENCE_LOWEST 0 of
             None \<Rightarrow> None
           | Some (Inl e) \<Rightarrow> Some (Inl e)
           | Some (Inr (ast, cur)) \<Rightarrow>
               (if \<not> parserAtEnd ts cur
                then Some (Inl (UnexpectedTokenError (tokenText rt (tokenValue (peekToken ts cur)))
                                 [''end of expression''] (tokenPosition (peekToken ts cur))))
                else Some (Inr ast))))"

section \<open>Sets and maps of JavaScript\<close>

text \<open>
  A \<open>Set\<close> iterates in insertion order and a \<open>Map\<close> in the order in which its keys were
  first set: a set is a list without repetition, a map an association list.
\<close>

definition setAdd :: "'a \<Rightarrow> 'a list \<Rightarrow> 'a list" where
  "setAdd x xs = (if x \<in> set xs then xs else xs @ [x])"

definition newSet :: "'a list \<Rightarrow> 'a list" where
  "newSet xs = foldl (\<lambda>s x. setAdd x s) [] xs"

definition mapHas :: "('k \<times> 'v) list \<Rightarrow> 'k \<Rightarrow> bool" where
  "mapHas m k = (map_of m k \<noteq> None)"

fun mapSet :: "('k \<times> 'v) list \<Rightarrow> 'k \<Rightarrow> 'v \<Rightarrow> ('k \<times> 'v) list" where
  "mapSet [] k v = [(k, v)]"
| "mapSet (p # ps) k v = (if fst p = k then (k, v) # ps else p # mapSet ps k v)"

section \<open>Dependency extractor (dependency-extractor.ts)\<close>

text \<open>\<open>DependencyExtractor.extract\<close> is named \<open>extractDeps\<close> here.\<close>

fun visit :: "ASTNode \<Rightarrow> string list \<Rightarrow> string list"
and visitList :: "ASTNode list \<Rightarrow> string list \<Rightarrow> string list"
and visitProperties :: "(string \<times> ASTNode) list \<Rightarrow> string list \<Rightarrow> string list"
and visitMemberRoot :: "ASTNode \<Rightarrow> string list \<Rightarrow> string list"
where
  "visit (VariableReference prefix name) dependencies =
     (if prefix = Dollar then setAdd name dependencies else dependencies)"
| "visit (BinaryOperation operator left right) dependencies =
     visit right (visit left dependencies)"
| "visit (UnaryOperation operator operand) dependencies = visit operand dependencies"
| "visit (ConditionalExpression condition consequent alternate) dependencies =
     visit alternate (visit consequent (visit condition dependencies))"
| "visit (FunctionCall name arguments) dependencies = visitList arguments dependencies"
| "visit (MemberAccess object property) dependencies = visitMemberRoot object dependencies"
| "visit (IndexAccess object index) dependencies =
     visit index (visitMemberRoot object dependencies)"
| "visit (ArrayLiteral elements) dependencies = visitList elements dependencies"
| "visit (ObjectLiteral properties) dependencies = visitProperties properties dependencies"
| "visit (DecimalLiteral v) dependencies = dependencies"
| "visit (NumberLiteral v) dependencies = dependencies"
| "visit (StringLiteral v) dependencies = dependencies"
| "visit (BooleanLiteral v) dependencies = dependencies"
| "visit NullLiteral dependencies = dependencies"
| "visitList [] dependencies = dependencies"
| "visitList (node # rest) dependencies = visitList rest (visit node dependencies)"
| "visitProperties [] dependencies = dependencies"
| "visitProperties (prop # rest) dependencies =
     visitProperties rest (visit (snd prop) dependencies)"
| "visitMemberRoot (VariableReference prefix name) dependencies =
     (if prefix = Dollar then setAdd name dependencies else dependencies)"
| "visitMemberRoot (MemberAccess object property) dependencies =
     visitMemberRoot object dependencies"
| "visitMemberRoot (IndexAccess object index) dependencies =
     visit index (visitMemberRoot object dependencies)"
| "visitMemberRoot (DecimalLiteral v) dependencies = dependencies"
| "visitMemberRoot (NumberLiteral v) dependencies = dependencies"
| "visitMemberRoot (StringLiteral v) dependencies = dependencies"
| "visitMemberRoot (BooleanLiteral v) dependencies = dependencies"
| "visitMemberRoot NullLiteral dependencies = dependencies"
| "visitMemberRoot (ArrayLiteral elements) dependencies = visitList elements dependencies"
| "visitMemberRoot (ObjectLiteral properties) dependencies =
     visitProperties properties dependencies"
| "visitMemberRoot (BinaryOperation operator left right) dependencies =
     visit right (visit left dependencies)"
| "visitMemberRoot (UnaryOperation operator operand) dependencies = visit operand dependencies"
| "visitMemberRoot (ConditionalExpression condition consequent alternate) dependencies =
     visit alternate (visit consequent (visit condition dependencies))"
| "visitMemberRoot (FunctionCall name arguments) dependencies =
     visitList arguments dependencies"

definition extractFromNode :: "ASTNode \<Rightarrow> string list" where
  "extractFromNode node = visit node []"

definition extractDeps :: "runtime \<Rightarrow> string \<Rightarrow> (error + string list) option" where
  "extractDeps rt expression =
     (case parse rt expression of
        None \<Rightarrow> None
      | Some (Inl e) \<Rightarrow> Some (Inl e)
      | Some (Inr ast) \<Rightarrow> Some (Inr (extractFromNode ast)))"

section \<open>Dependency graph (dependency-graph.ts)\<close>

record DependencyGraph =
  nodes :: "string list"
  edges :: "(string \<times> string list) list"

definition newDependencyGraph :: DependencyGraph where
  "newDependencyGraph = \<lparr>nodes = [], edges = []\<rparr>"

definition addNode :: "DependencyGraph \<Rightarrow> string \<Rightarrow> DependencyGraph" where
  "addNode g ident =
     g\<lparr>nodes := setAdd ident (nodes g),
       edges := (if \<not> mapHas (edges g) ident then mapSet (edges g) ident [] else edges g)\<rparr>"

definition getDependencies :: "DependencyGraph \<Rightarrow> string \<Rightarrow> string list" where
  "getDependencies g nodeId = (case map_of (edges g) nodeId of Some deps \<Rightarrow> deps | None \<Rightarrow> [])"

text \<open>After the two calls of \<open>addNode\<close> the source has an entry in \<open>edges\<close>.\<close>

definition addEdge :: "DependencyGraph \<Rightarrow> string \<Rightarrow> string \<Rightarrow> DependencyGraph" where
  "addEdge g source target =
     (let g2 = addNode (addNode g source) target in
      g2\<lparr>edges := mapSet (edges g2) source (setAdd target (getDependencies g2 source))\<rparr>)"

subsection \<open>findCycle\<close>

record dfsState =
  dfsVisited :: "string set"
  recursionStack :: "string set"
  path :: "string list"

text \<open>\<open>path.indexOf(dep)\<close> followed by \<open>path.slice(cycleStart)\<close>.\<close>

definition sliceFrom :: "string \<Rightarrow> string list \<Rightarrow> string list" where
  "sliceFrom dep p = dropWhile (\<lambda>x. x \<noteq> dep) p"

text \<open>
  \<open>dfs\<close> is the local function of findCycle; \<open>dfsDeps\<close> is its loop over the dependencies
  of the node. Both return the cycle, if one was found, and the state of the three
  variables that the closure shares.
\<close>

function dfs :: "DependencyGraph \<Rightarrow> string \<Rightarrow> dfsState \<Rightarrow> string list option \<times> dfsState"
and dfsDeps :: "DependencyGraph \<Rightarrow> string list \<Rightarrow> dfsState \<Rightarrow> string list option \<times> dfsState"
where
  "dfs g node st =
     (case dfsDeps g (getDependencies g node)
             (st\<lparr>dfsVisited := insert node (dfsVisited st),
                 recursionStack := insert node (recursionStack st),
                 path := path st @ [node]\<rparr>) of
        (Some cycle, st1) \<Rightarrow> (Some cycle, st1)
      | (None, st1) \<Rightarrow>
          (None, st1\<lparr>path := butlast (path st1), recursionStack := recursionStack st1 - {node}\<rparr>))"
| "dfsDeps g [] st = (None, st)"
| "dfsDeps g (dep # rest) st =
     (if dep \<notin> set (nodes g) then dfsDeps g rest st
      else if dep \<notin> dfsVisited st then
        (case dfs g dep st of
           (Some cycle, st1) \<Rightarrow> (Some cycle, st1)
         | (None, st1) \<Rightarrow> dfsDeps g rest st1)
      else if dep \<in> recursionStack st then (Some (sliceFrom dep (path st) @ [dep]), st)
      else dfsDeps g rest st)"
  by pat_completeness auto

lemma dfs_visited_mono:
  "dfs_dfsDeps_dom (Inl (g, node, st)) \<Longrightarrow> dfsVisited st \<subseteq> dfsVisited (snd (dfs g node st))"
  "dfs_dfsDeps_dom (Inr (g, deps, st)) \<Longrightarrow> dfsVisited st \<subseteq> dfsVisited (snd (dfsDeps g deps st))"
proof (induction g node st and g deps st rule: dfs_dfsDeps.pinduct)
  case (1 g node st)
  then show ?case
    by (auto simp: dfs.psimps split: prod.splits option.splits)
next
  case (2 g st)
  then show ?case by (simp add: dfsDeps.psimps)
next
  case (3 g dep rest st)
  show ?case
  proof (cases "dep \<in> set (nodes g) \<and> dep \<notin> dfsVisited st")
    case True
    obtain r st1 where d: "dfs g dep st = (r, st1)" by (cases "dfs g dep st")
    from 3(3) True d have m1: "dfsVisited st \<subseteq> dfsVisited st1" by simp
    show ?thesis
    proof (cases r)
      case None
      with 3(4) [of r st1] True d
      have "dfsVisited st1 \<subseteq> dfsVisited (snd (dfsDeps g rest st1))" by simp
      with m1 None d True 3(1) show ?thesis by (auto simp: dfsDeps.psimps)
    next
      case (Some c)
      with m1 d True 3(1) show ?thesis by (simp add: dfsDeps.psimps)
    qed
  next
    case False
    with 3(1,2,5) show ?thesis by (auto simp: dfsDeps.psimps)
  qed
qed

definition dfsRank ::
  "DependencyGraph \<times> string \<times> dfsState + DependencyGraph \<times> string list \<times> dfsState \<Rightarrow> nat \<times> nat" where
  "dfsRank x =
     (case x of
        Inl (g, node, st) \<Rightarrow>
          (card (set (nodes g) - insert node (dfsVisited st)), Suc (length (getDependencies g node)))
      | Inr (g, deps, st) \<Rightarrow> (card (set (nodes g) - dfsVisited st), length deps))"

termination dfs
proof (relation "inv_image (less_than <*lex*> less_than) dfsRank", goal_cases)
  case 1
  show ?case by (intro wf_inv_image wf_lex_prod wf_less_than)
next
  case (2 g node st)
  show ?case by (simp add: dfsRank_def)
next
  case (3 g dep rest st)
  show ?case by (simp add: dfsRank_def)
next
  case (4 g dep rest st)
  then have "set (nodes g) - insert dep (dfsVisited st) \<subset> set (nodes g) - dfsVisited st"
    by auto
  then have "card (set (nodes g) - insert dep (dfsVisited st)) < card (set (nodes g) - dfsVisited st)"
    by (intro psubset_card_mono) auto
  then show ?case by (simp add: dfsRank_def)
next
  case (5 g dep rest st x y)
  from dfs_visited_mono(1) [OF 5(5)] 5(3) have "dfsVisited st \<subseteq> dfsVisited y"
    by (metis snd_conv)
  then have "card (set (nodes g) - dfsVisited y) \<le> card (set (nodes g) - dfsVisited st)"
    by (intro card_mono) auto
  then show ?case by (auto simp: dfsRank_def)
next
  case (6 g dep rest st)
  show ?case by (simp add: dfsRank_def)
qed

declare dfs.simps [simp del]

text \<open>The loop of findCycle over all nodes.\<close>

fun findCycleLoop :: "DependencyGraph \<Rightarrow> string list \<Rightarrow> dfsState \<Rightarrow> string list" where
  "findCycleLoop g [] st = []"
| "findCycleLoop g (node # rest) st =
     (if node \<notin> dfsVisited st then
        (case dfs g node st of
           (Some cycle, st1) \<Rightarrow> cycle
         | (None, st1) \<Rightarrow> findCycleLoop g rest st1)
      else findCycleLoop g rest st)"

definition findCycle :: "DependencyGraph \<Rightarrow> string list" where
  "findCycle g = findCycleLoop g (nodes g) \<lparr>dfsVisited = {}, recursionStack = {}, path = []\<rparr>"

subsection \<open>topologicalSort\<close>

text \<open>The map \<open>dependents\<close>: for every node, the nodes that depend on it.\<close>

definition addDependent :: "string \<Rightarrow> (string \<times> string list) list \<Rightarrow> string \<Rightarrow> (string \<times> string list) list" where
  "addDependent node m dep =
     (case map_of m dep of Some s \<Rightarrow> mapSet m dep (setAdd node s) | None \<Rightarrow> m)"

definition buildDependents :: "DependencyGraph \<Rightarrow> (string \<times> string list) list" where
  "buildDependents g =
     foldl (\<lambda>m (node, deps). foldl (addDependent node) m deps)
       (foldl (\<lambda>m node. mapSet m node []) [] (nodes g)) (edges g)"

text \<open>The map \<open>inDegree\<close>: for every node, the number of its dependencies that are nodes.\<close>

definition buildInDegree :: "DependencyGraph \<Rightarrow> (string \<times> int) list" where
  "buildInDegree g =
     foldl (\<lambda>m (node, deps). mapSet m node (int (length (filter (\<lambda>d. d \<in> set (nodes g)) deps))))
       (foldl (\<lambda>m node. mapSet m node 0) [] (nodes g)) (edges g)"

record kahnState =
  queue :: "string list"
  inDegree :: "(string \<times> int) list"
  result :: "string list"
  visited :: "string set"

text \<open>One step of the inner loop: the dependent node loses one unplaced dependency.\<close>

definition decreaseDegree :: "kahnState \<Rightarrow> string \<Rightarrow> kahnState" where
  "decreaseDegree s dependentNode =
     (let newDegree = (case map_of (inDegree s) dependentNode of Some d \<Rightarrow> d | None \<Rightarrow> 0) - 1 in
      s\<lparr>inDegree := mapSet (inDegree s) dependentNode newDegree,
        queue := (if newDegree = 0 \<and> dependentNode \<notin> visited s
                  then queue s @ [dependentNode] else queue s)\<rparr>)"

definition dependentsOf :: "(string \<times> string list) list \<Rightarrow> string \<Rightarrow> string list" where
  "dependentsOf dependents node = (case map_of dependents node of Some s \<Rightarrow> s | None \<Rightarrow> [])"

lemma decreaseDegree_frame [simp]:
  "visited (decreaseDegree s d) = visited s" "result (decreaseDegree s d) = result s"
  by (simp_all add: decreaseDegree_def Let_def)

lemma decreaseDegree_queue: "set (queue (decreaseDegree s d)) \<subseteq> insert d (set (queue s))"
  by (auto simp: decreaseDegree_def Let_def)

lemma foldl_decreaseDegree_frame [simp]:
  "visited (foldl decreaseDegree s ds) = visited s"
  "result (foldl decreaseDegree s ds) = result s"
  by (induction ds arbitrary: s) simp_all

lemma foldl_decreaseDegree_queue:
  "set (queue (foldl decreaseDegree s ds)) \<subseteq> set (queue s) \<union> set ds"
proof (induction ds arbitrary: s)
  case Nil
  then show ?case by simp
next
  case (Cons d ds)
  from Cons.IH [of "decreaseDegree s d"] decreaseDegree_queue [of s d]
  show ?case by auto
qed

lemma dependentsOf_subset:
  "set (dependentsOf dependents node) \<subseteq> \<Union> (set ` snd ` set dependents)"
proof -
  have "set s \<subseteq> \<Union> (set ` snd ` set dependents)" if "map_of dependents node = Some s" for s
    using map_of_SomeD [OF that] by force
  then show ?thesis
    by (cases "map_of dependents node") (simp_all add: dependentsOf_def)
qed

text \<open>The while loop of topologicalSort.\<close>

function kahnLoop :: "(string \<times> string list) list \<Rightarrow> kahnState \<Rightarrow> kahnState" where
  "kahnLoop dependents s =
     (case queue s of
        [] \<Rightarrow> s
      | node # rest \<Rightarrow>
          (if node \<in> visited s then kahnLoop dependents (s\<lparr>queue := rest\<rparr>)
           else kahnLoop dependents
                  (foldl decreaseDegree
                     (s\<lparr>queue := rest, visited := insert node (visited s),
                        result := result s @ [node]\<rparr>)
                     (dependentsOf dependents node))))"
  by pat_completeness auto
termination
proof (relation "inv_image (less_than <*lex*> less_than)
    (\<lambda>(dependents, s).
       (card ((set (queue s) \<union> \<Union> (set ` snd ` set dependents)) - visited s), length (queue s)))")
  show "wf (inv_image (less_than <*lex*> less_than)
    (\<lambda>(dependents, s).
       (card ((set (queue s) \<union> \<Union> (set ` snd ` set dependents)) - visited s), length (queue s))))"
    by (intro wf_inv_image wf_lex_prod wf_less_than)
next
  fix dependents :: "(string \<times> string list) list" and s :: kahnState and node rest
  assume a: "queue s = node # rest" "node \<in> visited s"
  have "(set rest \<union> \<Union> (set ` snd ` set dependents)) - visited s
      \<subseteq> (set (queue s) \<union> \<Union> (set ` snd ` set dependents)) - visited s"
    using a by auto
  then have "card ((set rest \<union> \<Union> (set ` snd ` set dependents)) - visited s)
      \<le> card ((set (queue s) \<union> \<Union> (set ` snd ` set dependents)) - visited s)"
    by (intro card_mono) auto
  then show "((dependents, s\<lparr>queue := rest\<rparr>), (dependents, s)) \<in>
    inv_image (less_than <*lex*> less_than)
    (\<lambda>(dependents, s).
       (card ((set (queue s) \<union> \<Union> (set ` snd ` set dependents)) - visited s), length (queue s)))"
    using a by auto
next
  fix dependents :: "(string \<times> string list) list" and s :: kahnState and node rest
  assume a: "queue s = node # rest" "node \<notin> visited s"
  define s1 where "s1 = s\<lparr>queue := rest, visited := insert node (visited s),
                        result := result s @ [node]\<rparr>"
  define s2 where "s2 = foldl decreaseDegree s1 (dependentsOf dependents node)"
  have q: "set (queue s2) \<subseteq> set rest \<union> \<Union> (set ` snd ` set dependents)"
    using foldl_decreaseDegree_queue [of s1 "dependentsOf dependents node"]
      dependentsOf_subset [of dependents node]
    by (auto simp: s2_def s1_def)
  have v: "visited s2 = insert node (visited s)"
    by (simp add: s2_def s1_def)
  have "(set (queue s2) \<union> \<Union> (set ` snd ` set dependents)) - visited s2
      \<subset> (set (queue s) \<union> \<Union> (set ` snd ` set dependents)) - visited s"
    using q v a by auto
  then have "card ((set (queue s2) \<union> \<Union> (set ` snd ` set dependents)) - visited s2)
      < card ((set (queue s) \<union> \<Union> (set ` snd ` set dependents)) - visited s)"
    by (intro psubset_card_mono) auto
  then show "((dependents, foldl decreaseDegree
                     (s\<lparr>queue := rest, visited := insert node (visited s),
                        result := result s @ [node]\<rparr>)
                     (dependentsOf dependents node)), (dependents, s)) \<in>
    inv_image (less_than <*lex*> less_than)
    (\<lambda>(dependents, s).
       (card ((set (queue s) \<union> \<Union> (set ` snd ` set dependents)) - visited s), length (queue s)))"
    by (simp add: s2_def s1_def)
qed

declare kahnLoop.simps [simp del]

definition initialQueue :: "(string \<times> int) list \<Rightarrow> string list" where
  "initialQueue inDeg = map fst (filter (\<lambda>(node, degree). degree = 0) inDeg)"

definition kahn :: "DependencyGraph \<Rightarrow> kahnState" where
  "kahn g =
     kahnLoop (buildDependents g)
       \<lparr>queue = initialQueue (buildInDegree g), inDegree = buildInDegree g,
        result = [], visited = {}\<rparr>"

definition topologicalSort :: "DependencyGraph \<Rightarrow> error + string list" where
  "topologicalSort g =
     (let s = kahn g in
      if length (result s) \<noteq> length (nodes g)
      then Inl (CircularDependencyError (findCycle g) (filter (\<lambda>n. n \<notin> visited s) (nodes g)))
      else Inr (result s))"

section \<open>DecimalUtils (decimal-utils.ts)\<close>

text \<open>\<open>DecimalUtils.from\<close> on a text; on a \<open>Decimal\<close> it is the identity.\<close>

definition decimalFromText :: "string \<Rightarrow> error + decimal" where
  "decimalFromText t =
     (case decimalOfText t of Some d \<Rightarrow> Inr d | None \<Rightarrow> Inl (InvalidDecimalError t))"

definition decimalAdd :: "DecimalUtilsConfig \<Rightarrow> decimal \<Rightarrow> decimal \<Rightarrow> decimal" where
  "decimalAdd du a b = decPlus du a b"

definition decimalSubtract :: "DecimalUtilsConfig \<Rightarrow> decimal \<Rightarrow> decimal \<Rightarrow> decimal" where
  "decimalSubtract du a b = decMinus du a b"

definition decimalMultiply :: "DecimalUtilsConfig \<Rightarrow> decimal \<Rightarrow> decimal \<Rightarrow> decimal" where
  "decimalMultiply du a b = decTimes du a b"

definition decimalDivide :: "DecimalUtilsConfig \<Rightarrow> runtime \<Rightarrow> decimal \<Rightarrow> decimal \<Rightarrow> error + decimal" where
  "decimalDivide du rt a b =
     (if isZero b then Inl DecimalDivisionByZeroError
      else Inr (toDecimalPlaces (decDividedBy rt a b) (divisionScale du)
                  (ROUNDING_MODE_MAP (roundingMode du))))"

definition decimalModulo :: "runtime \<Rightarrow> decimal \<Rightarrow> decimal \<Rightarrow> error + decimal" where
  "decimalModulo rt a b =
     (if isZero b then Inl DecimalDivisionByZeroError else Inr (decModulo rt a b))"

definition decimalRound ::
  "DecimalUtilsConfig \<Rightarrow> decimal \<Rightarrow> nat \<Rightarrow> DecimalRoundingMode option \<Rightarrow> decimal" where
  "decimalRound du v sc mode =
     toDecimalPlaces v sc
       (case mode of Some m \<Rightarrow> ROUNDING_MODE_MAP m | None \<Rightarrow> ROUNDING_MODE_MAP (roundingMode du))"

definition decimalZero :: decimal where
  "decimalZero = Decimal 0 0"

section \<open>Evaluator (evaluator.ts)\<close>

record SecurityConfig =
  maxExpressionLength :: "nat option"
  maxRecursionDepth :: "nat option"
  maxIterations :: "nat option"

text \<open>
  \<open>EvaluationContext\<close>: \<open>variables\<close> and the optional \<open>extra\<close>, each a plain object from
  names to values, held as the list of its own properties.
\<close>

record EvaluationContext =
  variables :: "(string \<times> formulaValue) list"
  extra :: "(string \<times> formulaValue) list option"

text \<open>The three counters of \<open>Evaluator\<close>, which \<open>evaluate\<close> resets.\<close>

record EvaluatorState =
  recursionDepth :: nat
  iterationCount :: nat
  accessedVariables :: "string list"

text \<open>
  \<open>FunctionDefinition\<close>; \<open>maxArgs\<close> is -1 for a variadic function. The implementation
  gets the evaluated arguments, the context and the evaluator. With the evaluator it can
  call \<open>evaluate\<close> or \<open>evaluateNode\<close> and so change the counters: it takes their state and
  returns the new one.
\<close>

record FunctionDefinition =
  minArgs :: nat
  maxArgs :: int
  implementation ::
    "formulaValue list \<Rightarrow> EvaluationContext \<Rightarrow> EvaluatorState
     \<Rightarrow> (error + formulaValue) \<times> EvaluatorState"

text \<open>The fields that the constructor of \<open>Evaluator\<close> sets.\<close>

record Evaluator =
  decimalUtils :: DecimalUtilsConfig
  functionTable :: "string \<Rightarrow> FunctionDefinition option"
  strictMode :: bool
  securityConfig :: SecurityConfig

definition checkRecursionLimit :: "Evaluator \<Rightarrow> EvaluatorState \<Rightarrow> (error + unit) \<times> EvaluatorState" where
  "checkRecursionLimit E st =
     (let st1 = st\<lparr>recursionDepth := recursionDepth st + 1\<rparr>;
          limit = orElse (maxRecursionDepth (securityConfig E)) 100
      in if recursionDepth st1 > limit then (Inl (MaxRecursionError limit), st1)
         else (Inr (), st1))"

definition checkIterationLimit :: "Evaluator \<Rightarrow> EvaluatorState \<Rightarrow> (error + unit) \<times> EvaluatorState" where
  "checkIterationLimit E st =
     (let st1 = st\<lparr>iterationCount := iterationCount st + 1\<rparr>;
          limit = orElse (maxIterations (securityConfig E)) 10000
      in if iterationCount st1 > limit then (Inl (MaxIterationsError limit), st1)
         else (Inr (), st1))"

subsection \<open>Helper methods\<close>

definition isNumeric :: "formulaValue \<Rightarrow> bool" where
  "isNumeric v = (case v of VDecimal d \<Rightarrow> True | VNumber n \<Rightarrow> True | _ \<Rightarrow> False)"

text \<open>The \<open>typeof\<close> operator of JavaScript.\<close>

definition typeofJs :: "formulaValue \<Rightarrow> string" where
  "typeofJs v =
     (case v of
        VNumber n \<Rightarrow> ''number''
      | VString s \<Rightarrow> ''string''
      | VBool b \<Rightarrow> ''boolean''
      | VUndefined \<Rightarrow> ''undefined''
      | VFunction f \<Rightarrow> ''function''
      | _ \<Rightarrow> ''object'')"

definition typeOf :: "formulaValue \<Rightarrow> string" where
  "typeOf v =
     (case v of
        VNull \<Rightarrow> ''null''
      | VDecimal d \<Rightarrow> ''decimal''
      | VArray xs \<Rightarrow> ''array''
      | _ \<Rightarrow> typeofJs v)"

definition toDecimal :: "runtime \<Rightarrow> formulaValue \<Rightarrow> error + decimal" where
  "toDecimal rt v =
     (case v of
        VDecimal d \<Rightarrow> Inr d
      | VNumber n \<Rightarrow> Inr (decimalOfNumber rt n)
      | VString s \<Rightarrow> decimalFromText s
      | _ \<Rightarrow> Inl (InvalidOperationError ''toDecimal'' [typeOf v]))"

definition toNumber :: "runtime \<Rightarrow> formulaValue \<Rightarrow> error + jsnumber" where
  "toNumber rt v =
     (case v of
        VDecimal d \<Rightarrow> Inr (decToNumber rt d)
      | VNumber n \<Rightarrow> Inr n
      | VString s \<Rightarrow> Inr (parseFloat rt s)
      | _ \<Rightarrow> Inl (InvalidOperationError ''toNumber'' [typeOf v]))"

definition toBool :: "formulaValue \<Rightarrow> bool" where
  "toBool v =
     (case v of
        VDecimal d \<Rightarrow> \<not> isZero d
      | VBool b \<Rightarrow> b
      | VNull \<Rightarrow> False
      | VUndefined \<Rightarrow> False
      | VNumber n \<Rightarrow> n \<noteq> Finite 0
      | VString s \<Rightarrow> s \<noteq> []
      | VArray xs \<Rightarrow> xs \<noteq> []
      | VObject ps \<Rightarrow> True
      | VFunction f \<Rightarrow> True
      | VHostObject h \<Rightarrow> True)"

text \<open>\<open>String(v)\<close>; \<open>jsJoin\<close> is \<open>Array.prototype.join\<close> with a comma.\<close>

fun jsString :: "runtime \<Rightarrow> formulaValue \<Rightarrow> string"
and jsJoin :: "runtime \<Rightarrow> formulaValue list \<Rightarrow> string"
where
  "jsString rt (VDecimal d) = decToString d"
| "jsString rt (VNumber n) = numberToString rt n"
| "jsString rt (VString s) = s"
| "jsString rt (VBool b) = (if b then ''true'' else ''false'')"
| "jsString rt VNull = ''null''"
| "jsString rt VUndefined = ''undefined''"
| "jsString rt (VArray xs) = jsJoin rt xs"
| "jsString rt (VObject ps) = ''[object Object]''"
| "jsString rt (VFunction f) = hostToString rt (VFunction f)"
| "jsString rt (VHostObject h) = hostToString rt (VHostObject h)"
| "jsJoin rt [] = []"
| "jsJoin rt (x # xs) =
     (if x = VNull \<or> x = VUndefined then [] else jsString rt x) @
     (if xs = [] then [] else '','' @ jsJoin rt xs)"

text \<open>The order of JavaScript on strings: lexicographic on the character codes.\<close>

fun stringLess :: "string \<Rightarrow> string \<Rightarrow> bool" where
  "stringLess [] [] = False"
| "stringLess [] (y # ys) = True"
| "stringLess (x # xs) [] = False"
| "stringLess (x # xs) (y # ys) =
     (if (of_char x :: nat) < of_char y then True
      else if (of_char y :: nat) < of_char x then False
      else stringLess xs ys)"

text \<open>The operator \<open>===\<close>.\<close>

definition strictEquals :: "runtime \<Rightarrow> formulaValue \<Rightarrow> formulaValue \<Rightarrow> bool" where
  "strictEquals rt a b =
     (case (a, b) of
        (VNumber x, VNumber y) \<Rightarrow> x = y \<and> x \<noteq> NaN
      | (VString x, VString y) \<Rightarrow> x = y
      | (VBool x, VBool y) \<Rightarrow> x = y
      | (VNull, VNull) \<Rightarrow> True
      | (VUndefined, VUndefined) \<Rightarrow> True
      | (VDecimal x, VDecimal y) \<Rightarrow> sameObject rt a b
      | (VArray x, VArray y) \<Rightarrow> sameObject rt a b
      | (VObject x, VObject y) \<Rightarrow> sameObject rt a b
      | (VFunction x, VFunction y) \<Rightarrow> x = y
      | (VHostObject x, VHostObject y) \<Rightarrow> x = y
      | _ \<Rightarrow> False)"

definition maybeConvertToDecimal :: "runtime \<Rightarrow> formulaValue \<Rightarrow> formulaValue" where
  "maybeConvertToDecimal rt v =
     (case v of
        VNumber (Finite q) \<Rightarrow> VDecimal (decimalOfNumber rt (Finite q))
      | _ \<Rightarrow> v)"

text \<open>
  \<open>name in object\<close> and \<open>object[name]\<close> for one of the two objects of a context: \<open>Some\<close> of
  the value when the object has the property itself or on its prototype chain.
\<close>

definition contextProperty ::
  "runtime \<Rightarrow> (string \<times> formulaValue) list \<Rightarrow> string \<Rightarrow> formulaValue option" where
  "contextProperty rt object name =
     (case map_of object name of
        Some v \<Rightarrow> Some v
      | None \<Rightarrow> prototypeProperty rt (VObject object) name)"

definition evaluateVariable ::
  "Evaluator \<Rightarrow> runtime \<Rightarrow> variablePrefix \<Rightarrow> string \<Rightarrow> EvaluationContext \<Rightarrow> EvaluatorState
   \<Rightarrow> (error + formulaValue) \<times> EvaluatorState" where
  "evaluateVariable E rt prefix name context st =
     (let st1 = st\<lparr>accessedVariables := setAdd name (accessedVariables st)\<rparr> in
      if prefix = Dollar then
        (case contextProperty rt (variables context) name of
           Some v \<Rightarrow> (Inr (maybeConvertToDecimal rt v), st1)
         | None \<Rightarrow>
             (case (if name = ''it'' then
                      (case extra context of
                         Some ex \<Rightarrow> contextProperty rt ex ''_currentItem''
                       | None \<Rightarrow> None)
                    else None) of
                Some item \<Rightarrow> (Inr item, st1)
              | None \<Rightarrow>
                  (if strictMode E then (Inl (UndefinedVariableError name), st1)
                   else (Inr VNull, st1))))
      else
        (case (case extra context of Some ex \<Rightarrow> contextProperty rt ex name | None \<Rightarrow> None) of
           Some v \<Rightarrow> (Inr v, st1)
         | None \<Rightarrow>
             (if strictMode E then (Inl (UndefinedVariableError (''@'' @ name)), st1)
              else (Inr VNull, st1))))"

text \<open>The two operands of an arithmetic operator or of a comparison, as decimals.\<close>

definition numericOperands ::
  "runtime \<Rightarrow> string \<Rightarrow> formulaValue \<Rightarrow> formulaValue \<Rightarrow> error + decimal \<times> decimal" where
  "numericOperands rt operator left right =
     (if \<not> isNumeric left \<or> \<not> isNumeric right
      then Inl (InvalidOperationError operator [typeOf left, typeOf right])
      else
        (case toDecimal rt left of
           Inl e \<Rightarrow> Inl e
         | Inr a \<Rightarrow> (case toDecimal rt right of Inl e \<Rightarrow> Inl e | Inr b \<Rightarrow> Inr (a, b))))"

text \<open>The private methods \<open>add\<close>, \<open>subtract\<close>, \<open>multiply\<close>, \<open>divide\<close>, \<open>modulo\<close>,
  \<open>power\<close>, \<open>negate\<close>, \<open>equals\<close> and the four comparisons of \<open>Evaluator\<close>.\<close>

definition evalAdd :: "Evaluator \<Rightarrow> runtime \<Rightarrow> formulaValue \<Rightarrow> formulaValue \<Rightarrow> error + formulaValue" where
  "evalAdd E rt left right =
     (if typeofJs left = ''string'' \<or> typeofJs right = ''string''
      then Inr (VString (jsString rt left @ jsString rt right))
      else
        (case numericOperands rt ''+'' left right of
           Inl e \<Rightarrow> Inl e
         | Inr (a, b) \<Rightarrow> Inr (VDecimal (decimalAdd (decimalUtils E) a b))))"

definition evalSubtract :: "Evaluator \<Rightarrow> runtime \<Rightarrow> formulaValue \<Rightarrow> formulaValue \<Rightarrow> error + formulaValue" where
  "evalSubtract E rt left right =
     (case numericOperands rt ''-'' left right of
        Inl e \<Rightarrow> Inl e
      | Inr (a, b) \<Rightarrow> Inr (VDecimal (decimalSubtract (decimalUtils E) a b)))"

definition evalMultiply :: "Evaluator \<Rightarrow> runtime \<Rightarrow> formulaValue \<Rightarrow> formulaValue \<Rightarrow> error + formulaValue" where
  "evalMultiply E rt left right =
     (case numericOperands rt ''*'' left right of
        Inl e \<Rightarrow> Inl e
      | Inr (a, b) \<Rightarrow> Inr (VDecimal (decimalMultiply (decimalUtils E) a b)))"

definition evalDivide :: "Evaluator \<Rightarrow> runtime \<Rightarrow> formulaValue \<Rightarrow> formulaValue \<Rightarrow> error + formulaValue" where
  "evalDivide E rt left right =
     (case numericOperands rt ''/'' left right of
        Inl e \<Rightarrow> Inl e
      | Inr (a, divisor) \<Rightarrow>
          (if isZero divisor then Inl DivisionByZeroError
           else (case decimalDivide (decimalUtils E) rt a divisor of
                   Inl e \<Rightarrow> Inl e
                 | Inr d \<Rightarrow> Inr (VDecimal d))))"

definition evalModulo :: "Evaluator \<Rightarrow> runtime \<Rightarrow> formulaValue \<Rightarrow> formulaValue \<Rightarrow> error + formulaValue" where
  "evalModulo E rt left right =
     (case numericOperands rt ''%'' left right of
        Inl e \<Rightarrow> Inl e
      | Inr (a, divisor) \<Rightarrow>
          (if isZero divisor then Inl DivisionByZeroError
           else (case decimalModulo rt a divisor of
                   Inl e \<Rightarrow> Inl e
                 | Inr d \<Rightarrow> Inr (VDecimal d))))"

definition evalPower :: "Evaluator \<Rightarrow> runtime \<Rightarrow> formulaValue \<Rightarrow> formulaValue \<Rightarrow> error + formulaValue" where
  "evalPower E rt left right =
     (case numericOperands rt ''^'' left right of
        Inl e \<Rightarrow> Inl e
      | Inr (a, b) \<Rightarrow>
          (case toNumber rt right of
             Inl e \<Rightarrow> Inl e
           | Inr n \<Rightarrow> Inr (VDecimal (decPow rt a n))))"

definition evalNegate :: "runtime \<Rightarrow> formulaValue \<Rightarrow> error + formulaValue" where
  "evalNegate rt v =
     (if \<not> isNumeric v then Inl (InvalidOperationError ''-'' [typeOf v])
      else (case toDecimal rt v of Inl e \<Rightarrow> Inl e | Inr d \<Rightarrow> Inr (VDecimal (negated d))))"

definition evalEquals :: "runtime \<Rightarrow> formulaValue \<Rightarrow> formulaValue \<Rightarrow> bool" where
  "evalEquals rt left right =
     (case (left, right) of
        (VDecimal a, VDecimal b) \<Rightarrow> decEquals a b
      | (VDecimal a, VNumber n) \<Rightarrow> decEquals a (decimalOfNumber rt n)
      | (VNumber n, VDecimal b) \<Rightarrow> decEquals (decimalOfNumber rt n) b
      | _ \<Rightarrow> strictEquals rt left right)"

text \<open>The four comparisons differ in the test on the sign of \<open>comparedTo\<close> and in the test
  on two strings.\<close>

definition evalCompare ::
  "runtime \<Rightarrow> string \<Rightarrow> (int \<Rightarrow> bool) \<Rightarrow> (string \<Rightarrow> string \<Rightarrow> bool) \<Rightarrow> formulaValue \<Rightarrow> formulaValue
   \<Rightarrow> error + formulaValue" where
  "evalCompare rt operator onSign onStrings left right =
     (if isNumeric left \<and> isNumeric right then
        (case numericOperands rt operator left right of
           Inl e \<Rightarrow> Inl e
         | Inr (a, b) \<Rightarrow> Inr (VBool (onSign (comparedTo a b))))
      else
        (case (left, right) of
           (VString x, VString y) \<Rightarrow> Inr (VBool (onStrings x y))
         | _ \<Rightarrow> Inl (InvalidOperationError operator [typeOf left, typeOf right])))"

definition evalLessThan :: "runtime \<Rightarrow> formulaValue \<Rightarrow> formulaValue \<Rightarrow> error + formulaValue" where
  "evalLessThan rt = evalCompare rt ''<'' (\<lambda>c. c < 0) stringLess"

definition evalGreaterThan :: "runtime \<Rightarrow> formulaValue \<Rightarrow> formulaValue \<Rightarrow> error + formulaValue" where
  "evalGreaterThan rt = evalCompare rt ''>'' (\<lambda>c. 0 < c) (\<lambda>x y. stringLess y x)"

definition evalLessThanOrEqual :: "runtime \<Rightarrow> formulaValue \<Rightarrow> formulaValue \<Rightarrow> error + formulaValue" where
  "evalLessThanOrEqual rt = evalCompare rt ''<='' (\<lambda>c. c \<le> 0) (\<lambda>x y. \<not> stringLess y x)"

definition evalGreaterThanOrEqual :: "runtime \<Rightarrow> formulaValue \<Rightarrow> formulaValue \<Rightarrow> error + formulaValue" where
  "evalGreaterThanOrEqual rt = evalCompare rt ''>='' (\<lambda>c. 0 \<le> c) (\<lambda>x y. \<not> stringLess x y)"

text \<open>The switch on the operator in \<open>evaluateBinaryOperation\<close>, after both operands have
  been evaluated.\<close>

definition binaryOperator ::
  "Evaluator \<Rightarrow> runtime \<Rightarrow> string \<Rightarrow> formulaValue \<Rightarrow> formulaValue \<Rightarrow> error + formulaValue" where
  "binaryOperator E rt operator left right =
     (if operator = ''+'' then evalAdd E rt left right
      else if operator = ''-'' then evalSubtract E rt left right
      else if operator = ''*'' then evalMultiply E rt left right
      else if operator = ''/'' then evalDivide E rt left right
      else if operator = ''%'' then evalModulo E rt left right
      else if operator = ''^'' then evalPower E rt left right
      else if operator = ''=='' then Inr (VBool (evalEquals rt left right))
      else if operator = ''!='' then Inr (VBool (\<not> evalEquals rt left right))
      else if operator = ''<'' then evalLessThan rt left right
      else if operator = ''>'' then evalGreaterThan rt left right
      else if operator = ''<='' then evalLessThanOrEqual rt left right
      else if operator = ''>='' then evalGreaterThanOrEqual rt left right
      else Inl (InvalidOperationError operator [typeOf left, typeOf right]))"

definition unaryOperator :: "runtime \<Rightarrow> string \<Rightarrow> formulaValue \<Rightarrow> error + formulaValue" where
  "unaryOperator rt operator operand =
     (if operator = ''-'' then evalNegate rt operand
      else if operator = ''!'' then Inr (VBool (\<not> toBool operand))
      else Inl (InvalidOperationError operator [typeOf operand]))"

text \<open>
  \<open>object[key]\<close> on a value whose \<open>typeof\<close> is \<open>object\<close>: an own property of a plain object,
  an element or the length of an array; for every other key, and on a \<open>Decimal\<close> or an
  object of the runtime, what the value itself and its prototype chain hold, and
  \<open>undefined\<close> when they hold nothing of that name.
\<close>

definition arrayIndexOfKey :: "string \<Rightarrow> nat option" where
  "arrayIndexOfKey key =
     (if key \<noteq> [] \<and> list_all isDigit key \<and> (key = ''0'' \<or> hd key \<noteq> CHR ''0'')
      then Some (digitsToNat key) else None)"

definition inheritedProperty :: "runtime \<Rightarrow> formulaValue \<Rightarrow> string \<Rightarrow> formulaValue" where
  "inheritedProperty rt object key =
     (case prototypeProperty rt object key of Some v \<Rightarrow> v | None \<Rightarrow> VUndefined)"

definition getProperty :: "runtime \<Rightarrow> formulaValue \<Rightarrow> string \<Rightarrow> formulaValue" where
  "getProperty rt object key =
     (case object of
        VObject ps \<Rightarrow>
          (case map_of ps key of Some v \<Rightarrow> v | None \<Rightarrow> inheritedProperty rt object key)
      | VArray xs \<Rightarrow>
          (if key = ''length'' then VNumber (Finite (of_nat (length xs)))
           else (case arrayIndexOfKey key of
                   Some i \<Rightarrow> (if i < length xs then xs ! i else inheritedProperty rt object key)
                 | None \<Rightarrow> inheritedProperty rt object key))
      | _ \<Rightarrow> inheritedProperty rt object key)"

text \<open>\<open>evaluateMemberAccess\<close> and \<open>evaluateIndexAccess\<close> after their operands have been
  evaluated.\<close>

definition memberAccess :: "Evaluator \<Rightarrow> runtime \<Rightarrow> formulaValue \<Rightarrow> string \<Rightarrow> error + formulaValue" where
  "memberAccess E rt object property =
     (if object = VNull \<or> object = VUndefined then
        (if strictMode E then Inl (PropertyAccessError property ''null'') else Inr VNull)
      else if typeofJs object \<noteq> ''object'' then Inl (PropertyAccessError property (typeofJs object))
      else Inr (maybeConvertToDecimal rt (getProperty rt object property)))"

text \<open>\<open>object[idx]\<close> on an array, for the number \<open>idx\<close> that has passed the range test.\<close>

definition arrayElement :: "formulaValue list \<Rightarrow> jsnumber \<Rightarrow> formulaValue" where
  "arrayElement xs idx =
     (case idx of
        Finite q \<Rightarrow>
          (if q < 0 \<or> of_nat (length xs) \<le> q then VNull
           else if q = of_int \<lfloor>q\<rfloor> then xs ! nat \<lfloor>q\<rfloor>
           else VUndefined)
      | NaN \<Rightarrow> VUndefined
      | PosInfinity \<Rightarrow> VNull
      | NegInfinity \<Rightarrow> VNull)"

definition indexAccess :: "Evaluator \<Rightarrow> runtime \<Rightarrow> formulaValue \<Rightarrow> formulaValue \<Rightarrow> error + formulaValue" where
  "indexAccess E rt object index =
     (if object = VNull \<or> object = VUndefined then
        (if strictMode E then Inl (IndexAccessError index ''null'') else Inr VNull)
      else
        (case object of
           VArray xs \<Rightarrow>
             (case toNumber rt index of
                Inl e \<Rightarrow> Inl e
              | Inr idx \<Rightarrow> Inr (maybeConvertToDecimal rt (arrayElement xs idx)))
         | _ \<Rightarrow>
             (if typeofJs object = ''object''
              then Inr (maybeConvertToDecimal rt (getProperty rt object (jsString rt index)))
              else Inl (IndexAccessError index (typeofJs object)))))"

text \<open>The context of one iteration of SUM, FILTER and MAP.\<close>

definition itemContext :: "EvaluationContext \<Rightarrow> formulaValue \<Rightarrow> EvaluationContext" where
  "itemContext context item =
     context\<lparr>extra := Some (mapSet (case extra context of Some ex \<Rightarrow> ex | None \<Rightarrow> [])
                              ''_currentItem'' item),
             variables := mapSet (variables context) ''it'' item\<rparr>"

subsection \<open>evaluateNode\<close>

text \<open>Sequencing: an error ends the evaluation, as the exception does.\<close>

definition andThen ::
  "(error + 'a) \<times> EvaluatorState \<Rightarrow> ('a \<Rightarrow> EvaluatorState \<Rightarrow> (error + 'b) \<times> EvaluatorState)
   \<Rightarrow> (error + 'b) \<times> EvaluatorState" where
  "andThen m k = (case m of (Inl e, st) \<Rightarrow> (Inl e, st) | (Inr v, st) \<Rightarrow> k v st)"

text \<open>\<open>evaluateNode(undefined, context)\<close>: the counter is incremented, then reading
  \<open>node.type\<close> raises.\<close>

definition evaluateUndefinedNode ::
  "Evaluator \<Rightarrow> EvaluatorState \<Rightarrow> (error + formulaValue) \<times> EvaluatorState" where
  "evaluateUndefinedNode E st = andThen (checkRecursionLimit E st) (\<lambda>u st1. (Inl JsTypeError, st1))"

definition sumStep :: "Evaluator \<Rightarrow> runtime \<Rightarrow> decimal \<Rightarrow> formulaValue \<Rightarrow> error + decimal" where
  "sumStep E rt summed v =
     (if isNumeric v
      then (case toDecimal rt v of
              Inl e \<Rightarrow> Inl e
            | Inr d \<Rightarrow> Inr (decimalAdd (decimalUtils E) summed d))
      else Inr summed)"

text \<open>
  \<open>evaluateNode\<close> checks the recursion limit and \<open>evaluateSwitch\<close> is its switch on the
  type of the node. \<open>evaluateNodes\<close> is \<open>nodes.map(n => this.evaluateNode(n, context))\<close>.
  \<open>sumLoop\<close>, \<open>filterLoop\<close> and \<open>mapLoop\<close> are the loops of evaluateSumWithExpression,
  evaluateFilter and evaluateMap over the items of the array; their argument \<open>rest\<close> is
  the list of the arguments after the first, whose head is \<open>args[1]\<close>.
\<close>

function evaluateNode ::
  "Evaluator \<Rightarrow> runtime \<Rightarrow> ASTNode \<Rightarrow> EvaluationContext \<Rightarrow> EvaluatorState
   \<Rightarrow> (error + formulaValue) \<times> EvaluatorState"
and evaluateSwitch ::
  "Evaluator \<Rightarrow> runtime \<Rightarrow> ASTNode \<Rightarrow> EvaluationContext \<Rightarrow> EvaluatorState
   \<Rightarrow> (error + formulaValue) \<times> EvaluatorState"
and evaluateNodes ::
  "Evaluator \<Rightarrow> runtime \<Rightarrow> ASTNode list \<Rightarrow> EvaluationContext \<Rightarrow> EvaluatorState
   \<Rightarrow> (error + formulaValue list) \<times> EvaluatorState"
and evaluateArg1 ::
  "Evaluator \<Rightarrow> runtime \<Rightarrow> ASTNode list \<Rightarrow> EvaluationContext \<Rightarrow> EvaluatorState
   \<Rightarrow> (error + formulaValue) \<times> EvaluatorState"
and sumLoop ::
  "Evaluator \<Rightarrow> runtime \<Rightarrow> ASTNode list \<Rightarrow> formulaValue list \<Rightarrow> EvaluationContext \<Rightarrow> decimal
   \<Rightarrow> EvaluatorState \<Rightarrow> (error + formulaValue) \<times> EvaluatorState"
and filterLoop ::
  "Evaluator \<Rightarrow> runtime \<Rightarrow> ASTNode list \<Rightarrow> formulaValue list \<Rightarrow> EvaluationContext
   \<Rightarrow> formulaValue list \<Rightarrow> EvaluatorState \<Rightarrow> (error + formulaValue) \<times> EvaluatorState"
and mapLoop ::
  "Evaluator \<Rightarrow> runtime \<Rightarrow> ASTNode list \<Rightarrow> formulaValue list \<Rightarrow> EvaluationContext
   \<Rightarrow> formulaValue list \<Rightarrow> EvaluatorState \<Rightarrow> (error + formulaValue) \<times> EvaluatorState"
where
  "evaluateNode E rt node context st =
     andThen (checkRecursionLimit E st) (\<lambda>u st1. evaluateSwitch E rt node context st1)"
| "evaluateSwitch E rt (DecimalLiteral v) context st =
     ((case decimalFromText v of Inl e \<Rightarrow> Inl e | Inr d \<Rightarrow> Inr (VDecimal d)), st)"
| "evaluateSwitch E rt (NumberLiteral n) context st = (Inr (VNumber n), st)"
| "evaluateSwitch E rt (StringLiteral s) context st = (Inr (VString s), st)"
| "evaluateSwitch E rt (BooleanLiteral b) context st = (Inr (VBool b), st)"
| "evaluateSwitch E rt NullLiteral context st = (Inr VNull, st)"
| "evaluateSwitch E rt (ArrayLiteral elements) context st =
     andThen (evaluateNodes E rt elements context st) (\<lambda>vs st1. (Inr (VArray vs), st1))"
| "evaluateSwitch E rt (ObjectLiteral properties) context st =
     (Inl (GeneralError ''Unknown node type: ObjectLiteral''), st)"
| "evaluateSwitch E rt (VariableReference prefix name) context st =
     evaluateVariable E rt prefix name context st"
| "evaluateSwitch E rt (BinaryOperation operator left right) context st =
     (if operator = ''&&'' then
        andThen (evaluateNode E rt left context st) (\<lambda>l st1.
          if \<not> toBool l then (Inr (VBool False), st1)
          else andThen (evaluateNode E rt right context st1) (\<lambda>r st2. (Inr (VBool (toBool r)), st2)))
      else if operator = ''||'' then
        andThen (evaluateNode E rt left context st) (\<lambda>l st1.
          if toBool l then (Inr (VBool True), st1)
          else andThen (evaluateNode E rt right context st1) (\<lambda>r st2. (Inr (VBool (toBool r)), st2)))
      else
        andThen (evaluateNode E rt left context st) (\<lambda>l st1.
          andThen (evaluateNode E rt right context st1) (\<lambda>r st2.
            (binaryOperator E rt operator l r, st2))))"
| "evaluateSwitch E rt (UnaryOperation operator operand) context st =
     andThen (evaluateNode E rt operand context st) (\<lambda>v st1. (unaryOperator rt operator v, st1))"
| "evaluateSwitch E rt (ConditionalExpression condition consequent alternate) context st =
     andThen (evaluateNode E rt condition context st) (\<lambda>c st1.
       if toBool c then evaluateNode E rt consequent context st1
       else evaluateNode E rt alternate context st1)"
| "evaluateSwitch E rt (FunctionCall name arguments) context st =
     (let fnName = toUpperCase name in
      case functionTable E fnName of
        None \<Rightarrow> (Inl (UndefinedFunctionError fnName), st)
      | Some fn \<Rightarrow>
          (if length arguments < minArgs fn
           then (Inl (ArgumentCountError fnName (minArgs fn) (maxArgs fn) (length arguments)), st)
           else if maxArgs fn \<noteq> - 1 \<and> maxArgs fn < int (length arguments)
           then (Inl (ArgumentCountError fnName (minArgs fn) (maxArgs fn) (length arguments)), st)
           else if (fnName = ''SUM'' \<and> length arguments = 2) \<or> fnName = ''FILTER'' \<or> fnName = ''MAP''
           then
             (case arguments of
                [] \<Rightarrow> evaluateUndefinedNode E st
              | arg0 # rest \<Rightarrow>
                  andThen (evaluateNode E rt arg0 context st) (\<lambda>array st1.
                    case array of
                      VArray items \<Rightarrow>
                        (if fnName = ''SUM'' then sumLoop E rt rest items context decimalZero st1
                         else if fnName = ''FILTER'' then filterLoop E rt rest items context [] st1
                         else mapLoop E rt rest items context [] st1)
                    | _ \<Rightarrow>
                        (Inl (GeneralError (fnName @ '' first argument must be an array'')), st1)))
           else
             andThen (evaluateNodes E rt arguments context st) (\<lambda>args st1.
               implementation fn args context st1)))"
| "evaluateSwitch E rt (MemberAccess object property) context st =
     andThen (evaluateNode E rt object context st) (\<lambda>v st1. (memberAccess E rt v property, st1))"
| "evaluateSwitch E rt (IndexAccess object index) context st =
     andThen (evaluateNode E rt object context st) (\<lambda>v st1.
       andThen (evaluateNode E rt index context st1) (\<lambda>i st2. (indexAccess E rt v i, st2)))"
| "evaluateNodes E rt [] context st = (Inr [], st)"
| "evaluateNodes E rt (node # rest) context st =
     andThen (evaluateNode E rt node context st) (\<lambda>v st1.
       andThen (evaluateNodes E rt rest context st1) (\<lambda>vs st2. (Inr (v # vs), st2)))"
| "evaluateArg1 E rt [] context st = evaluateUndefinedNode E st"
| "evaluateArg1 E rt (expression # others) context st = evaluateNode E rt expression context st"
| "sumLoop E rt rest [] context summed st = (Inr (VDecimal summed), st)"
| "sumLoop E rt rest (item # items) context summed st =
     andThen (checkIterationLimit E st) (\<lambda>u st1.
       andThen (evaluateArg1 E rt rest (itemContext context item) st1) (\<lambda>v st2.
         case sumStep E rt summed v of
           Inl e \<Rightarrow> (Inl e, st2)
         | Inr summed1 \<Rightarrow> sumLoop E rt rest items context summed1 st2))"
| "filterLoop E rt rest [] context acc st = (Inr (VArray acc), st)"
| "filterLoop E rt rest (item # items) context acc st =
     andThen (checkIterationLimit E st) (\<lambda>u st1.
       andThen (evaluateArg1 E rt rest (itemContext context item) st1) (\<lambda>keep st2.
         filterLoop E rt rest items context (if toBool keep then acc @ [item] else acc) st2))"
| "mapLoop E rt rest [] context acc st = (Inr (VArray acc), st)"
| "mapLoop E rt rest (item # items) context acc st =
     andThen (checkIterationLimit E st) (\<lambda>u st1.
       andThen (evaluateArg1 E rt rest (itemContext context item) st1) (\<lambda>v st2.
         mapLoop E rt rest items context (acc @ [v]) st2))"
  by pat_completeness auto

definition evaluateRank ::
  "((Evaluator \<times> runtime \<times> ASTNode \<times> EvaluationContext \<times> EvaluatorState) +
    (Evaluator \<times> runtime \<times> ASTNode \<times> EvaluationContext \<times> EvaluatorState) +
    (Evaluator \<times> runtime \<times> ASTNode list \<times> EvaluationContext \<times> EvaluatorState)) +
   ((Evaluator \<times> runtime \<times> ASTNode list \<times> EvaluationContext \<times> EvaluatorState) +
    (Evaluator \<times> runtime \<times> ASTNode list \<times> formulaValue list \<times> EvaluationContext \<times> decimal
       \<times> EvaluatorState)) +
   (Evaluator \<times> runtime \<times> ASTNode list \<times> formulaValue list \<times> EvaluationContext
      \<times> formulaValue list \<times> EvaluatorState) +
   (Evaluator \<times> runtime \<times> ASTNode list \<times> formulaValue list \<times> EvaluationContext
      \<times> formulaValue list \<times> EvaluatorState)
   \<Rightarrow> nat \<times> nat" where
  "evaluateRank x =
     (case x of
        Inl (Inl (E, rt, node, r)) \<Rightarrow> (2 * size node + 1, 0)
      | Inl (Inr (Inl (E, rt, node, r))) \<Rightarrow> (2 * size node, 0)
      | Inl (Inr (Inr (E, rt, ns, r))) \<Rightarrow> (2 * size_list size ns + 1, 0)
      | Inr (Inl (Inl (E, rt, rest, r))) \<Rightarrow> (2 * size_list size rest + 1, 0)
      | Inr (Inl (Inr (E, rt, rest, items, r))) \<Rightarrow> (2 * size_list size rest + 2, length items)
      | Inr (Inr (Inl (E, rt, rest, items, r))) \<Rightarrow> (2 * size_list size rest + 2, length items)
      | Inr (Inr (Inr (E, rt, rest, items, r))) \<Rightarrow> (2 * size_list size rest + 2, length items))"

termination evaluateNode
  apply (relation "inv_image (less_than <*lex*> less_than) evaluateRank")
  apply (intro wf_inv_image wf_lex_prod wf_less_than)
  apply (auto simp: evaluateRank_def)
  done

declare evaluateNode.simps [simp del]

subsection \<open>evaluate\<close>

text \<open>\<open>EvaluationResult\<close> without \<open>executionTimeMs\<close>, which reads the clock.\<close>

record EvaluationResult =
  resultValue :: formulaValue
  success :: bool
  resultError :: "error option"
  resultAccessedVariables :: "string list"

text \<open>
  \<open>Evaluator.evaluate\<close>. The three counters are fields of the evaluator: the function
  takes their state and returns the new one. \<open>None\<close> is the bound of the parser.
\<close>

definition evaluate ::
  "Evaluator \<Rightarrow> runtime \<Rightarrow> string \<Rightarrow> EvaluationContext \<Rightarrow> EvaluatorState
   \<Rightarrow> (EvaluationResult \<times> EvaluatorState) option" where
  "evaluate E rt expression context st =
     (let st0 = st\<lparr>accessedVariables := [], recursionDepth := 0, iterationCount := 0\<rparr> in
      case parse rt expression of
        None \<Rightarrow> None
      | Some (Inl e) \<Rightarrow>
          Some (\<lparr>resultValue = VNull, success = False, resultError = Some e,
                  resultAccessedVariables = accessedVariables st0\<rparr>, st0)
      | Some (Inr ast) \<Rightarrow>
          (case evaluateNode E rt ast context st0 of
             (Inr v, st1) \<Rightarrow>
               Some (\<lparr>resultValue = v, success = True, resultError = None,
                       resultAccessedVariables = accessedVariables st1\<rparr>, st1)
           | (Inl e, st1) \<Rightarrow>
               Some (\<lparr>resultValue = VNull, success = False, resultError = Some e,
                       resultAccessedVariables = accessedVariables st1\<rparr>, st1)))"

section \<open>Built-in functions (functions.ts): LOOKUP\<close>

text \<open>\<open>args[i]\<close>, which is \<open>undefined\<close> beyond the end of the array.\<close>

definition argAt :: "formulaValue list \<Rightarrow> nat \<Rightarrow> formulaValue" where
  "argAt args i = (if i < length args then args ! i else VUndefined)"

text \<open>The test of one criterion in the loop over \<open>Object.entries(criteriaObj)\<close>: \<open>True\<close>
  where the source continues, \<open>False\<close> where it sets \<open>match = false\<close>.\<close>

definition criterionHolds :: "runtime \<Rightarrow> formulaValue \<Rightarrow> formulaValue \<Rightarrow> bool" where
  "criterionHolds rt rowVal v =
     (case (rowVal, v) of
        (VDecimal a, VDecimal b) \<Rightarrow> decEquals a b
      | (VDecimal a, VNumber n) \<Rightarrow> strictEquals rt (VNumber (decToNumber rt a)) (VNumber n)
      | (VDecimal a, VString s) \<Rightarrow> decToString a = s
      | (VDecimal a, _) \<Rightarrow> False
      | (VNumber n, VDecimal b) \<Rightarrow> strictEquals rt (VNumber (decToNumber rt b)) (VNumber n)
      | (VString s, VDecimal b) \<Rightarrow> decToString b = s
      | (_, VDecimal b) \<Rightarrow> False
      | _ \<Rightarrow> strictEquals rt rowVal v)"

definition rowMatches :: "runtime \<Rightarrow> (string \<times> formulaValue) list \<Rightarrow> formulaValue \<Rightarrow> bool" where
  "rowMatches rt criteriaObj row =
     list_all (\<lambda>(key, v). criterionHolds rt (getProperty rt row key) v) criteriaObj"

text \<open>The loop over the rows of the table.\<close>

fun lookupScan ::
  "runtime \<Rightarrow> (string \<times> formulaValue) list \<Rightarrow> string \<Rightarrow> formulaValue list \<Rightarrow> formulaValue" where
  "lookupScan rt criteriaObj returnField [] = VNumber (Finite 0)"
| "lookupScan rt criteriaObj returnField (row # rows) =
     (if typeofJs row \<noteq> ''object'' \<or> row = VNull then lookupScan rt criteriaObj returnField rows
      else if rowMatches rt criteriaObj row then
        (if getProperty rt row returnField \<noteq> VUndefined then getProperty rt row returnField
         else VNumber (Finite 0))
      else lookupScan rt criteriaObj returnField rows)"

text \<open>
  The implementation of LOOKUP, which does not use the evaluator. A \<open>Decimal\<close> or an
  object of the runtime passed as criteria passes the type test of the source; its
  entries are those of \<open>Object.entries\<close>.
\<close>

definition lookupImplementation ::
  "runtime \<Rightarrow> formulaValue list \<Rightarrow> EvaluationContext \<Rightarrow> error + formulaValue" where
  "lookupImplementation rt args context =
     (let table = argAt args 0; criteria = argAt args 1; returnField = argAt args 2 in
      if table = VNull \<or> table = VUndefined then Inr (VNumber (Finite 0))
      else
        (case table of
           VArray rows \<Rightarrow>
             (if typeofJs criteria \<noteq> ''object'' \<or> criteria = VNull \<or> typeOf criteria = ''array''
              then Inl (TypeMismatchError ''object'' (typeofJs criteria) ''LOOKUP criteria'')
              else
                (case returnField of
                   VString field \<Rightarrow>
                     Inr (lookupScan rt
                            (case criteria of VObject ps \<Rightarrow> ps | _ \<Rightarrow> ownEntries rt criteria)
                            field rows)
                 | _ \<Rightarrow>
                     Inl (TypeMismatchError ''string'' (typeofJs returnField)
                            ''LOOKUP returnField'')))
         | _ \<Rightarrow> Inl (TypeMismatchError ''array'' (typeofJs table) ''LOOKUP'')))"

definition LOOKUP :: "runtime \<Rightarrow> FunctionDefinition" where
  "LOOKUP rt =
     \<lparr>minArgs = 3, maxArgs = 3,
      implementation = (\<lambda>args context st. (lookupImplementation rt args context, st))\<rparr>"

section \<open>Formula engine (formula-engine.ts)\<close>

datatype RoundingConfigMode = NONE | Rounding DecimalRoundingMode

record RoundingConfig =
  mode :: RoundingConfigMode
  roundingPrecision :: nat

datatype ErrorBehaviorType = THROW | NULL_VALUE | ZERO | DEFAULT | SKIP

record ErrorBehavior =
  behaviorType :: ErrorBehaviorType
  behaviorDefaultValue :: "formulaValue option"

record FormulaDefinition =
  formulaId :: string
  expression :: string
  dependencies :: "string list option"
  onError :: "ErrorBehavior option"
  defaultValue :: "formulaValue option"
  rounding :: "RoundingConfig option"

text \<open>The fields of \<open>FormulaEngineConfig\<close> that the engine reads, and the table of functions
  that the constructor builds from the built-in and the registered functions.\<close>

record FormulaEngineConfig =
  cfgStrictMode :: "bool option"
  cfgDecimal :: "DecimalConfig option"
  cfgSecurity :: "SecurityConfig option"
  defaultRounding :: "RoundingConfig option"

definition newEvaluator ::
  "FormulaEngineConfig \<Rightarrow> (string \<Rightarrow> FunctionDefinition option) \<Rightarrow> Evaluator" where
  "newEvaluator config fns =
     \<lparr>decimalUtils = newDecimalUtils (cfgDecimal config),
      functionTable = fns,
      strictMode = orElse (cfgStrictMode config) True,
      securityConfig =
        orElse (cfgSecurity config)
          \<lparr>maxExpressionLength = None, maxRecursionDepth = None, maxIterations = None\<rparr>\<rparr>"

subsection \<open>DependencyGraphBuilder\<close>

text \<open>The second loop of \<open>build\<close>: the edges of each formula.\<close>

fun buildEdges ::
  "runtime \<Rightarrow> string list \<Rightarrow> FormulaDefinition list \<Rightarrow> DependencyGraph
   \<Rightarrow> (error + DependencyGraph) option" where
  "buildEdges rt formulaIds [] graph = Some (Inr graph)"
| "buildEdges rt formulaIds (formula # rest) graph =
     (case (case dependencies formula of
              Some ds \<Rightarrow> Some (Inr (newSet ds))
            | None \<Rightarrow> extractDeps rt (expression formula)) of
        None \<Rightarrow> None
      | Some (Inl e) \<Rightarrow> Some (Inl e)
      | Some (Inr deps) \<Rightarrow>
          buildEdges rt formulaIds rest
            (foldl (\<lambda>g dep. if dep \<in> set formulaIds then addEdge g (formulaId formula) dep else g)
               graph deps))"

definition build :: "runtime \<Rightarrow> FormulaDefinition list \<Rightarrow> (error + DependencyGraph) option" where
  "build rt formulas =
     buildEdges rt (newSet (map formulaId formulas)) formulas
       (foldl addNode newDependencyGraph (map formulaId formulas))"

definition getEvaluationOrder :: "runtime \<Rightarrow> FormulaDefinition list \<Rightarrow> (error + string list) option" where
  "getEvaluationOrder rt formulas =
     (case build rt formulas of
        None \<Rightarrow> None
      | Some (Inl e) \<Rightarrow> Some (Inl e)
      | Some (Inr graph) \<Rightarrow> Some (topologicalSort graph))"

subsection \<open>Contexts in the store\<close>

text \<open>
  \<open>evaluateAll\<close> assigns to \<open>workingContext.variables[formulaId]\<close>, and whether the caller
  sees the assignment depends on whether the working context shares its \<open>variables\<close>
  object with the caller's context. So the objects \<open>variables\<close> and \<open>extra\<close> live in a
  store, and a context holds their references. The evaluator only reads a context; it is
  given the contents that the store has at the time of the call.
\<close>

record store =
  objects :: "nat \<Rightarrow> (string \<times> formulaValue) list"
  nextRef :: nat

record contextRef =
  variablesRef :: nat
  extraRef :: "nat option"

definition load :: "store \<Rightarrow> contextRef \<Rightarrow> EvaluationContext" where
  "load s c =
     \<lparr>variables = objects s (variablesRef c), extra = map_option (objects s) (extraRef c)\<rparr>"

text \<open>\<open>convertValue\<close>. A \<open>Decimal\<close> or an object of the runtime in the caller's context is
  an object to the source, which copies its entries; that case is not modelled and the
  value is kept.\<close>

fun convertValue :: "runtime \<Rightarrow> formulaValue \<Rightarrow> formulaValue" where
  "convertValue rt (VNumber n) =
     (case n of Finite q \<Rightarrow> VDecimal (decimalOfNumber rt n) | _ \<Rightarrow> VNumber n)"
| "convertValue rt (VArray xs) = VArray (map (convertValue rt) xs)"
| "convertValue rt (VObject ps) = VObject (map (\<lambda>p. (fst p, convertValue rt (snd p))) ps)"
| "convertValue rt v = v"

text \<open>\<open>normalizeContext\<close>: the spread \<open>{ ...context }\<close> makes a context with the same
  references; with \<open>autoConvertFloats\<close> the new context gets a new \<open>variables\<close> object.\<close>

definition normalizeContext ::
  "FormulaEngineConfig \<Rightarrow> runtime \<Rightarrow> contextRef \<Rightarrow> store \<Rightarrow> contextRef \<times> store" where
  "normalizeContext config rt context s =
     (let autoConvert =
            orElse (case cfgDecimal config of Some d \<Rightarrow> autoConvertFloats d | None \<Rightarrow> None) True
      in if \<not> autoConvert then (context, s)
         else
           (context\<lparr>variablesRef := nextRef s\<rparr>,
            s\<lparr>objects := (objects s)
                 (nextRef s := map (\<lambda>p. (fst p, convertValue rt (snd p)))
                                 (objects s (variablesRef context))),
              nextRef := nextRef s + 1\<rparr>))"

definition checkExpressionLength :: "FormulaEngineConfig \<Rightarrow> string \<Rightarrow> error + unit" where
  "checkExpressionLength config expr =
     (let maxLength =
            orElse (case cfgSecurity config of Some sc \<Rightarrow> maxExpressionLength sc | None \<Rightarrow> None)
              10000
      in if length expr > maxLength then Inl (MaxExpressionLengthError (length expr) maxLength)
         else Inr ())"

text \<open>\<open>FormulaEngine.evaluate\<close>; the error is the exception of \<open>checkExpressionLength\<close>.\<close>

definition engineEvaluate ::
  "FormulaEngineConfig \<Rightarrow> (string \<Rightarrow> FunctionDefinition option) \<Rightarrow> runtime \<Rightarrow> string
   \<Rightarrow> contextRef \<Rightarrow> store \<Rightarrow> EvaluatorState
   \<Rightarrow> ((error + EvaluationResult) \<times> store \<times> EvaluatorState) option" where
  "engineEvaluate config fns rt expr context s st =
     (case checkExpressionLength config expr of
        Inl e \<Rightarrow> Some (Inl e, s, st)
      | Inr u \<Rightarrow>
          (let (normalizedContext, s1) = normalizeContext config rt context s in
           case evaluate (newEvaluator config fns) rt expr (load s1 normalizedContext) st of
             None \<Rightarrow> None
           | Some (r, st1) \<Rightarrow> Some (Inr r, s1, st1)))"

subsection \<open>evaluateAll\<close>

record EvaluationResultSet =
  results :: "(string \<times> EvaluationResult) list"
  allSuccess :: bool
  errors :: "error list"
  evaluationOrder :: "string list"

definition applyRounding :: "DecimalUtilsConfig \<Rightarrow> decimal \<Rightarrow> RoundingConfig \<Rightarrow> decimal" where
  "applyRounding du v config =
     (case mode config of
        NONE \<Rightarrow> v
      | Rounding m \<Rightarrow> decimalRound du v (roundingPrecision config) (Some m))"

text \<open>\<open>a ?? b\<close> on an optional value: \<open>null\<close> and \<open>undefined\<close> give way to \<open>b\<close>.\<close>

definition nullish :: "formulaValue option \<Rightarrow> formulaValue \<Rightarrow> formulaValue" where
  "nullish a b = (case a of Some v \<Rightarrow> (if v = VNull \<or> v = VUndefined then b else v) | None \<Rightarrow> b)"

text \<open>\<open>handleError\<close> for a formula that has \<open>onError\<close>; \<open>Inl\<close> is the error thrown again.\<close>

definition handleError :: "FormulaDefinition \<Rightarrow> ErrorBehavior \<Rightarrow> error \<Rightarrow> error + formulaValue" where
  "handleError formula behavior err =
     (case behaviorType behavior of
        NULL_VALUE \<Rightarrow> Inr VNull
      | ZERO \<Rightarrow> Inr (VDecimal decimalZero)
      | DEFAULT \<Rightarrow> Inr (nullish (behaviorDefaultValue behavior) (nullish (defaultValue formula) VNull))
      | SKIP \<Rightarrow> Inr VUndefined
      | THROW \<Rightarrow> Inl err)"

definition isDecimal :: "formulaValue \<Rightarrow> bool" where
  "isDecimal v = (case v of VDecimal d \<Rightarrow> True | _ \<Rightarrow> False)"

text \<open>The value of a formula after rounding, from the first lines of the \<open>try\<close> block.\<close>

definition roundedValue :: "DecimalUtilsConfig \<Rightarrow> FormulaDefinition \<Rightarrow> formulaValue \<Rightarrow> formulaValue" where
  "roundedValue du formula v =
     (case (rounding formula, v) of
        (Some config, VDecimal d) \<Rightarrow> VDecimal (applyRounding du d config)
      | _ \<Rightarrow> v)"

record batchState =
  batchResults :: "(string \<times> EvaluationResult) list"
  batchErrors :: "error list"
  batchStore :: store
  batchEvaluator :: EvaluatorState

text \<open>
  The loop of \<open>evaluateAll\<close> over the evaluation order. \<open>Evaluator.evaluate\<close> catches every
  error, so the \<open>try\<close> block can only be left by \<open>handleError\<close> throwing the error again;
  the \<open>catch\<close> block then calls \<open>handleError\<close> a second time, which throws out of
  \<open>evaluateAll\<close>: that is the result \<open>Inl\<close>.
\<close>

fun evaluateAllLoop ::
  "Evaluator \<Rightarrow> runtime \<Rightarrow> (string \<times> FormulaDefinition) list \<Rightarrow> contextRef \<Rightarrow> string list
   \<Rightarrow> batchState \<Rightarrow> (error + batchState) option" where
  "evaluateAllLoop E rt formulaMap workingContext [] b = Some (Inr b)"
| "evaluateAllLoop E rt formulaMap workingContext (ident # rest) b =
     (case map_of formulaMap ident of
        None \<Rightarrow> evaluateAllLoop E rt formulaMap workingContext rest b
      | Some formula \<Rightarrow>
          (case evaluate E rt (expression formula) (load (batchStore b) workingContext)
                  (batchEvaluator b) of
             None \<Rightarrow> None
           | Some (r, st1) \<Rightarrow>
               (case (case (success r, onError formula, resultError r) of
                        (False, Some behavior, Some err) \<Rightarrow> handleError formula behavior err
                      | _ \<Rightarrow> Inr (roundedValue (decimalUtils E) formula (resultValue r))) of
                  Inl err \<Rightarrow> Some (Inl err)
                | Inr v \<Rightarrow>
                    evaluateAllLoop E rt formulaMap workingContext rest
                      \<lparr>batchResults = mapSet (batchResults b) ident (r\<lparr>resultValue := v\<rparr>),
                       batchErrors =
                         (case resultError r of
                            Some err \<Rightarrow> (if success r then batchErrors b else batchErrors b @ [err])
                          | None \<Rightarrow> batchErrors b),
                       batchStore =
                         (batchStore b)\<lparr>objects := (objects (batchStore b))
                            (variablesRef workingContext :=
                               mapSet (objects (batchStore b) (variablesRef workingContext)) ident v)\<rparr>,
                       batchEvaluator = st1\<rparr>)))"

text \<open>\<open>formulaMap\<close>: the last definition of an id replaces the earlier ones.\<close>

definition formulaMapOf :: "FormulaDefinition list \<Rightarrow> (string \<times> FormulaDefinition) list" where
  "formulaMapOf formulas = foldl (\<lambda>m f. mapSet m (formulaId f) f) [] formulas"

definition evaluateAll ::
  "FormulaEngineConfig \<Rightarrow> (string \<Rightarrow> FunctionDefinition option) \<Rightarrow> runtime
   \<Rightarrow> FormulaDefinition list \<Rightarrow> contextRef \<Rightarrow> store \<Rightarrow> EvaluatorState
   \<Rightarrow> ((error + EvaluationResultSet) \<times> store \<times> EvaluatorState) option" where
  "evaluateAll config fns rt formulas context s st =
     (case getEvaluationOrder rt formulas of
        None \<Rightarrow> None
      | Some (Inl e) \<Rightarrow>
          Some (Inr \<lparr>results = [], allSuccess = False, errors = [e], evaluationOrder = []\<rparr>, s, st)
      | Some (Inr order) \<Rightarrow>
          (let (workingContext, s1) = normalizeContext config rt context s in
           case evaluateAllLoop (newEvaluator config fns) rt (formulaMapOf formulas) workingContext
                  order
                  \<lparr>batchResults = [], batchErrors = [], batchStore = s1, batchEvaluator = st\<rparr> of
             None \<Rightarrow> None
           | Some (Inl err) \<Rightarrow> Some (Inl err, s1, st)
           | Some (Inr b) \<Rightarrow>
               Some (Inr \<lparr>results = batchResults b, allSuccess = (batchErrors b = []),
                          errors = batchErrors b, evaluationOrder = order\<rparr>,
                     batchStore b, batchEvaluator b)))"

subsection \<open>validate\<close>

text \<open>The first loop of \<open>validate\<close>: one \<open>DuplicateFormulaError\<close> for every formula whose id
  has been seen before.\<close>

fun duplicateErrors :: "string list \<Rightarrow> FormulaDefinition list \<Rightarrow> error list" where
  "duplicateErrors ids [] = []"
| "duplicateErrors ids (formula # rest) =
     (if formulaId formula \<in> set ids then [DuplicateFormulaError (formulaId formula)] else []) @
     duplicateErrors (setAdd (formulaId formula) ids) rest"

section \<open>Evaluation of concrete expressions\<close>

text \<open>The equations that the simplifier uses to run the lexer, the parser and the decimal
  arithmetic on a given text.\<close>

lemmas lexer_eval = tokenize_def tokenizeLoop.simps skipWhitespace.simps advanceWhile.simps
  scanStringLoop.simps scanToken_def scanNumber_def scanFraction_def scanExponent_def scanSuffix_def
  scanIdentifier_def scanVariable_def scanContextVariable_def scanString_def addToken_def
  isAtEnd_def peek_def peekNext_def advance_def isDigit_def isAlpha_def isAlphaNumeric_def
  KEYWORDS_def toUpperCase_def unexpectedCharacter_def unescape_def Let_def

lemmas parser_eval = peekToken_def parserAtEnd_def advanceParser_def tokenText_def expect_def
  getTokenPrecedence_def getPrecedence_def getOperatorSymbol_def parseNumber_def parseString_def
  parseBoolean_def parseNull_def parseVariable_def parseContextVariable_def quoted_def
  bareIdentifierError_def prefixExpected_def isBinaryOperator_def
  PRECEDENCE_LOWEST_def PRECEDENCE_TERNARY_def PRECEDENCE_OR_def PRECEDENCE_AND_def
  PRECEDENCE_EQUALITY_def PRECEDENCE_COMPARISON_def PRECEDENCE_TERM_def PRECEDENCE_FACTOR_def
  PRECEDENCE_POWER_def PRECEDENCE_UNARY_def PRECEDENCE_CALL_def PRECEDENCE_MEMBER_def

lemmas decimal_eval = decimalFromText_def decimalOfText_def digitsToNat_def isDigit_def
  decimalAdd_def decimalSubtract_def decimalMultiply_def decPlus_def decMinus_def decTimes_def
  finalise_def countDigits.simps newDecimalUtils_def DEFAULT_CONFIG_def orElse_def Let_def

text \<open>The configuration of \<open>new FormulaEngine()\<close>.\<close>

definition defaultConfig :: FormulaEngineConfig where
  "defaultConfig =
     \<lparr>cfgStrictMode = None, cfgDecimal = None, cfgSecurity = None, defaultRounding = None\<rparr>"

lemma newEvaluator_default:
  "decimalUtils (newEvaluator defaultConfig fns) = DEFAULT_CONFIG"
  "orElse (maxRecursionDepth (securityConfig (newEvaluator defaultConfig fns))) 100 = 100"
  "strictMode (newEvaluator defaultConfig fns)"
  by (simp_all add: newEvaluator_def defaultConfig_def newDecimalUtils_def orElse_def)

lemma evalAdd_decimals:
  "evalAdd E rt (VDecimal a) (VDecimal b) = Inr (VDecimal (decimalAdd (decimalUtils E) a b))"
  by (simp add: evalAdd_def typeofJs_def numericOperands_def isNumeric_def toDecimal_def)

lemma evalSubtract_decimals:
  "evalSubtract E rt (VDecimal a) (VDecimal b) = Inr (VDecimal (decimalSubtract (decimalUtils E) a b))"
  by (simp add: evalSubtract_def numericOperands_def isNumeric_def toDecimal_def)

lemma evalMultiply_decimals:
  "evalMultiply E rt (VDecimal a) (VDecimal b) = Inr (VDecimal (decimalMultiply (decimalUtils E) a b))"
  by (simp add: evalMultiply_def numericOperands_def isNumeric_def toDecimal_def)

lemma evaluateNode_enter:
  assumes "recursionDepth st < orElse (maxRecursionDepth (securityConfig E)) 100"
  shows "evaluateNode E rt node context st =
           evaluateSwitch E rt node context (st\<lparr>recursionDepth := recursionDepth st + 1\<rparr>)"
  using assms by (simp add: evaluateNode.simps andThen_def checkRecursionLimit_def Let_def)

lemma evaluateNode_DecimalLiteral:
  assumes "recursionDepth st < orElse (maxRecursionDepth (securityConfig E)) 100"
    and "decimalFromText t = Inr d"
  shows "evaluateNode E rt (DecimalLiteral t) context st =
           (Inr (VDecimal d), st\<lparr>recursionDepth := recursionDepth st + 1\<rparr>)"
  using assms by (simp add: evaluateNode_enter)

lemma evaluateNode_arithmetic:
  assumes "recursionDepth st + 2 < orElse (maxRecursionDepth (securityConfig E)) 100"
    and "decimalFromText x = Inr a" and "decimalFromText y = Inr b"
    and "operator \<noteq> ''&&''" and "operator \<noteq> ''||''"
  shows "evaluateNode E rt (BinaryOperation operator (DecimalLiteral x) (DecimalLiteral y)) context st =
           (binaryOperator E rt operator (VDecimal a) (VDecimal b),
            st\<lparr>recursionDepth := recursionDepth st + 3\<rparr>)"
proof -
  let ?st1 = "st\<lparr>recursionDepth := recursionDepth st + 1\<rparr>"
  let ?st2 = "st\<lparr>recursionDepth := recursionDepth st + 2\<rparr>"
  have l: "evaluateNode E rt (DecimalLiteral x) context ?st1 = (Inr (VDecimal a), ?st2)"
    using assms(1,2) by (simp add: evaluateNode_DecimalLiteral)
  have r: "evaluateNode E rt (DecimalLiteral y) context ?st2 =
             (Inr (VDecimal b), st\<lparr>recursionDepth := recursionDepth st + 3\<rparr>)"
    using assms(1,3) by (simp add: evaluateNode_DecimalLiteral)
  have "evaluateNode E rt (BinaryOperation operator (DecimalLiteral x) (DecimalLiteral y)) context st =
          evaluateSwitch E rt (BinaryOperation operator (DecimalLiteral x) (DecimalLiteral y)) context ?st1"
    using assms(1) by (simp add: evaluateNode_enter)
  also have "\<dots> = (binaryOperator E rt operator (VDecimal a) (VDecimal b),
                    st\<lparr>recursionDepth := recursionDepth st + 3\<rparr>)"
    using assms(4,5) l r by (simp add: andThen_def)
  finally show ?thesis .
qed

lemma parse_sum: "parse rt ''0.1 + 0.2'' =
   Some (Inr (BinaryOperation ''+'' (DecimalLiteral ''0.1'') (DecimalLiteral ''0.2'')))"
  unfolding parse_def
  apply (simp add: lexer_eval)
  apply (simp add: parser_eval eval_nat_numeral)
  done

lemma parse_difference: "parse rt ''1000.10 - 1000.00'' =
   Some (Inr (BinaryOperation ''-'' (DecimalLiteral ''1000.10'') (DecimalLiteral ''1000.00'')))"
  unfolding parse_def
  apply (simp add: lexer_eval)
  apply (simp add: parser_eval eval_nat_numeral)
  done

lemma parse_product: "parse rt ''19.99 * 3'' =
   Some (Inr (BinaryOperation ''*'' (DecimalLiteral ''19.99'') (DecimalLiteral ''3'')))"
  unfolding parse_def
  apply (simp add: lexer_eval)
  apply (simp add: parser_eval eval_nat_numeral)
  done

lemma decimalFromText_examples:
  "decimalFromText ''0.1'' = Inr (Decimal 1 1)"
  "decimalFromText ''0.2'' = Inr (Decimal 2 1)"
  "decimalFromText ''1000.10'' = Inr (Decimal 10001 1)"
  "decimalFromText ''1000.00'' = Inr (Decimal 1000 0)"
  "decimalFromText ''19.99'' = Inr (Decimal 1999 2)"
  "decimalFromText ''3'' = Inr (Decimal 3 0)"
  "decimalFromText ''19.125'' = Inr (Decimal 19125 3)"
  "decimalFromText ''2'' = Inr (Decimal 2 0)"
  "decimalFromText ''1'' = Inr (Decimal 1 0)"
  by (simp_all add: decimal_eval)

lemma evaluate_sum:
  "map_option fst (engineEvaluate defaultConfig fns rt ''0.1 + 0.2'' c s st) =
   Some (Inr \<lparr>resultValue = VDecimal (Decimal 3 1), success = True, resultError = None,
               resultAccessedVariables = []\<rparr>)"
  apply (simp add: engineEvaluate_def checkExpressionLength_def normalizeContext_def
     evaluate_def parse_sum split_def Let_def
     evaluateNode_arithmetic [OF _ decimalFromText_examples(1) decimalFromText_examples(2)]
     newEvaluator_default binaryOperator_def evalAdd_decimals)
  apply (simp add: defaultConfig_def decimal_eval)
  done

lemma evaluate_difference:
  "map_option fst (engineEvaluate defaultConfig fns rt ''1000.10 - 1000.00'' c s st) =
   Some (Inr \<lparr>resultValue = VDecimal (Decimal 1 1), success = True, resultError = None,
               resultAccessedVariables = []\<rparr>)"
  apply (simp add: engineEvaluate_def checkExpressionLength_def normalizeContext_def
     evaluate_def parse_difference split_def Let_def
     evaluateNode_arithmetic [OF _ decimalFromText_examples(3) decimalFromText_examples(4)]
     newEvaluator_default binaryOperator_def evalSubtract_decimals)
  apply (simp add: defaultConfig_def decimal_eval)
  done

lemma evaluate_product:
  "map_option fst (engineEvaluate defaultConfig fns rt ''19.99 * 3'' c s st) =
   Some (Inr \<lparr>resultValue = VDecimal (Decimal 5997 2), success = True, resultError = None,
               resultAccessedVariables = []\<rparr>)"
  apply (simp add: engineEvaluate_def checkExpressionLength_def normalizeContext_def
     evaluate_def parse_product split_def Let_def
     evaluateNode_arithmetic [OF _ decimalFromText_examples(5) decimalFromText_examples(6)]
     newEvaluator_default binaryOperator_def evalMultiply_decimals)
  apply (simp add: defaultConfig_def decimal_eval)
  done

text \<open>
  C3. With the default configuration, \<open>evaluate\<close> succeeds on \<open>0.1 + 0.2\<close>,
  \<open>1000.10 - 1000.00\<close> and \<open>19.99 * 3\<close> with the Decimal values 0.3, 0.10 and 59.97:
  \<open>Decimal 3 1\<close> is 3/10, \<open>Decimal 1 1\<close> is 1/10, the number that 0.10 denotes, and
  \<open>Decimal 5997 2\<close> is 5997/100. This holds for every table of functions, every context
  and store, and whatever the binary conversions of the runtime do.
\<close>

theorem decimal_literal_arithmetic_exact:
  "map_option fst (engineEvaluate defaultConfig fns rt ''0.1 + 0.2'' c s st) =
     Some (Inr \<lparr>resultValue = VDecimal (Decimal 3 1), success = True, resultError = None,
                 resultAccessedVariables = []\<rparr>) \<and>
   map_option fst (engineEvaluate defaultConfig fns rt ''1000.10 - 1000.00'' c s st) =
     Some (Inr \<lparr>resultValue = VDecimal (Decimal 1 1), success = True, resultError = None,
                 resultAccessedVariables = []\<rparr>) \<and>
   map_option fst (engineEvaluate defaultConfig fns rt ''19.99 * 3'' c s st) =
     Some (Inr \<lparr>resultValue = VDecimal (Decimal 5997 2), success = True, resultError = None,
                 resultAccessedVariables = []\<rparr>)"
  using evaluate_sum [of fns rt c s st] evaluate_difference [of fns rt c s st]
    evaluate_product [of fns rt c s st]
  by (intro conjI)

text \<open>
  C5. The lexer has no case for a brace: on \<open>{}\<close> and on \<open>{ a: 1, b: 2 }\<close> the parser
  returns the syntax error "Unexpected character '{'" at position 0, line 1, column 1,
  and no AST.
\<close>

theorem object_literal_is_syntax_error:
  "parse rt ''{}'' = Some (Inl (SyntaxError (''Unexpected character '' @ quoted ''{'') 0 1 1)) \<and>
   parse rt ''{ a: 1, b: 2 }'' =
     Some (Inl (SyntaxError (''Unexpected character '' @ quoted ''{'') 0 1 1))"
  by (simp add: parse_def lexer_eval quoted_def)

lemma parse_and: "parse rt ''false && $undef'' =
   Some (Inr (BinaryOperation ''&&'' (BooleanLiteral False) (VariableReference Dollar ''undef'')))"
  unfolding parse_def
  apply (simp add: lexer_eval)
  apply (simp add: parser_eval eval_nat_numeral)
  done

lemma parse_or: "parse rt ''true || $undef'' =
   Some (Inr (BinaryOperation ''||'' (BooleanLiteral True) (VariableReference Dollar ''undef'')))"
  unfolding parse_def
  apply (simp add: lexer_eval)
  apply (simp add: parser_eval eval_nat_numeral)
  done

lemma parse_undef: "parse rt ''$undef'' = Some (Inr (VariableReference Dollar ''undef''))"
  unfolding parse_def
  apply (simp add: lexer_eval)
  apply (simp add: parser_eval eval_nat_numeral)
  done

lemma evaluateNode_short_circuit:
  assumes "recursionDepth st + 1 < orElse (maxRecursionDepth (securityConfig E)) 100"
  shows "evaluateNode E rt (BinaryOperation ''&&'' (BooleanLiteral False) right) context st =
           (Inr (VBool False), st\<lparr>recursionDepth := recursionDepth st + 2\<rparr>)"
    and "evaluateNode E rt (BinaryOperation ''||'' (BooleanLiteral True) right) context st =
           (Inr (VBool True), st\<lparr>recursionDepth := recursionDepth st + 2\<rparr>)"
  using assms by (simp_all add: evaluateNode_enter andThen_def toBool_def)

lemma evaluate_and:
  "map_option fst (engineEvaluate defaultConfig fns rt ''false && $undef'' c s st) =
   Some (Inr \<lparr>resultValue = VBool False, success = True, resultError = None,
               resultAccessedVariables = []\<rparr>)"
  by (simp add: engineEvaluate_def checkExpressionLength_def normalizeContext_def
     evaluate_def parse_and split_def Let_def evaluateNode_short_circuit newEvaluator_default)
    (simp add: defaultConfig_def orElse_def)

lemma evaluate_or:
  "map_option fst (engineEvaluate defaultConfig fns rt ''true || $undef'' c s st) =
   Some (Inr \<lparr>resultValue = VBool True, success = True, resultError = None,
               resultAccessedVariables = []\<rparr>)"
  by (simp add: engineEvaluate_def checkExpressionLength_def normalizeContext_def
     evaluate_def parse_or split_def Let_def evaluateNode_short_circuit newEvaluator_default)
    (simp add: defaultConfig_def orElse_def)

text \<open>
  C8. With the default configuration, which is strict, \<open>false && $undef\<close> evaluates to
  \<open>false\<close> and \<open>true || $undef\<close> to \<open>true\<close>, with no error, in every context and so
  also in those without the variable \<open>undef\<close>. The set of accessed variables of the
  result is empty: the right operand has not been evaluated.
\<close>

theorem logical_operators_short_circuit:
  "map_option fst (engineEvaluate defaultConfig fns rt ''false && $undef'' c s st) =
     Some (Inr \<lparr>resultValue = VBool False, success = True, resultError = None,
                 resultAccessedVariables = []\<rparr>) \<and>
   map_option fst (engineEvaluate defaultConfig fns rt ''true || $undef'' c s st) =
     Some (Inr \<lparr>resultValue = VBool True, success = True, resultError = None,
                 resultAccessedVariables = []\<rparr>)"
  using evaluate_and [of fns rt c s st] evaluate_or [of fns rt c s st]
  by (intro conjI)

section \<open>Batches\<close>

text \<open>A formula with an id and an expression only; a caller's context whose \<open>variables\<close>
  object is empty and lives at reference 0; an evaluator before its first call.\<close>

definition formulaOf :: "string \<Rightarrow> string \<Rightarrow> FormulaDefinition" where
  "formulaOf ident expr =
     \<lparr>formulaId = ident, expression = expr, dependencies = None, onError = None,
      defaultValue = None, rounding = None\<rparr>"

definition emptyStore :: store where
  "emptyStore = \<lparr>objects = (\<lambda>r. []), nextRef = 1\<rparr>"

definition callerContext :: contextRef where
  "callerContext = \<lparr>variablesRef = 0, extraRef = None\<rparr>"

definition freshEvaluator :: EvaluatorState where
  "freshEvaluator = \<lparr>recursionDepth = 0, iterationCount = 0, accessedVariables = []\<rparr>"

text \<open>The values of a batch: for every id, the value of its result.\<close>

definition batchValues ::
  "((error + EvaluationResultSet) \<times> store \<times> EvaluatorState) option
   \<Rightarrow> (error + (string \<times> formulaValue) list) option" where
  "batchValues r =
     map_option
       (\<lambda>x. map_sum id (\<lambda>rs. map (\<lambda>p. (fst p, resultValue (snd p))) (results rs)) (fst x)) r"

lemmas graph_eval = getEvaluationOrder_def build_def newSet_def setAdd_def extractDeps_def
  extractFromNode_def newDependencyGraph_def addNode_def addEdge_def mapHas_def getDependencies_def
  topologicalSort_def kahn_def kahnLoop.simps buildDependents_def buildInDegree_def
  addDependent_def initialQueue_def decreaseDegree_def dependentsOf_def Let_def

lemmas engine_eval = normalizeContext_def formulaMapOf_def load_def
  evaluate_def roundedValue_def newEvaluator_def newDecimalUtils_def orElse_def
  evaluateVariable_def contextProperty_def maybeConvertToDecimal_def setAdd_def applyRounding_def decimalRound_def
  toDecimalPlaces_def roundDiv_def

lemmas node_eval = evaluateNode.simps andThen_def checkRecursionLimit_def binaryOperator_def
  evalMultiply_decimals toBool_def

lemma parse_a: "parse rt ''19.125'' = Some (Inr (DecimalLiteral ''19.125''))"
  unfolding parse_def
  apply (simp add: lexer_eval)
  apply (simp add: parser_eval eval_nat_numeral)
  done

lemma parse_b: "parse rt ''$a * 2'' =
    Some (Inr (BinaryOperation ''*'' (VariableReference Dollar ''a'') (DecimalLiteral ''2'')))"
  unfolding parse_def
  apply (simp add: lexer_eval)
  apply (simp add: parser_eval eval_nat_numeral)
  done

lemma parse_1: "parse rt ''1'' = Some (Inr (DecimalLiteral ''1''))"
  unfolding parse_def
  apply (simp add: lexer_eval)
  apply (simp add: parser_eval eval_nat_numeral)
  done

lemma parse_2: "parse rt ''2'' = Some (Inr (DecimalLiteral ''2''))"
  unfolding parse_def
  apply (simp add: lexer_eval)
  apply (simp add: parser_eval eval_nat_numeral)
  done

lemma order_a_b:
  "getEvaluationOrder rt [f\<lparr>formulaId := ''a'', expression := ''19.125'', dependencies := None\<rparr>,
                          g\<lparr>formulaId := ''b'', expression := ''$a * 2'', dependencies := None\<rparr>] =
     Some (Inr [''a'', ''b''])"
  by (simp add: graph_eval parse_a parse_b)

lemma order_a_a:
  "getEvaluationOrder rt [formulaOf ''a'' ''1'', formulaOf ''a'' ''2''] = Some (Inr [''a''])"
  by (simp add: graph_eval formulaOf_def parse_1 parse_2)

lemma order_a:
  "getEvaluationOrder rt [formulaOf ''a'' ''1''] = Some (Inr [''a''])"
  by (simp add: graph_eval formulaOf_def parse_1)

text \<open>An engine with \<open>defaultRounding = { mode: 'HALF_UP', precision: 2 }\<close>.\<close>

definition roundingConfigured :: FormulaEngineConfig where
  "roundingConfigured =
     defaultConfig\<lparr>defaultRounding := Some \<lparr>mode = Rounding HALF_UP, roundingPrecision = 2\<rparr>\<rparr>"

text \<open>
  C4. \<open>evaluateAll\<close> does not read \<open>defaultRounding\<close>. On the two formulas of the claim, the
  engine with the default rounding HALF_UP to 2 places gives \<open>a\<close> the value 19.125 and
  \<open>b\<close> the value 38.25; it does not give 19.13 and 38.26.
\<close>

theorem default_rounding_not_applied:
  "batchValues (evaluateAll roundingConfigured fns rt
       [formulaOf ''a'' ''19.125'', formulaOf ''b'' ''$a * 2'']
       callerContext emptyStore freshEvaluator) =
     Some (Inr [(''a'', VDecimal (Decimal 19125 3)), (''b'', VDecimal (Decimal 3825 2))])"
  apply (simp add: batchValues_def evaluateAll_def formulaOf_def
      order_a_b [of _ "formulaOf ''a'' ''19.125''" "formulaOf ''b'' ''$a * 2''", unfolded formulaOf_def, simplified])
  apply (simp add: engine_eval roundingConfigured_def defaultConfig_def
      callerContext_def emptyStore_def freshEvaluator_def parse_a parse_b
      node_eval decimalFromText_examples)
  apply (simp add: decimal_eval)
  done

text \<open>The rounding of a formula's own \<open>rounding\<close> field is applied before the value is
  stored for the dependents: with it on \<open>a\<close>, the batch gives 19.13 and 38.26.\<close>

lemma formula_rounding_applied:
  "batchValues (evaluateAll defaultConfig fns rt
       [(formulaOf ''a'' ''19.125'')
          \<lparr>rounding := Some \<lparr>mode = Rounding HALF_UP, roundingPrecision = 2\<rparr>\<rparr>,
        formulaOf ''b'' ''$a * 2'']
       callerContext emptyStore freshEvaluator) =
     Some (Inr [(''a'', VDecimal (Decimal 1913 2)), (''b'', VDecimal (Decimal 3826 2))])"
  apply (simp add: batchValues_def evaluateAll_def formulaOf_def
      order_a_b [of _ "(formulaOf ''a'' ''19.125'')
          \<lparr>rounding := Some \<lparr>mode = Rounding HALF_UP, roundingPrecision = 2\<rparr>\<rparr>"
          "formulaOf ''b'' ''$a * 2''", unfolded formulaOf_def, simplified])
  apply (simp add: engine_eval defaultConfig_def
      callerContext_def emptyStore_def freshEvaluator_def parse_a parse_b
      node_eval decimalFromText_examples)
  apply (simp add: decimal_eval)
  done

text \<open>
  C7. \<open>evaluateAll\<close> does not look for duplicate ids. On two formulas with the id \<open>a\<close>,
  with the expressions \<open>1\<close> and \<open>2\<close>, it succeeds with no error, evaluates \<open>a\<close> once and
  gives it the value of the later definition.
\<close>

theorem duplicate_id_overwritten:
  "map_option fst (evaluateAll defaultConfig fns rt [formulaOf ''a'' ''1'', formulaOf ''a'' ''2'']
       callerContext emptyStore freshEvaluator) =
     Some (Inr \<lparr>results = [(''a'', \<lparr>resultValue = VDecimal (Decimal 2 0), success = True,
                                   resultError = None, resultAccessedVariables = []\<rparr>)],
                 allSuccess = True, errors = [], evaluationOrder = [''a'']\<rparr>)"
  apply (simp add: evaluateAll_def order_a_a)
  apply (simp add: engine_eval defaultConfig_def formulaOf_def
      callerContext_def emptyStore_def freshEvaluator_def parse_1 parse_2
      node_eval decimalFromText_examples)
  done

text \<open>\<open>validate\<close> reports the same list.\<close>

lemma validate_reports_duplicate:
  "duplicateErrors [] [formulaOf ''a'' ''1'', formulaOf ''a'' ''2''] = [DuplicateFormulaError ''a'']"
  by (simp add: formulaOf_def setAdd_def)

text \<open>An engine with \<open>decimal: { autoConvertFloats: false }\<close>.\<close>

definition withoutAutoConvert :: FormulaEngineConfig where
  "withoutAutoConvert =
     defaultConfig\<lparr>cfgDecimal := Some \<lparr>cfgPrecision = None, cfgRoundingMode = None,
                                       cfgDivisionScale = None, autoConvertFloats = Some False\<rparr>\<rparr>"

text \<open>
  C9. With \<open>autoConvertFloats\<close> disabled, the working context of \<open>evaluateAll\<close> shares the
  \<open>variables\<close> object of the caller: the caller's object is empty before the batch
  \<open>[a = 1]\<close> and holds \<open>a = 1\<close> after it.
\<close>

theorem caller_variables_mutated:
  "objects emptyStore (variablesRef callerContext) = [] \<and>
   map_option (\<lambda>x. objects (fst (snd x)) (variablesRef callerContext))
     (evaluateAll withoutAutoConvert fns rt [formulaOf ''a'' ''1'']
        callerContext emptyStore freshEvaluator) =
     Some [(''a'', VDecimal (Decimal 1 0))]"
  apply (simp add: evaluateAll_def order_a)
  apply (simp add: engine_eval withoutAutoConvert_def defaultConfig_def formulaOf_def
      callerContext_def emptyStore_def freshEvaluator_def parse_1
      node_eval decimalFromText_examples)
  done

text \<open>With the default configuration the working context gets an object of its own, and
  the caller's object is still empty after the same batch.\<close>

lemma caller_variables_kept_by_default:
  "map_option (\<lambda>x. objects (fst (snd x)) (variablesRef callerContext))
     (evaluateAll defaultConfig fns rt [formulaOf ''a'' ''1'']
        callerContext emptyStore freshEvaluator) =
     Some []"
  apply (simp add: evaluateAll_def order_a)
  apply (simp add: engine_eval defaultConfig_def formulaOf_def
      callerContext_def emptyStore_def freshEvaluator_def parse_1
      node_eval decimalFromText_examples)
  done

section \<open>LOOKUP without a match\<close>

text \<open>
  A runtime for closed examples. The examples do not reach a conversion between numbers,
  decimals and text, and those fields are constant functions. The examples read the
  properties of plain objects only, and \<open>prototypeProperty\<close> is the prototype of a plain
  object: the properties that ECMAScript gives \<open>Object.prototype\<close>, each a function but
  \<open>__proto__\<close>, which is \<open>Object.prototype\<close> itself.
\<close>

definition objectPrototypeNames :: "string list" where
  "objectPrototypeNames =
     [''constructor'', ''__defineGetter__'', ''__defineSetter__'', ''hasOwnProperty'',
      ''__lookupGetter__'', ''__lookupSetter__'', ''isPrototypeOf'', ''propertyIsEnumerable'',
      ''toString'', ''valueOf'', ''__proto__'', ''toLocaleString'']"

definition objectPrototype :: "formulaValue \<Rightarrow> string \<Rightarrow> formulaValue option" where
  "objectPrototype object key =
     (if key \<in> set objectPrototypeNames
      then Some (if key = ''__proto__'' then VHostObject 0
                 else VFunction (length (takeWhile (\<lambda>name. name \<noteq> key) objectPrototypeNames)))
      else None)"

definition sampleRuntime :: runtime where
  "sampleRuntime =
     \<lparr>parseFloat = (\<lambda>s. NaN), numberToString = (\<lambda>n. ''NaN''),
      decimalOfNumber = (\<lambda>n. Decimal 0 0), decToNumber = (\<lambda>d. NaN),
      decDividedBy = (\<lambda>a b. Decimal 0 0), decModulo = (\<lambda>a b. Decimal 0 0),
      decPow = (\<lambda>a n. Decimal 0 0), sameObject = (\<lambda>a b. False),
      prototypeProperty = objectPrototype, hostToString = (\<lambda>v. ''[object Object]''),
      ownEntries = (\<lambda>v. [])\<rparr>"

definition emptyContext :: EvaluationContext where
  "emptyContext = \<lparr>variables = [], extra = None\<rparr>"

text \<open>The table of scenario S3 of the specification, after the conversion of its numbers
  to decimals, and the two criteria objects.\<close>

definition taxTable :: formulaValue where
  "taxTable =
     VArray
       [VObject [(''region'', VString ''US''), (''category'', VString ''food''),
                 (''rate'', VDecimal (Decimal 2 2))],
        VObject [(''region'', VString ''EU''), (''category'', VString ''food''),
                 (''rate'', VDecimal (Decimal 1 1))]]"

definition criteriaJP :: "(string \<times> formulaValue) list" where
  "criteriaJP = [(''region'', VString ''JP''), (''category'', VString ''food'')]"

definition criteriaEU :: "(string \<times> formulaValue) list" where
  "criteriaEU = [(''region'', VString ''EU''), (''category'', VString ''food'')]"

text \<open>A row that the scan of LOOKUP passes over: not an object, or not matching.\<close>

definition passedOver :: "runtime \<Rightarrow> (string \<times> formulaValue) list \<Rightarrow> formulaValue \<Rightarrow> bool" where
  "passedOver rt criteriaObj row =
     (if typeofJs row \<noteq> ''object'' \<or> row = VNull then True else \<not> rowMatches rt criteriaObj row)"

lemma lookupScan_passedOver:
  "list_all (passedOver rt criteriaObj) rows \<Longrightarrow>
   lookupScan rt criteriaObj field (rows @ others) = lookupScan rt criteriaObj field others"
  by (induction rows) (auto simp: passedOver_def split: if_splits)

lemma lookupImplementation_array:
  "lookupImplementation rt [VArray rows, VObject criteriaObj, VString field] context =
     Inr (lookupScan rt criteriaObj field rows)"
  by (simp add: lookupImplementation_def argAt_def typeofJs_def typeOf_def)

lemmas lookup_eval = lookupImplementation_array rowMatches_def criterionHolds_def getProperty_def
  inheritedProperty_def strictEquals_def typeofJs_def passedOver_def sampleRuntime_def
  objectPrototype_def objectPrototypeNames_def

text \<open>
  C6, as the claim states it, fails: for the table of scenario S3 and the criteria with
  region JP, no row matches and LOOKUP returns the JavaScript number 0, which is not a
  Decimal.
\<close>

theorem lookup_no_match_is_not_decimal:
  "lookupImplementation sampleRuntime [taxTable, VObject criteriaJP, VString ''rate''] emptyContext =
     Inr (VNumber (Finite 0)) \<and>
   \<not> isDecimal (VNumber (Finite 0))"
  by (simp add: taxTable_def criteriaJP_def lookup_eval isDecimal_def)

text \<open>
  C6, amended. LOOKUP returns the JavaScript number 0, and raises no error,
  \<^item> when the table is Null, whatever the other two arguments are;
  \<^item> when the table is an array, the criteria are an object, the return field is a
    string, and the scan passes over every row;
  \<^item> when, under the same conditions on the arguments, the reading of the return field
    on the first row that the scan does not pass over gives \<open>undefined\<close>: the row has no
    property of that name, neither its own nor on its prototype chain.
\<close>

theorem lookup_no_match_returns_number_zero:
  "lookupImplementation rt [VNull, criteria, returnField] context = Inr (VNumber (Finite 0)) \<and>
   (list_all (passedOver rt criteriaObj) rows \<longrightarrow>
      lookupImplementation rt [VArray rows, VObject criteriaObj, VString field] context =
        Inr (VNumber (Finite 0))) \<and>
   (list_all (passedOver rt criteriaObj) rows \<and> \<not> passedOver rt criteriaObj row \<and>
    getProperty rt row field = VUndefined \<longrightarrow>
      lookupImplementation rt [VArray (rows @ row # others), VObject criteriaObj, VString field]
          context =
        Inr (VNumber (Finite 0)))"
proof (intro conjI impI)
  show "lookupImplementation rt [VNull, criteria, returnField] context = Inr (VNumber (Finite 0))"
    by (simp add: lookupImplementation_def argAt_def)
next
  assume "list_all (passedOver rt criteriaObj) rows"
  from lookupScan_passedOver [OF this, of field "[]"]
  show "lookupImplementation rt [VArray rows, VObject criteriaObj, VString field] context =
          Inr (VNumber (Finite 0))"
    by (simp add: lookupImplementation_array)
next
  assume a: "list_all (passedOver rt criteriaObj) rows \<and> \<not> passedOver rt criteriaObj row \<and>
    getProperty rt row field = VUndefined"
  then have "lookupScan rt criteriaObj field (rows @ row # others) =
               lookupScan rt criteriaObj field (row # others)"
    by (simp add: lookupScan_passedOver)
  also from a have "\<dots> = VNumber (Finite 0)"
    by (auto simp: passedOver_def split: if_splits)
  finally show "lookupImplementation rt [VArray (rows @ row # others), VObject criteriaObj, VString field]
          context = Inr (VNumber (Finite 0))"
    by (simp add: lookupImplementation_array)
qed

text \<open>The rows of scenario S3 with the criteria of region JP, and the second row with
  the criteria of region EU and a return field that it does not have.\<close>

theorem lookup_no_match_returns_number_zero_witness:
  "passedOver sampleRuntime criteriaJP
     (VObject [(''region'', VString ''US''), (''category'', VString ''food''),
               (''rate'', VDecimal (Decimal 2 2))]) \<and>
   passedOver sampleRuntime criteriaJP
     (VObject [(''region'', VString ''EU''), (''category'', VString ''food''),
               (''rate'', VDecimal (Decimal 1 1))]) \<and>
   lookupImplementation sampleRuntime [taxTable, VObject criteriaJP, VString ''rate''] emptyContext =
     Inr (VNumber (Finite 0)) \<and>
   passedOver sampleRuntime criteriaEU
     (VObject [(''region'', VString ''US''), (''category'', VString ''food''),
               (''rate'', VDecimal (Decimal 2 2))]) \<and>
   \<not> passedOver sampleRuntime criteriaEU
     (VObject [(''region'', VString ''EU''), (''category'', VString ''food''),
               (''rate'', VDecimal (Decimal 1 1))]) \<and>
   lookupImplementation sampleRuntime [taxTable, VObject criteriaEU, VString ''tax''] emptyContext =
     Inr (VNumber (Finite 0)) \<and>
   lookupImplementation sampleRuntime [VNull, VObject criteriaEU, VString ''rate''] emptyContext =
     Inr (VNumber (Finite 0))"
proof -
  let ?us = "VObject [(''region'', VString ''US''), (''category'', VString ''food''),
               (''rate'', VDecimal (Decimal 2 2))]"
  let ?eu = "VObject [(''region'', VString ''EU''), (''category'', VString ''food''),
               (''rate'', VDecimal (Decimal 1 1))]"
  have p1: "passedOver sampleRuntime criteriaJP ?us" "passedOver sampleRuntime criteriaJP ?eu"
    by (simp_all add: criteriaJP_def lookup_eval)
  have p2: "passedOver sampleRuntime criteriaEU ?us" "\<not> passedOver sampleRuntime criteriaEU ?eu"
    by (simp_all add: criteriaEU_def lookup_eval)
  have u: "getProperty sampleRuntime ?eu ''tax'' = VUndefined"
    by (simp add: lookup_eval)
  note t = lookup_no_match_returns_number_zero
  from p1 t [of sampleRuntime "VObject criteriaEU" "VString ''rate''" emptyContext criteriaJP
      "[?us, ?eu]" "''rate''"]
  have a: "lookupImplementation sampleRuntime [taxTable, VObject criteriaJP, VString ''rate'']
             emptyContext = Inr (VNumber (Finite 0))"
    by (simp add: taxTable_def)
  from p2 u t [of sampleRuntime "VObject criteriaEU" "VString ''rate''" emptyContext criteriaEU
      "[?us]" "''tax''" ?eu "[]"]
  have b: "lookupImplementation sampleRuntime [taxTable, VObject criteriaEU, VString ''tax'']
             emptyContext = Inr (VNumber (Finite 0))"
    by (simp add: taxTable_def)
  from t [of sampleRuntime "VObject criteriaEU" "VString ''rate''" emptyContext]
  have c: "lookupImplementation sampleRuntime [VNull, VObject criteriaEU, VString ''rate'']
             emptyContext = Inr (VNumber (Finite 0))"
    by simp
  from p1 p2 a b c show ?thesis by simp
qed

text \<open>For the same table the criteria of region EU find the rate 0.10, a Decimal.\<close>

lemma lookup_match_example:
  "lookupImplementation sampleRuntime [taxTable, VObject criteriaEU, VString ''rate''] emptyContext =
     Inr (VDecimal (Decimal 1 1))"
  by (simp add: taxTable_def criteriaEU_def lookup_eval)

text \<open>A return field that the row does not have but inherits, \<open>constructor\<close>, is found on
  the prototype: LOOKUP returns the function, not 0.\<close>

lemma lookup_inherited_field_example:
  "lookupImplementation sampleRuntime
     [VArray [VObject [(''region'', VString ''EU'')]], VObject [(''region'', VString ''EU'')],
      VString ''constructor''] emptyContext =
     Inr (VFunction 0)"
  by (simp add: lookup_eval)

section \<open>The recursion counter\<close>


subsection \<open>The node visits of a run\<close>

text \<open>The visits of what follows a first part of a run, if the first part returns: none
  if it raises.\<close>

definition thenVisits ::
  "(error + 'a) \<times> EvaluatorState \<Rightarrow> ('a \<Rightarrow> EvaluatorState \<Rightarrow> nat) \<Rightarrow> nat" where
  "thenVisits m k = (case m of (Inl e, st) \<Rightarrow> 0 | (Inr v, st) \<Rightarrow> k v st)"

text \<open>
  The number of node visits of a run, counted on the source: the calls of \<open>evaluateNode\<close>
  that the run of a method makes, up to its return or to the exception that ends it.
  \<open>visitsNode\<close> counts the call itself and, if the limit check passes, the calls of the
  method that the switch selects. A binary operation visits its left operand and then,
  unless a logical operator gives its result after the left operand, the right one; a
  conditional visits the condition and one branch; a call visits its arguments, and
  SUM with two arguments, FILTER and MAP visit the array and then, for every item, the
  expression \<open>args[1]\<close>. \<open>evaluateNode(undefined, context)\<close>, for an argument that is not
  there, is a call and counts as one.
\<close>

function visitsNode ::
  "Evaluator \<Rightarrow> runtime \<Rightarrow> ASTNode \<Rightarrow> EvaluationContext \<Rightarrow> EvaluatorState \<Rightarrow> nat"
and visitsSwitch ::
  "Evaluator \<Rightarrow> runtime \<Rightarrow> ASTNode \<Rightarrow> EvaluationContext \<Rightarrow> EvaluatorState \<Rightarrow> nat"
and visitsNodes ::
  "Evaluator \<Rightarrow> runtime \<Rightarrow> ASTNode list \<Rightarrow> EvaluationContext \<Rightarrow> EvaluatorState \<Rightarrow> nat"
and visitsArg1 ::
  "Evaluator \<Rightarrow> runtime \<Rightarrow> ASTNode list \<Rightarrow> EvaluationContext \<Rightarrow> EvaluatorState \<Rightarrow> nat"
and visitsSum ::
  "Evaluator \<Rightarrow> runtime \<Rightarrow> ASTNode list \<Rightarrow> formulaValue list \<Rightarrow> EvaluationContext \<Rightarrow> decimal
   \<Rightarrow> EvaluatorState \<Rightarrow> nat"
and visitsFilter ::
  "Evaluator \<Rightarrow> runtime \<Rightarrow> ASTNode list \<Rightarrow> formulaValue list \<Rightarrow> EvaluationContext
   \<Rightarrow> EvaluatorState \<Rightarrow> nat"
and visitsMap ::
  "Evaluator \<Rightarrow> runtime \<Rightarrow> ASTNode list \<Rightarrow> formulaValue list \<Rightarrow> EvaluationContext
   \<Rightarrow> EvaluatorState \<Rightarrow> nat"
where
  "visitsNode E rt node context st =
     1 + thenVisits (checkRecursionLimit E st) (\<lambda>u st1. visitsSwitch E rt node context st1)"
| "visitsSwitch E rt (DecimalLiteral v) context st = 0"
| "visitsSwitch E rt (NumberLiteral n) context st = 0"
| "visitsSwitch E rt (StringLiteral s) context st = 0"
| "visitsSwitch E rt (BooleanLiteral b) context st = 0"
| "visitsSwitch E rt NullLiteral context st = 0"
| "visitsSwitch E rt (ArrayLiteral elements) context st = visitsNodes E rt elements context st"
| "visitsSwitch E rt (ObjectLiteral properties) context st = 0"
| "visitsSwitch E rt (VariableReference prefix name) context st = 0"
| "visitsSwitch E rt (BinaryOperation operator left right) context st =
     visitsNode E rt left context st +
     thenVisits (evaluateNode E rt left context st) (\<lambda>l st1.
       if operator = ''&&'' then (if \<not> toBool l then 0 else visitsNode E rt right context st1)
       else if operator = ''||'' then (if toBool l then 0 else visitsNode E rt right context st1)
       else visitsNode E rt right context st1)"
| "visitsSwitch E rt (UnaryOperation operator operand) context st =
     visitsNode E rt operand context st"
| "visitsSwitch E rt (ConditionalExpression condition consequent alternate) context st =
     visitsNode E rt condition context st +
     thenVisits (evaluateNode E rt condition context st) (\<lambda>c st1.
       if toBool c then visitsNode E rt consequent context st1
       else visitsNode E rt alternate context st1)"
| "visitsSwitch E rt (FunctionCall name arguments) context st =
     (let fnName = toUpperCase name in
      case functionTable E fnName of
        None \<Rightarrow> 0
      | Some fn \<Rightarrow>
          (if length arguments < minArgs fn then 0
           else if maxArgs fn \<noteq> - 1 \<and> maxArgs fn < int (length arguments) then 0
           else if (fnName = ''SUM'' \<and> length arguments = 2) \<or> fnName = ''FILTER'' \<or> fnName = ''MAP''
           then
             (case arguments of
                [] \<Rightarrow> 1
              | arg0 # rest \<Rightarrow>
                  visitsNode E rt arg0 context st +
                  thenVisits (evaluateNode E rt arg0 context st) (\<lambda>array st1.
                    case array of
                      VArray items \<Rightarrow>
                        (if fnName = ''SUM'' then visitsSum E rt rest items context decimalZero st1
                         else if fnName = ''FILTER'' then visitsFilter E rt rest items context st1
                         else visitsMap E rt rest items context st1)
                    | _ \<Rightarrow> 0))
           else visitsNodes E rt arguments context st))"
| "visitsSwitch E rt (MemberAccess object property) context st =
     visitsNode E rt object context st"
| "visitsSwitch E rt (IndexAccess object index) context st =
     visitsNode E rt object context st +
     thenVisits (evaluateNode E rt object context st) (\<lambda>v st1. visitsNode E rt index context st1)"
| "visitsNodes E rt [] context st = 0"
| "visitsNodes E rt (node # rest) context st =
     visitsNode E rt node context st +
     thenVisits (evaluateNode E rt node context st) (\<lambda>v st1. visitsNodes E rt rest context st1)"
| "visitsArg1 E rt [] context st = 1"
| "visitsArg1 E rt (expr # others) context st = visitsNode E rt expr context st"
| "visitsSum E rt rest [] context summed st = 0"
| "visitsSum E rt rest (item # items) context summed st =
     thenVisits (checkIterationLimit E st) (\<lambda>u st1.
       visitsArg1 E rt rest (itemContext context item) st1 +
       thenVisits (evaluateArg1 E rt rest (itemContext context item) st1) (\<lambda>v st2.
         case sumStep E rt summed v of
           Inl e \<Rightarrow> 0
         | Inr summed1 \<Rightarrow> visitsSum E rt rest items context summed1 st2))"
| "visitsFilter E rt rest [] context st = 0"
| "visitsFilter E rt rest (item # items) context st =
     thenVisits (checkIterationLimit E st) (\<lambda>u st1.
       visitsArg1 E rt rest (itemContext context item) st1 +
       thenVisits (evaluateArg1 E rt rest (itemContext context item) st1) (\<lambda>keep st2.
         visitsFilter E rt rest items context st2))"
| "visitsMap E rt rest [] context st = 0"
| "visitsMap E rt rest (item # items) context st =
     thenVisits (checkIterationLimit E st) (\<lambda>u st1.
       visitsArg1 E rt rest (itemContext context item) st1 +
       thenVisits (evaluateArg1 E rt rest (itemContext context item) st1) (\<lambda>v st2.
         visitsMap E rt rest items context st2))"
  by pat_completeness auto

definition visitsRank ::
  "((Evaluator \<times> runtime \<times> ASTNode \<times> EvaluationContext \<times> EvaluatorState) +
    (Evaluator \<times> runtime \<times> ASTNode \<times> EvaluationContext \<times> EvaluatorState) +
    (Evaluator \<times> runtime \<times> ASTNode list \<times> EvaluationContext \<times> EvaluatorState)) +
   ((Evaluator \<times> runtime \<times> ASTNode list \<times> EvaluationContext \<times> EvaluatorState) +
    (Evaluator \<times> runtime \<times> ASTNode list \<times> formulaValue list \<times> EvaluationContext \<times> decimal
       \<times> EvaluatorState)) +
   (Evaluator \<times> runtime \<times> ASTNode list \<times> formulaValue list \<times> EvaluationContext
      \<times> EvaluatorState) +
   (Evaluator \<times> runtime \<times> ASTNode list \<times> formulaValue list \<times> EvaluationContext
      \<times> EvaluatorState)
   \<Rightarrow> nat \<times> nat" where
  "visitsRank x =
     (case x of
        Inl (Inl (E, rt, node, r)) \<Rightarrow> (2 * size node + 1, 0)
      | Inl (Inr (Inl (E, rt, node, r))) \<Rightarrow> (2 * size node, 0)
      | Inl (Inr (Inr (E, rt, ns, r))) \<Rightarrow> (2 * size_list size ns + 1, 0)
      | Inr (Inl (Inl (E, rt, rest, r))) \<Rightarrow> (2 * size_list size rest + 1, 0)
      | Inr (Inl (Inr (E, rt, rest, items, r))) \<Rightarrow> (2 * size_list size rest + 2, length items)
      | Inr (Inr (Inl (E, rt, rest, items, r))) \<Rightarrow> (2 * size_list size rest + 2, length items)
      | Inr (Inr (Inr (E, rt, rest, items, r))) \<Rightarrow> (2 * size_list size rest + 2, length items))"

termination visitsNode
  apply (relation "inv_image (less_than <*lex*> less_than) visitsRank")
  apply (intro wf_inv_image wf_lex_prod wf_less_than)
  apply (auto simp: visitsRank_def)
  done

declare visitsNode.simps [simp del]

subsection \<open>The counter counts the visits\<close>

text \<open>A result that is a MaxRecursionError.\<close>

definition raisesMaxRecursion :: "error + 'a \<Rightarrow> bool" where
  "raisesMaxRecursion r = (case r of Inl (MaxRecursionError n) \<Rightarrow> True | _ \<Rightarrow> False)"



lemma checkRecursionLimit_depth:
  "recursionDepth (snd (checkRecursionLimit E st)) = recursionDepth st + 1"
  by (simp add: checkRecursionLimit_def Let_def)

lemma checkIterationLimit_depth:
  "recursionDepth (snd (checkIterationLimit E st)) = recursionDepth st"
  by (simp add: checkIterationLimit_def Let_def)

lemma evaluateVariable_depth:
  "recursionDepth (snd (evaluateVariable E rt prefix name context st)) = recursionDepth st"
  by (simp add: evaluateVariable_def Let_def split: option.splits)

lemma evaluateUndefinedNode_depth:
  "recursionDepth (snd (evaluateUndefinedNode E st)) = recursionDepth st + 1"
  by (simp add: evaluateUndefinedNode_def andThen_def checkRecursionLimit_def Let_def)

lemmas depth_simps = andThen_def thenVisits_def Let_def checkRecursionLimit_depth
  checkIterationLimit_depth evaluateVariable_depth evaluateUndefinedNode_depth














subsection \<open>The error and the limit\<close>


lemma raisesMaxRecursion_Inr [simp]: "raisesMaxRecursion (Inr v) = False"
  by (simp add: raisesMaxRecursion_def)

lemma raisesMaxRecursion_Inl [simp]: "raisesMaxRecursion (Inl e) = (\<exists>n. e = MaxRecursionError n)"
  by (cases e) (simp_all add: raisesMaxRecursion_def)

lemma raisesMaxRecursion_case_sum [simp]:
  "raisesMaxRecursion (case m of Inl e \<Rightarrow> Inl e | Inr v \<Rightarrow> k v) =
     (raisesMaxRecursion m \<or> (\<exists>v. m = Inr v \<and> raisesMaxRecursion (k v)))"
  by (cases m) simp_all





lemma no_raise_decimalFromText [simp]: "\<not> raisesMaxRecursion (decimalFromText t)"
  by (simp add: decimalFromText_def split: option.splits)

lemma no_raise_toDecimal [simp]: "\<not> raisesMaxRecursion (toDecimal rt v)"
  by (simp add: toDecimal_def split: formulaValue.splits)

lemma no_raise_toNumber [simp]: "\<not> raisesMaxRecursion (toNumber rt v)"
  by (simp add: toNumber_def split: formulaValue.splits)

lemma no_raise_numericOperands [simp]: "\<not> raisesMaxRecursion (numericOperands rt operator l r)"
  by (simp add: numericOperands_def)

lemma no_raise_decimalDivide [simp]: "\<not> raisesMaxRecursion (decimalDivide du rt a b)"
  by (simp add: decimalDivide_def)

lemma no_raise_decimalModulo [simp]: "\<not> raisesMaxRecursion (decimalModulo rt a b)"
  by (simp add: decimalModulo_def)


lemma no_raise_evalCompare [simp]:
  "\<not> raisesMaxRecursion (evalCompare rt operator onSign onStrings l r)"
  by (simp add: evalCompare_def split: prod.splits formulaValue.splits)

lemma no_raise_binaryOperator [simp]: "\<not> raisesMaxRecursion (binaryOperator E rt operator l r)"
  by (simp add: binaryOperator_def evalAdd_def evalSubtract_def evalMultiply_def evalDivide_def
      evalModulo_def evalPower_def evalLessThan_def evalGreaterThan_def evalLessThanOrEqual_def
      evalGreaterThanOrEqual_def split: prod.splits)

lemma no_raise_unaryOperator [simp]: "\<not> raisesMaxRecursion (unaryOperator rt operator v)"
  by (simp add: unaryOperator_def evalNegate_def)

lemma no_raise_memberAccess [simp]: "\<not> raisesMaxRecursion (memberAccess E rt v p)"
  by (simp add: memberAccess_def)

lemma no_raise_indexAccess [simp]: "\<not> raisesMaxRecursion (indexAccess E rt v i)"
  by (simp add: indexAccess_def split: formulaValue.splits)

lemma no_raise_sumStep [simp]: "\<not> raisesMaxRecursion (sumStep E rt a v)"
  by (simp add: sumStep_def)

lemma sumStep_not_MaxRecursion [simp]: "sumStep E rt a v \<noteq> Inl (MaxRecursionError n)"
proof
  assume "sumStep E rt a v = Inl (MaxRecursionError n)"
  then have "raisesMaxRecursion (sumStep E rt a v)"
    by (simp only: raisesMaxRecursion_Inl) blast
  with no_raise_sumStep [of E rt a v] show False by blast
qed








subsection \<open>Consequences\<close>
















lemma no_raise_lookupImplementation [simp]:
  "\<not> raisesMaxRecursion (lookupImplementation rt args context)"
  by (simp add: lookupImplementation_def Let_def split: formulaValue.splits)

text \<open>MAP of functions.ts: the evaluator handles the call, and the implementation only
  raises.\<close>

definition MAP :: FunctionDefinition where
  "MAP =
     \<lparr>minArgs = 2, maxArgs = 2,
      implementation = (\<lambda>args context st. (Inl (GeneralError ''MAP must be handled by evaluator''), st))\<rparr>"

text \<open>An evaluator with \<open>security: { maxRecursionDepth: n }\<close> and the functions LOOKUP and
  MAP.\<close>

definition limitedEvaluator :: "nat \<Rightarrow> Evaluator" where
  "limitedEvaluator n =
     newEvaluator
       (defaultConfig\<lparr>cfgSecurity := Some \<lparr>maxExpressionLength = None, maxRecursionDepth = Some n,
                                               maxIterations = None\<rparr>\<rparr>)
       (\<lambda>name. if name = ''LOOKUP'' then Some (LOOKUP sampleRuntime)
               else if name = ''MAP'' then Some MAP else None)"





lemmas visits_eval = visitsNode.simps thenVisits_def evaluateNode.simps andThen_def
  checkRecursionLimit_def checkIterationLimit_def Let_def freshEvaluator_def orElse_def
  limitedEvaluator_def newEvaluator_def defaultConfig_def MAP_def toUpperCase_def







lemma run_map5:
  "evaluateNode (limitedEvaluator 5) sampleRuntime
     (FunctionCall ''MAP'' [ArrayLiteral [NumberLiteral (Finite 1), NumberLiteral (Finite 1)],
                            NumberLiteral (Finite 7)]) emptyContext freshEvaluator =
   (Inl (MaxRecursionError 5),
    freshEvaluator\<lparr>recursionDepth := 6, iterationCount := 2\<rparr>)"
  by (simp add: visits_eval)




section \<open>Correctness of topologicalSort\<close>

subsection \<open>Maps\<close>

lemma map_of_mapSet: "map_of (mapSet m k v) = (map_of m)(k \<mapsto> v)"
  by (induction m) (auto simp: fun_eq_iff)

lemma keys_mapSet: "fst ` set (mapSet m k v) = insert k (fst ` set m)"
  by (induction m) auto

lemma distinct_keys_mapSet: "distinct (map fst m) \<Longrightarrow> distinct (map fst (mapSet m k v))"
proof (induction m)
  case Nil
  then show ?case by simp
next
  case (Cons p m)
  then show ?case
    using keys_mapSet [of m k v] by (auto simp: image_iff)
qed

lemma map_of_distinct_keys:
  "distinct (map fst m) \<Longrightarrow> (map_of m k = Some v) = ((k, v) \<in> set m)"
  by (auto dest: map_of_SomeD)

lemma setAdd_set [simp]: "set (setAdd x xs) = insert x (set xs)"
  by (auto simp: setAdd_def)

lemma setAdd_distinct [simp]: "distinct xs \<Longrightarrow> distinct (setAdd x xs)"
  by (simp add: setAdd_def)

subsection \<open>Graphs that the class builds\<close>

text \<open>
  The invariant of the class: \<open>nodes\<close> is a set, \<open>edges\<close> is a map whose keys are the
  nodes, and the dependencies of a node are a set of nodes.
\<close>

definition wellFormed :: "DependencyGraph \<Rightarrow> bool" where
  "wellFormed g =
     (distinct (nodes g) \<and> distinct (map fst (edges g)) \<and>
      set (map fst (edges g)) = set (nodes g) \<and>
      list_all (\<lambda>entry. distinct (snd entry) \<and> set (snd entry) \<subseteq> set (nodes g)) (edges g))"

text \<open>\<open>a\<close> depends on \<open>b\<close>: the graph has the edge from \<open>a\<close> to \<open>b\<close>.\<close>

definition dependsOn :: "DependencyGraph \<Rightarrow> string \<Rightarrow> string \<Rightarrow> bool" where
  "dependsOn g a b = (b \<in> set (getDependencies g a))"

definition edgeRel :: "DependencyGraph \<Rightarrow> (string \<times> string) set" where
  "edgeRel g = {(a, b). dependsOn g a b}"

lemma wellFormed_entry:
  assumes "wellFormed g" and "(n, ds) \<in> set (edges g)"
  shows "distinct ds" and "set ds \<subseteq> set (nodes g)"
proof -
  from assms(1) have "\<forall>entry \<in> set (edges g). distinct (snd entry) \<and> set (snd entry) \<subseteq> set (nodes g)"
    by (simp add: wellFormed_def list_all_iff)
  from bspec [OF this assms(2)] show "distinct ds" and "set ds \<subseteq> set (nodes g)"
    by simp_all
qed

lemma wellFormed_new: "wellFormed newDependencyGraph"
  by (simp add: wellFormed_def newDependencyGraph_def)

lemma wellFormed_addNode:
  assumes "wellFormed g"
  shows "wellFormed (addNode g ident)"
proof (cases "ident \<in> set (nodes g)")
  case True
  with assms have "mapHas (edges g) ident"
    by (auto simp: wellFormed_def mapHas_def map_of_eq_None_iff)
  with True assms show ?thesis
    by (simp add: addNode_def setAdd_def)
next
  case False
  with assms have "\<not> mapHas (edges g) ident"
    by (auto simp: wellFormed_def mapHas_def map_of_eq_None_iff)
  moreover from False assms have "mapSet (edges g) ident [] = edges g @ [(ident, [])]"
  proof -
    have "k \<notin> fst ` set m \<Longrightarrow> mapSet m k v = m @ [(k, v)]" for m :: "(string \<times> string list) list" and k v
      by (induction m) auto
    with False assms show ?thesis by (simp add: wellFormed_def)
  qed
  ultimately show ?thesis
    using False assms by (auto simp: addNode_def wellFormed_def list_all_iff)
qed

lemma getDependencies_wellFormed:
  assumes "wellFormed g"
  shows "distinct (getDependencies g n)" and "set (getDependencies g n) \<subseteq> set (nodes g)"
proof -
  have "distinct (getDependencies g n) \<and> set (getDependencies g n) \<subseteq> set (nodes g)"
  proof (cases "map_of (edges g) n")
    case None
    then show ?thesis by (simp add: getDependencies_def)
  next
    case (Some ds)
    then have "(n, ds) \<in> set (edges g)" by (rule map_of_SomeD)
    from wellFormed_entry [OF assms this] Some show ?thesis
      by (simp add: getDependencies_def)
  qed
  then show "distinct (getDependencies g n)" and "set (getDependencies g n) \<subseteq> set (nodes g)"
    by simp_all
qed

lemma mapSet_entries: "set (mapSet m k v) \<subseteq> insert (k, v) (set m)"
  by (induction m) auto

lemma wellFormed_addEdge:
  assumes "wellFormed g"
  shows "wellFormed (addEdge g source target)"
proof -
  define g2 where "g2 = addNode (addNode g source) target"
  have w: "wellFormed g2"
    unfolding g2_def by (intro wellFormed_addNode assms)
  have src: "source \<in> set (nodes g2)" and tgt: "target \<in> set (nodes g2)"
    by (simp_all add: g2_def addNode_def)
  let ?ds = "setAdd target (getDependencies g2 source)"
  have "distinct ?ds" and "set ?ds \<subseteq> set (nodes g2)"
    using getDependencies_wellFormed [OF w, of source] tgt by simp_all
  moreover have "fst ` set (mapSet (edges g2) source ?ds) = set (nodes g2)"
    using w src by (auto simp: keys_mapSet wellFormed_def)
  moreover have "distinct (map fst (mapSet (edges g2) source ?ds))"
    using w by (intro distinct_keys_mapSet) (simp add: wellFormed_def)
  moreover have "distinct (snd entry) \<and> set (snd entry) \<subseteq> set (nodes g2)"
    if "entry \<in> set (mapSet (edges g2) source ?ds)" for entry
  proof (cases "entry = (source, ?ds)")
    case True
    with \<open>distinct ?ds\<close> \<open>set ?ds \<subseteq> set (nodes g2)\<close> show ?thesis by simp
  next
    case False
    with that mapSet_entries [of "edges g2" source ?ds] have "(fst entry, snd entry) \<in> set (edges g2)"
      by auto
    from wellFormed_entry [OF w this] show ?thesis by simp
  qed
  ultimately have "wellFormed (g2\<lparr>edges := mapSet (edges g2) source ?ds\<rparr>)"
    using w by (simp add: wellFormed_def list_all_iff)
  then show ?thesis
    by (simp add: addEdge_def g2_def Let_def)
qed

lemma dependsOn_nodes:
  assumes "wellFormed g" and "dependsOn g a b"
  shows "a \<in> set (nodes g)" and "b \<in> set (nodes g)"
proof -
  from assms(2) have "map_of (edges g) a \<noteq> None"
    by (cases "map_of (edges g) a") (simp_all add: dependsOn_def getDependencies_def)
  then have "a \<in> fst ` set (edges g)" by (simp add: map_of_eq_None_iff)
  with assms(1) show "a \<in> set (nodes g)" by (simp add: wellFormed_def)
  from assms getDependencies_wellFormed(2) [OF assms(1), of a] show "b \<in> set (nodes g)"
    by (auto simp: dependsOn_def)
qed

subsection \<open>The maps of topologicalSort\<close>

lemma map_of_zero_init:
  "map_of (foldl (\<lambda>m node. mapSet m node v) m0 ns) k =
     (if k \<in> set ns then Some v else map_of m0 k)"
  by (induction ns arbitrary: m0) (simp_all add: map_of_mapSet)

lemma distinct_keys_init:
  "distinct (map fst m0) \<Longrightarrow> distinct (map fst (foldl (\<lambda>m node. mapSet m node v) m0 ns))"
  by (induction ns arbitrary: m0) (simp_all add: distinct_keys_mapSet)

lemma map_of_degree_fold:
  "distinct (map fst es) \<Longrightarrow>
   map_of (foldl (\<lambda>m (node, deps). mapSet m node (f deps)) m1 es) k =
     (case map_of es k of Some deps \<Rightarrow> Some (f deps) | None \<Rightarrow> map_of m1 k)"
proof (induction es arbitrary: m1)
  case Nil
  then show ?case by simp
next
  case (Cons e es)
  obtain n d where e: "e = (n, d)" by (cases e)
  from Cons.prems e have "map_of es n = None"
    by (simp add: map_of_eq_None_iff)
  with Cons e show ?case
    by (auto simp: map_of_mapSet split: option.splits)
qed

lemma distinct_keys_degree_fold:
  "distinct (map fst m1) \<Longrightarrow>
   distinct (map fst (foldl (\<lambda>m (node, deps). mapSet m node (f deps)) m1 es))"
  by (induction es arbitrary: m1) (auto simp: distinct_keys_mapSet)

lemma buildInDegree_wellFormed:
  assumes "wellFormed g"
  shows "map_of (buildInDegree g) n =
           (if n \<in> set (nodes g) then Some (int (length (getDependencies g n))) else None)"
    and "distinct (map fst (buildInDegree g))"
proof -
  from assms have d: "distinct (map fst (edges g))" by (simp add: wellFormed_def)
  show "map_of (buildInDegree g) n =
           (if n \<in> set (nodes g) then Some (int (length (getDependencies g n))) else None)"
  proof (cases "map_of (edges g) n")
    case None
    with assms have "n \<notin> set (nodes g)"
      by (auto simp: wellFormed_def map_of_eq_None_iff)
    with None d show ?thesis
      by (simp add: buildInDegree_def map_of_degree_fold map_of_zero_init)
  next
    case (Some ds)
    then have m: "(n, ds) \<in> set (edges g)" by (rule map_of_SomeD)
    with assms have "n \<in> set (nodes g)" by (force simp: wellFormed_def)
    moreover from wellFormed_entry(2) [OF assms m]
    have "filter (\<lambda>d. d \<in> set (nodes g)) ds = ds" by (auto simp: filter_id_conv)
    ultimately show ?thesis
      using Some d by (simp add: buildInDegree_def map_of_degree_fold getDependencies_def)
  qed
  show "distinct (map fst (buildInDegree g))"
    unfolding buildInDegree_def
    by (intro distinct_keys_degree_fold distinct_keys_init) simp
qed

text \<open>The map \<open>m\<close> holds, for every node \<open>k\<close>, a set with the elements \<open>A k\<close>.\<close>

definition holdsSets :: "DependencyGraph \<Rightarrow> (string \<times> string list) list \<Rightarrow> (string \<Rightarrow> string set) \<Rightarrow> bool" where
  "holdsSets g m A =
     (\<forall>k. if k \<in> set (nodes g) then (\<exists>s. map_of m k = Some s \<and> distinct s \<and> set s = A k)
          else map_of m k = None)"

lemma holdsSets_node:
  assumes "holdsSets g m A" and "k \<in> set (nodes g)"
  shows "\<exists>s. map_of m k = Some s \<and> distinct s \<and> set s = A k"
proof -
  from assms(1) have "if k \<in> set (nodes g) then (\<exists>s. map_of m k = Some s \<and> distinct s \<and> set s = A k)
          else map_of m k = None"
    unfolding holdsSets_def by (rule spec)
  with assms(2) show ?thesis by simp
qed

lemma holdsSets_other:
  assumes "holdsSets g m A" and "k \<notin> set (nodes g)"
  shows "map_of m k = None"
proof -
  from assms(1) have "if k \<in> set (nodes g) then (\<exists>s. map_of m k = Some s \<and> distinct s \<and> set s = A k)
          else map_of m k = None"
    unfolding holdsSets_def by (rule spec)
  with assms(2) show ?thesis by simp
qed

lemma holdsSets_addDependent:
  assumes "holdsSets g m A"
  shows "holdsSets g (addDependent node m dep)
           (\<lambda>k. if k = dep then insert node (A k) else A k)"
proof (cases "dep \<in> set (nodes g)")
  case False
  from holdsSets_other [OF assms False] have "addDependent node m dep = m"
    by (simp add: addDependent_def)
  moreover have "holdsSets g m (\<lambda>k. if k = dep then insert node (A k) else A k)"
    unfolding holdsSets_def
  proof
    fix k
    show "if k \<in> set (nodes g)
         then \<exists>s. map_of m k = Some s \<and> distinct s \<and>
                  set s = (if k = dep then insert node (A k) else A k)
         else map_of m k = None"
    proof (cases "k \<in> set (nodes g)")
      case True
      with False have "k \<noteq> dep" by auto
      with True holdsSets_node [OF assms True] show ?thesis by auto
    next
      case k: False
      with holdsSets_other [OF assms k] show ?thesis by simp
    qed
  qed
  ultimately show ?thesis by simp
next
  case True
  from holdsSets_node [OF assms True] obtain s
    where s: "map_of m dep = Some s" "distinct s" "set s = A dep" by blast
  then have eq: "addDependent node m dep = mapSet m dep (setAdd node s)"
    by (simp add: addDependent_def)
  show ?thesis
    unfolding holdsSets_def eq
  proof
    fix k
    show "if k \<in> set (nodes g)
         then \<exists>t. map_of (mapSet m dep (setAdd node s)) k = Some t \<and> distinct t \<and>
                  set t = (if k = dep then insert node (A k) else A k)
         else map_of (mapSet m dep (setAdd node s)) k = None"
    proof (cases "k \<in> set (nodes g)")
      case k: True
      show ?thesis
      proof (cases "k = dep")
        case True
        with k s show ?thesis by (simp add: map_of_mapSet)
      next
        case False
        with k holdsSets_node [OF assms k] show ?thesis by (auto simp: map_of_mapSet)
      qed
    next
      case k: False
      with True have "k \<noteq> dep" by auto
      with k holdsSets_other [OF assms k] show ?thesis by (simp add: map_of_mapSet)
    qed
  qed
qed

lemma holdsSets_cong:
  assumes "holdsSets g m A" and "\<And>k. A k = B k"
  shows "holdsSets g m B"
proof -
  from assms(2) have "A = B" by (rule ext)
  with assms(1) show ?thesis by simp
qed

lemma holdsSets_addDependents:
  "holdsSets g m A \<Longrightarrow>
   holdsSets g (foldl (addDependent node) m deps)
     (\<lambda>k. if k \<in> set deps then insert node (A k) else A k)"
proof (induction deps arbitrary: m A)
  case Nil
  then show ?case by simp
next
  case (Cons dep deps)
  from Cons.IH [OF holdsSets_addDependent [OF Cons.prems, of node dep]]
  have "holdsSets g (foldl (addDependent node) m (dep # deps))
    (\<lambda>k. if k \<in> set deps
         then insert node (if k = dep then insert node (A k) else A k)
         else if k = dep then insert node (A k) else A k)"
    by simp
  then show ?case
    by (rule holdsSets_cong) simp
qed

lemma holdsSets_buildDependents_fold:
  "holdsSets g m A \<Longrightarrow>
   holdsSets g (foldl (\<lambda>m (node, deps). foldl (addDependent node) m deps) m es)
     (\<lambda>k. A k \<union> {a. \<exists>ds. (a, ds) \<in> set es \<and> k \<in> set ds})"
proof (induction es arbitrary: m A)
  case Nil
  then show ?case by simp
next
  case (Cons e es)
  obtain n d where e: "e = (n, d)" by (cases e)
  from Cons.IH [OF holdsSets_addDependents [OF Cons.prems, of n d]] e
  have "holdsSets g (foldl (\<lambda>m (node, deps). foldl (addDependent node) m deps) m (e # es))
     (\<lambda>k. (if k \<in> set d then insert n (A k) else A k) \<union>
          {a. \<exists>ds. (a, ds) \<in> set es \<and> k \<in> set ds})"
    by simp
  then show ?case
  proof (rule holdsSets_cong)
    fix k
    show "(if k \<in> set d then insert n (A k) else A k) \<union>
          {a. \<exists>ds. (a, ds) \<in> set es \<and> k \<in> set ds} =
          A k \<union> {a. \<exists>ds. (a, ds) \<in> set (e # es) \<and> k \<in> set ds}"
      using e by (cases "k \<in> set d") auto
  qed
qed

lemma holdsSets_init:
  "holdsSets g (foldl (\<lambda>m node. mapSet m node []) [] (nodes g)) (\<lambda>k. {})"
  by (simp add: holdsSets_def map_of_zero_init)

text \<open>The dependents of a node, as the map \<open>dependents\<close> holds them.\<close>

lemma dependentsOf_buildDependents:
  assumes "wellFormed g"
  shows "distinct (dependentsOf (buildDependents g) n)"
    and "set (dependentsOf (buildDependents g) n) =
           (if n \<in> set (nodes g) then {a. dependsOn g a n} else {})"
proof -
  let ?A = "\<lambda>k. {} \<union> {a. \<exists>ds. (a, ds) \<in> set (edges g) \<and> k \<in> set ds}"
  have h: "holdsSets g (buildDependents g) ?A"
    unfolding buildDependents_def
    by (intro holdsSets_buildDependents_fold holdsSets_init)
  from assms have d: "distinct (map fst (edges g))" by (simp add: wellFormed_def)
  have A: "?A k = {a. dependsOn g a k}" for k
  proof -
    have "(\<exists>ds. (a, ds) \<in> set (edges g) \<and> k \<in> set ds) = dependsOn g a k" for a
    proof (cases "map_of (edges g) a")
      case None
      then have "\<And>ds. (a, ds) \<notin> set (edges g)"
        using map_of_distinct_keys [OF d, of a] by simp
      with None show ?thesis by (simp add: dependsOn_def getDependencies_def)
    next
      case (Some ds)
      have "((a, ds') \<in> set (edges g)) = (ds' = ds)" for ds'
        using map_of_distinct_keys [OF d, of a ds'] Some by auto
      then have "\<And>ds'. ((a, ds') \<in> set (edges g)) = (ds' = ds)" .
      with Some show ?thesis by (simp add: dependsOn_def getDependencies_def)
    qed
    then show ?thesis by simp
  qed
  show "distinct (dependentsOf (buildDependents g) n)"
  proof (cases "n \<in> set (nodes g)")
    case True
    from holdsSets_node [OF h True] show ?thesis
      by (auto simp: dependentsOf_def)
  next
    case False
    from holdsSets_other [OF h False] show ?thesis by (simp add: dependentsOf_def)
  qed
  show "set (dependentsOf (buildDependents g) n) =
           (if n \<in> set (nodes g) then {a. dependsOn g a n} else {})"
  proof (cases "n \<in> set (nodes g)")
    case True
    from holdsSets_node [OF h True] obtain s
      where "map_of (buildDependents g) n = Some s" "set s = ?A n" by blast
    with True A [of n] show ?thesis by (simp add: dependentsOf_def)
  next
    case False
    from holdsSets_other [OF h False] False show ?thesis by (simp add: dependentsOf_def)
  qed
qed

subsection \<open>The inner loop\<close>

definition degreeOf :: "kahnState \<Rightarrow> string \<Rightarrow> int" where
  "degreeOf s n = (case map_of (inDegree s) n of Some d \<Rightarrow> d | None \<Rightarrow> 0)"

lemma decreaseDegree_inDegree:
  "map_of (inDegree (decreaseDegree s d)) = (map_of (inDegree s))(d \<mapsto> degreeOf s d - 1)"
  by (simp add: decreaseDegree_def Let_def map_of_mapSet degreeOf_def)

lemma decreaseDegree_queue_eq:
  "queue (decreaseDegree s d) =
     queue s @ (if degreeOf s d - 1 = 0 \<and> d \<notin> visited s then [d] else [])"
  by (simp add: decreaseDegree_def Let_def degreeOf_def)

lemma foldl_decreaseDegree:
  "distinct ds \<Longrightarrow>
   map_of (inDegree (foldl decreaseDegree s ds)) k =
     (if k \<in> set ds then Some (degreeOf s k - 1) else map_of (inDegree s) k) \<and>
   queue (foldl decreaseDegree s ds) =
     queue s @ filter (\<lambda>d. degreeOf s d - 1 = 0 \<and> d \<notin> visited s) ds"
proof (induction ds arbitrary: s)
  case Nil
  then show ?case by simp
next
  case (Cons d ds)
  let ?s = "decreaseDegree s d"
  from Cons.prems have d: "d \<notin> set ds" and ds: "distinct ds" by simp_all
  have deg: "degreeOf ?s x = degreeOf s x" if "x \<in> set ds" for x
    using that d by (auto simp: degreeOf_def decreaseDegree_inDegree)
  then have "filter (\<lambda>x. degreeOf ?s x - 1 = 0 \<and> x \<notin> visited ?s) ds =
      filter (\<lambda>x. degreeOf s x - 1 = 0 \<and> x \<notin> visited s) ds"
    by (intro filter_cong) simp_all
  with Cons.IH [OF ds, of ?s] deg d show ?case
    by (auto simp: decreaseDegree_inDegree decreaseDegree_queue_eq)
qed

subsection \<open>The invariant of the while loop\<close>

text \<open>The nodes of \<open>xs\<close> come after their dependencies.\<close>

definition depsBefore :: "DependencyGraph \<Rightarrow> string list \<Rightarrow> bool" where
  "depsBefore g xs = (\<forall>ys x zs. xs = ys @ x # zs \<longrightarrow> set (getDependencies g x) \<subseteq> set ys)"

lemma depsBefore_Nil [simp]: "depsBefore g []"
  by (simp add: depsBefore_def)

lemma depsBefore_snoc:
  "depsBefore g (xs @ [n]) = (depsBefore g xs \<and> set (getDependencies g n) \<subseteq> set xs)"
proof
  assume a: "depsBefore g (xs @ [n])"
  have "depsBefore g xs"
    unfolding depsBefore_def
  proof (intro allI impI)
    fix ys x zs
    assume "xs = ys @ x # zs"
    then have "xs @ [n] = ys @ x # (zs @ [n])" by simp
    with a show "set (getDependencies g x) \<subseteq> set ys"
      unfolding depsBefore_def by blast
  qed
  moreover from a have "set (getDependencies g n) \<subseteq> set xs"
    unfolding depsBefore_def by blast
  ultimately show "depsBefore g xs \<and> set (getDependencies g n) \<subseteq> set xs" by simp
next
  assume a: "depsBefore g xs \<and> set (getDependencies g n) \<subseteq> set xs"
  show "depsBefore g (xs @ [n])"
    unfolding depsBefore_def
  proof (intro allI impI)
    fix ys x zs
    assume e: "xs @ [n] = ys @ x # zs"
    show "set (getDependencies g x) \<subseteq> set ys"
    proof (cases zs rule: rev_cases)
      case Nil
      with e a show ?thesis by simp
    next
      case (snoc zs' z)
      with e have "xs = ys @ x # zs'" by simp
      with a show ?thesis unfolding depsBefore_def by blast
    qed
  qed
qed

definition kahnInv :: "DependencyGraph \<Rightarrow> kahnState \<Rightarrow> bool" where
  "kahnInv g s =
     (set (queue s) \<subseteq> set (nodes g) \<and> visited s \<subseteq> set (nodes g) \<and>
      distinct (result s) \<and> set (result s) = visited s \<and>
      (\<forall>n \<in> set (nodes g).
         map_of (inDegree s) n = Some (int (card (set (getDependencies g n) - visited s)))) \<and>
      (\<forall>n \<in> set (queue s). set (getDependencies g n) \<subseteq> visited s) \<and>
      (\<forall>n \<in> set (nodes g).
         set (getDependencies g n) \<subseteq> visited s \<longrightarrow> n \<in> visited s \<or> n \<in> set (queue s)) \<and>
      depsBefore g (result s))"

lemma kahnInv_initial:
  assumes "wellFormed g"
  shows "kahnInv g \<lparr>queue = initialQueue (buildInDegree g), inDegree = buildInDegree g,
                     result = [], visited = {}\<rparr>"
proof -
  note deg = buildInDegree_wellFormed [OF assms]
  have q: "(n \<in> set (initialQueue (buildInDegree g))) =
           (n \<in> set (nodes g) \<and> getDependencies g n = [])" for n
  proof -
    have "(n \<in> set (initialQueue (buildInDegree g))) = ((n, 0) \<in> set (buildInDegree g))"
      by (auto simp: initialQueue_def image_iff)
    also have "\<dots> = (map_of (buildInDegree g) n = Some 0)"
      by (simp add: map_of_distinct_keys [OF deg(2)])
    also have "\<dots> = (n \<in> set (nodes g) \<and> getDependencies g n = [])"
      by (simp add: deg(1))
    finally show ?thesis .
  qed
  have c: "int (length (getDependencies g n)) = int (card (set (getDependencies g n)))" for n
    using getDependencies_wellFormed(1) [OF assms, of n] by (simp add: distinct_card)
  show ?thesis
    unfolding kahnInv_def
    by (auto simp: q deg(1) c)
qed

lemma kahnInv_skip:
  assumes "kahnInv g s" and "queue s = node # rest" and "node \<in> visited s"
  shows "kahnInv g (s\<lparr>queue := rest\<rparr>)"
  using assms unfolding kahnInv_def by auto

lemma kahnInv_visit:
  assumes w: "wellFormed g" and inv: "kahnInv g s"
    and q: "queue s = node # rest" and nv: "node \<notin> visited s"
  shows "kahnInv g (foldl decreaseDegree
                     (s\<lparr>queue := rest, visited := insert node (visited s),
                        result := result s @ [node]\<rparr>)
                     (dependentsOf (buildDependents g) node))"
proof -
  define s1 where "s1 = s\<lparr>queue := rest, visited := insert node (visited s),
                        result := result s @ [node]\<rparr>"
  define ds where "ds = dependentsOf (buildDependents g) node"
  define s2 where "s2 = foldl decreaseDegree s1 ds"
  let ?N = "set (nodes g)"
  let ?V = "visited s"
  let ?deps = "\<lambda>n. set (getDependencies g n)"
  from inv q have node: "node \<in> ?N" by (auto simp: kahnInv_def)
  from inv q have ready: "?deps node \<subseteq> ?V" by (auto simp: kahnInv_def)
  from dependentsOf_buildDependents [OF w, of node] node
  have ds: "distinct ds" "set ds = {a. dependsOn g a node}" by (simp_all add: ds_def)
  have dsN: "set ds \<subseteq> ?N"
    using ds(2) dependsOn_nodes(1) [OF w] by auto
  have deg1: "degreeOf s1 n = int (card (?deps n - ?V))" if "n \<in> ?N" for n
    using inv that by (simp add: degreeOf_def s1_def kahnInv_def)
  have fin: "finite (?deps n)" for n by simp
  have dec: "int (card (?deps n - ?V)) - 1 = int (card (?deps n - insert node ?V))"
    if "n \<in> set ds" for n
  proof -
    from that ds(2) have "node \<in> ?deps n - ?V" using nv by (simp add: dependsOn_def)
    then have "card (?deps n - ?V - {node}) = card (?deps n - ?V) - 1"
      and "0 < card (?deps n - ?V)"
      by (simp_all add: card_gt_0_iff) blast
    moreover have "?deps n - insert node ?V = ?deps n - ?V - {node}" by auto
    ultimately show ?thesis by simp
  qed
  have same: "?deps n - insert node ?V = ?deps n - ?V" if "n \<notin> set ds" for n
    using that ds(2) by (auto simp: dependsOn_def)
  note fold = foldl_decreaseDegree [OF ds(1), of s1]
  have v2: "visited s2 = insert node ?V" and r2: "result s2 = result s @ [node]"
    by (simp_all add: s2_def s1_def)
  have i2: "map_of (inDegree s2) n = Some (int (card (?deps n - insert node ?V)))"
    if "n \<in> ?N" for n
  proof (cases "n \<in> set ds")
    case True
    with fold [of n] deg1 [OF that] dec [OF True] show ?thesis by (simp add: s2_def)
  next
    case False
    with fold [of n] same [OF False] inv that show ?thesis
      by (simp add: s2_def s1_def kahnInv_def)
  qed
  have q2: "set (queue s2) =
      set rest \<union> {d \<in> set ds. ?deps d \<subseteq> insert node ?V \<and> d \<notin> insert node ?V}"
  proof -
    have "(degreeOf s1 d - 1 = 0 \<and> d \<notin> visited s1) =
          (?deps d \<subseteq> insert node ?V \<and> d \<notin> insert node ?V)" if "d \<in> set ds" for d
    proof -
      from that dsN have "d \<in> ?N" by auto
      from deg1 [OF this] dec [OF that]
      have "(degreeOf s1 d - 1 = 0) = (card (?deps d - insert node ?V) = 0)" by simp
      also have "\<dots> = (?deps d \<subseteq> insert node ?V)" by auto
      finally show ?thesis by (simp add: s1_def)
    qed
    then have "filter (\<lambda>d. degreeOf s1 d - 1 = 0 \<and> d \<notin> visited s1) ds =
        filter (\<lambda>d. ?deps d \<subseteq> insert node ?V \<and> d \<notin> insert node ?V) ds"
      by (intro filter_cong) simp_all
    with fold [of node] show ?thesis by (auto simp: s2_def s1_def)
  qed
  have rest: "set rest \<subseteq> ?N" "\<forall>n \<in> set rest. ?deps n \<subseteq> ?V"
    using inv q by (auto simp: kahnInv_def)
  have complete: "n \<in> insert node ?V \<or> n \<in> set (queue s2)"
    if "n \<in> ?N" and "?deps n \<subseteq> insert node ?V" for n
  proof (cases "n \<in> insert node ?V")
    case True
    then show ?thesis by simp
  next
    case False
    show ?thesis
    proof (cases "node \<in> ?deps n")
      case True
      with ds(2) have "n \<in> set ds" by (simp add: dependsOn_def)
      with that False show ?thesis by (simp add: q2)
    next
      case no: False
      with that have "?deps n \<subseteq> ?V" by auto
      with inv that(1) have "n \<in> ?V \<or> n \<in> set (queue s)" by (simp add: kahnInv_def)
      with False q have "n \<in> set rest" by auto
      then show ?thesis by (simp add: q2)
    qed
  qed
  have "kahnInv g s2"
    unfolding kahnInv_def
  proof (intro conjI ballI impI)
    show "set (queue s2) \<subseteq> ?N" using rest(1) dsN by (auto simp: q2)
    show "visited s2 \<subseteq> ?N" using inv node by (auto simp: v2 kahnInv_def)
    show "distinct (result s2)" using inv nv by (auto simp: r2 kahnInv_def)
    show "set (result s2) = visited s2" using inv by (auto simp: r2 v2 kahnInv_def)
    show "depsBefore g (result s2)"
      using inv ready by (simp add: r2 depsBefore_snoc kahnInv_def)
  next
    fix n assume "n \<in> ?N"
    then show "map_of (inDegree s2) n = Some (int (card (?deps n - visited s2)))"
      by (simp add: i2 v2)
  next
    fix n assume "n \<in> set (queue s2)"
    then show "?deps n \<subseteq> visited s2"
      using rest(2) by (auto simp: q2 v2)
  next
    fix n assume "n \<in> ?N" and "?deps n \<subseteq> visited s2"
    then show "n \<in> visited s2 \<or> n \<in> set (queue s2)"
      using complete [of n] by (simp add: v2)
  qed
  then show ?thesis by (simp add: s2_def s1_def ds_def)
qed

lemma kahnLoop_invariant:
  assumes "wellFormed g"
  shows "kahnInv g s \<Longrightarrow> D = buildDependents g \<Longrightarrow>
         kahnInv g (kahnLoop D s) \<and> queue (kahnLoop D s) = []"
proof (induction D s rule: kahnLoop.induct)
  case (1 dependents s)
  show ?case
  proof (cases "queue s")
    case Nil
    with 1 show ?thesis by (simp add: kahnLoop.simps)
  next
    case (Cons node rest)
    show ?thesis
    proof (cases "node \<in> visited s")
      case True
      from "1.IH"(1) [OF Cons True kahnInv_skip [OF "1.prems"(1) Cons True] "1.prems"(2)]
      show ?thesis
        using Cons True by (subst kahnLoop.simps, subst (2) kahnLoop.simps) simp
    next
      case False
      from kahnInv_visit [OF assms "1.prems"(1) Cons False] "1.prems"(2)
      have "kahnInv g (foldl decreaseDegree
                     (s\<lparr>queue := rest, visited := insert node (visited s),
                        result := result s @ [node]\<rparr>)
                     (dependentsOf dependents node))"
        by simp
      from "1.IH"(2) [OF Cons False this "1.prems"(2)]
      show ?thesis
        using Cons False by (subst kahnLoop.simps, subst (2) kahnLoop.simps) simp
    qed
  qed
qed

lemma kahn_invariant:
  assumes "wellFormed g"
  shows "kahnInv g (kahn g)" and "queue (kahn g) = []"
  using kahnLoop_invariant [OF assms kahnInv_initial [OF assms] refl]
  by (simp_all add: kahn_def)

subsection \<open>Orders and cycles\<close>

text \<open>\<open>order.indexOf(x)\<close>, for an \<open>x\<close> that the order contains.\<close>

fun indexOf :: "'a \<Rightarrow> 'a list \<Rightarrow> nat" where
  "indexOf x [] = 0"
| "indexOf x (y # ys) = (if x = y then 0 else Suc (indexOf x ys))"

lemma indexOf_less: "(indexOf x xs < length xs) = (x \<in> set xs)"
  by (induction xs) auto

lemma indexOf_append:
  "indexOf x (ys @ zs) = (if x \<in> set ys then indexOf x ys else length ys + indexOf x zs)"
  by (induction ys) auto

lemma depsBefore_index:
  assumes "depsBefore g xs" and "a \<in> set xs" and "dependsOn g a b"
  shows "indexOf b xs < indexOf a xs"
proof -
  from split_list_first [OF assms(2)] obtain ys zs where xs: "xs = ys @ a # zs" "a \<notin> set ys"
    by blast
  with assms(1) have "set (getDependencies g a) \<subseteq> set ys"
    unfolding depsBefore_def by blast
  with assms(3) have "b \<in> set ys" by (auto simp: dependsOn_def)
  then have "indexOf b xs < length ys" by (simp add: xs indexOf_append indexOf_less)
  also from xs have "length ys = indexOf a xs" by (simp add: indexOf_append)
  finally show ?thesis .
qed

lemma ordered_acyclic:
  assumes "\<And>a b. dependsOn g a b \<Longrightarrow> indexOf b xs < indexOf a xs"
  shows "acyclic (edgeRel g)"
proof -
  have "edgeRel g \<subseteq> (measure (\<lambda>n. indexOf n xs))\<inverse>"
    using assms by (auto simp: edgeRel_def)
  moreover have "acyclic ((measure (\<lambda>n. indexOf n xs))\<inverse>)"
    by (simp add: wf_acyclic)
  ultimately show ?thesis by (rule acyclic_subset [rotated])
qed

lemma depsBefore_acyclic:
  assumes "wellFormed g" and "depsBefore g xs" and "set (nodes g) \<subseteq> set xs"
  shows "acyclic (edgeRel g)"
proof (rule ordered_acyclic)
  fix a b assume d: "dependsOn g a b"
  from dependsOn_nodes(1) [OF assms(1) d] assms(3) have "a \<in> set xs" by auto
  from depsBefore_index [OF assms(2) this d] show "indexOf b xs < indexOf a xs" .
qed

lemma finite_edgeRel:
  assumes "wellFormed g"
  shows "finite (edgeRel g)"
proof -
  have "edgeRel g \<subseteq> set (nodes g) \<times> set (nodes g)"
    using dependsOn_nodes [OF assms] by (auto simp: edgeRel_def)
  then show ?thesis by (rule finite_subset) simp
qed

text \<open>In a graph without a cycle, a set of nodes that is not empty has a node none of
  whose dependencies is in the set.\<close>

lemma acyclic_minimal:
  assumes "wellFormed g" and "acyclic (edgeRel g)" and "z \<in> U"
  obtains n where "n \<in> U" and "\<And>d. dependsOn g n d \<Longrightarrow> d \<notin> U"
proof -
  from assms(1,2) have "wf ((edgeRel g)\<inverse>)"
    by (intro finite_acyclic_wf) (simp_all add: finite_edgeRel)
  from wfE_min [OF this assms(3)] obtain n
    where "n \<in> U" and "\<And>d. (d, n) \<in> (edgeRel g)\<inverse> \<Longrightarrow> d \<notin> U" by blast
  with that show ?thesis by (simp add: edgeRel_def)
qed

lemma kahn_places_all:
  assumes w: "wellFormed g" and a: "acyclic (edgeRel g)"
  shows "visited (kahn g) = set (nodes g)"
proof (rule ccontr)
  note inv = kahn_invariant [OF w]
  assume "visited (kahn g) \<noteq> set (nodes g)"
  with inv(1) obtain z where "z \<in> set (nodes g) - visited (kahn g)"
    by (auto simp: kahnInv_def)
  from acyclic_minimal [OF w a this] obtain n
    where n: "n \<in> set (nodes g) - visited (kahn g)"
      and d: "\<And>d. dependsOn g n d \<Longrightarrow> d \<notin> set (nodes g) - visited (kahn g)" by blast
  have "set (getDependencies g n) \<subseteq> visited (kahn g)"
    using d getDependencies_wellFormed(2) [OF w, of n] by (auto simp: dependsOn_def)
  with inv n show False by (auto simp: kahnInv_def)
qed

lemma kahn_result:
  assumes "wellFormed g"
  shows "distinct (result (kahn g))" and "set (result (kahn g)) = visited (kahn g)"
    and "visited (kahn g) \<subseteq> set (nodes g)" and "depsBefore g (result (kahn g))"
  using kahn_invariant(1) [OF assms] by (simp_all add: kahnInv_def)

lemma kahn_complete_iff:
  assumes w: "wellFormed g"
  shows "(length (result (kahn g)) = length (nodes g)) = (visited (kahn g) = set (nodes g))"
proof -
  note r = kahn_result [OF w]
  from w have dn: "distinct (nodes g)" by (simp add: wellFormed_def)
  have "length (result (kahn g)) = card (visited (kahn g))"
    using r(1,2) by (metis distinct_card)
  moreover have "length (nodes g) = card (set (nodes g))"
    using dn by (simp add: distinct_card)
  moreover have "(card (visited (kahn g)) = card (set (nodes g))) = (visited (kahn g) = set (nodes g))"
    using card_subset_eq [OF _ r(3)] by auto
  ultimately show ?thesis by simp
qed

lemma kahn_acyclic_iff:
  assumes w: "wellFormed g"
  shows "(visited (kahn g) = set (nodes g)) = acyclic (edgeRel g)"
proof
  assume "visited (kahn g) = set (nodes g)"
  with kahn_result [OF w] show "acyclic (edgeRel g)"
    by (intro depsBefore_acyclic [OF w, of "result (kahn g)"]) simp_all
next
  assume "acyclic (edgeRel g)"
  then show "visited (kahn g) = set (nodes g)" by (rule kahn_places_all [OF w])
qed

subsection \<open>findCycle\<close>

text \<open>A cycle as findCycle returns it: a walk along the edges that ends where it starts.\<close>

definition isCycle :: "DependencyGraph \<Rightarrow> string list \<Rightarrow> bool" where
  "isCycle g c = (2 \<le> length c \<and> hd c = last c \<and> successively (dependsOn g) c)"

lemma sliceFrom_cycle:
  assumes "dep \<in> set p" and "successively (dependsOn g) p" and "dependsOn g (last p) dep"
  shows "isCycle g (sliceFrom dep p @ [dep])"
proof -
  let ?d = "dropWhile (\<lambda>x. x \<noteq> dep) p"
  from assms(1) have ne: "?d \<noteq> []" by (auto simp: dropWhile_eq_Nil_conv)
  from hd_dropWhile [OF ne] have hd: "hd ?d = dep" by simp
  from assms(1) have last: "last ?d = last p" by (intro dropWhile_last) simp_all
  have "successively (dependsOn g) (takeWhile (\<lambda>x. x \<noteq> dep) p @ ?d)"
    using assms(2) by simp
  then have "successively (dependsOn g) ?d"
    unfolding successively_append_iff by simp
  with ne last assms(3) have "successively (dependsOn g) (?d @ [dep])"
    by (simp add: successively_append_iff)
  moreover from ne hd have "hd (?d @ [dep]) = dep" by simp
  moreover from ne have "2 \<le> length (?d @ [dep])" by (cases ?d) simp_all
  ultimately show ?thesis by (simp add: isCycle_def sliceFrom_def)
qed

text \<open>
  The invariant of the three variables of findCycle: the path holds the nodes of the
  recursion stack, along edges; the visited nodes that have left the stack are in an
  order in which each comes after its dependencies.
\<close>

definition dfsInv :: "DependencyGraph \<Rightarrow> dfsState \<Rightarrow> bool" where
  "dfsInv g st =
     (set (path st) = recursionStack st \<and> distinct (path st) \<and>
      recursionStack st \<subseteq> dfsVisited st \<and> dfsVisited st \<subseteq> set (nodes g) \<and>
      successively (dependsOn g) (path st) \<and>
      (\<exists>fin. set fin = dfsVisited st - recursionStack st \<and> depsBefore g fin))"

definition dfsPost :: "DependencyGraph \<Rightarrow> dfsState \<Rightarrow> dfsState \<Rightarrow> bool" where
  "dfsPost g st st1 =
     (dfsInv g st1 \<and> path st1 = path st \<and> recursionStack st1 = recursionStack st \<and>
      dfsVisited st \<subseteq> dfsVisited st1)"

lemma dfsPost_refl: "dfsInv g st \<Longrightarrow> dfsPost g st st"
  by (simp add: dfsPost_def)

lemma dfsPost_trans: "dfsPost g st st1 \<Longrightarrow> dfsPost g st1 st2 \<Longrightarrow> dfsPost g st st2"
  by (auto simp: dfsPost_def)

lemma dfsInv_push:
  assumes "dfsInv g st" and "node \<in> set (nodes g)" and "node \<notin> dfsVisited st"
    and "path st \<noteq> [] \<Longrightarrow> dependsOn g (last (path st)) node"
  shows "dfsInv g (st\<lparr>dfsVisited := insert node (dfsVisited st),
                       recursionStack := insert node (recursionStack st),
                       path := path st @ [node]\<rparr>)"
proof -
  from assms(1) obtain fin where d: "set fin = dfsVisited st - recursionStack st"
    "depsBefore g fin" by (auto simp: dfsInv_def)
  from assms(1,3) have "node \<notin> recursionStack st" by (auto simp: dfsInv_def)
  with d(1) assms(3) have "set fin = insert node (dfsVisited st) - insert node (recursionStack st)"
    by auto
  with d(2) assms show ?thesis
    unfolding dfsInv_def by (auto simp: successively_append_iff)
qed

lemma dfsInv_pop:
  assumes st: "dfsInv g st" and nv: "node \<notin> dfsVisited st"
    and post: "dfsPost g (st\<lparr>dfsVisited := insert node (dfsVisited st),
                       recursionStack := insert node (recursionStack st),
                       path := path st @ [node]\<rparr>) st1"
    and deps: "set (getDependencies g node) \<subseteq> dfsVisited st1 - recursionStack st1"
  shows "dfsPost g st (st1\<lparr>path := butlast (path st1),
                           recursionStack := recursionStack st1 - {node}\<rparr>)"
proof -
  from post have p1: "path st1 = path st @ [node]"
    and s1: "recursionStack st1 = insert node (recursionStack st)"
    and v1: "insert node (dfsVisited st) \<subseteq> dfsVisited st1" and i1: "dfsInv g st1"
    by (simp_all add: dfsPost_def)
  from st nv have ns: "node \<notin> recursionStack st" by (auto simp: dfsInv_def)
  from i1 obtain fin where d: "set fin = dfsVisited st1 - recursionStack st1"
    "depsBefore g fin" by (auto simp: dfsInv_def)
  have "set (fin @ [node]) = dfsVisited st1 - recursionStack st"
    using d(1) s1 v1 ns by auto
  moreover have "depsBefore g (fin @ [node])"
    using d deps by (simp add: depsBefore_snoc)
  ultimately have "\<exists>fin. set fin = dfsVisited st1 - recursionStack st \<and> depsBefore g fin"
    by blast
  with st i1 p1 s1 v1 ns show ?thesis
    unfolding dfsPost_def dfsInv_def by auto
qed

text \<open>
  \<open>dfs\<close> and \<open>dfsDeps\<close> return a cycle of the graph, or leave the stack as it was with the
  node, or the dependencies, among the visited nodes that are not on the stack.
\<close>

lemma dfs_correct:
  "wellFormed g \<Longrightarrow> dfsInv g st \<Longrightarrow> node \<in> set (nodes g) \<Longrightarrow> node \<notin> dfsVisited st \<Longrightarrow>
   (path st \<noteq> [] \<longrightarrow> dependsOn g (last (path st)) node) \<Longrightarrow>
   (case dfs g node st of
      (Some c, st1) \<Rightarrow> isCycle g c
    | (None, st1) \<Rightarrow> dfsPost g st st1 \<and> node \<in> dfsVisited st1)"
  and dfsDeps_correct:
  "wellFormed g \<Longrightarrow> dfsInv g st \<Longrightarrow> path st \<noteq> [] \<Longrightarrow>
   set deps \<subseteq> set (getDependencies g (last (path st))) \<Longrightarrow>
   (case dfsDeps g deps st of
      (Some c, st1) \<Rightarrow> isCycle g c
    | (None, st1) \<Rightarrow> dfsPost g st st1 \<and> set deps \<subseteq> dfsVisited st1 - recursionStack st1)"
proof (induction g node st and g deps st rule: dfs_dfsDeps.induct)
  case (1 g node st)
  let ?st = "st\<lparr>dfsVisited := insert node (dfsVisited st),
                 recursionStack := insert node (recursionStack st),
                 path := path st @ [node]\<rparr>"
  note w = "1.prems"(1)
  from "1.prems" have push: "dfsInv g ?st" by (intro dfsInv_push) simp_all
  obtain r st1 where run: "dfsDeps g (getDependencies g node) ?st = (r, st1)"
    by (cases "dfsDeps g (getDependencies g node) ?st")
  from "1.IH" [OF w push] run
  have ih: "case r of Some c \<Rightarrow> isCycle g c
            | None \<Rightarrow> dfsPost g ?st st1 \<and>
                set (getDependencies g node) \<subseteq> dfsVisited st1 - recursionStack st1"
    by (cases r) simp_all
  show ?case
  proof (cases r)
    case (Some c)
    with ih run show ?thesis by (simp add: dfs.simps)
  next
    case None
    with ih have post: "dfsPost g ?st st1"
      and deps: "set (getDependencies g node) \<subseteq> dfsVisited st1 - recursionStack st1"
      by simp_all
    from post have "node \<in> dfsVisited st1" by (auto simp: dfsPost_def)
    with dfsInv_pop [OF "1.prems"(2) "1.prems"(4) post deps] run None show ?thesis
      by (simp add: dfs.simps)
  qed
next
  case (2 g st)
  then show ?case by (simp add: dfsPost_refl)
next
  case (3 g dep rest st)
  note w = "3.prems"(1) and inv = "3.prems"(2) and ne = "3.prems"(3)
  from "3.prems"(4) have top: "dependsOn g (last (path st)) dep"
    and rest: "set rest \<subseteq> set (getDependencies g (last (path st)))"
    by (simp_all add: dependsOn_def)
  from dependsOn_nodes(2) [OF w top] have node: "dep \<in> set (nodes g)" .
  show ?case
  proof (cases "dep \<in> dfsVisited st")
    case False
    obtain r st1 where run: "dfs g dep st = (r, st1)" by (cases "dfs g dep st")
    from "3.IH"(2) w inv node False top run
    have ih: "case r of Some c \<Rightarrow> isCycle g c
              | None \<Rightarrow> dfsPost g st st1 \<and> dep \<in> dfsVisited st1"
      by (cases r) simp_all
    show ?thesis
    proof (cases r)
      case (Some c)
      with ih run node False show ?thesis by simp
    next
      case None
      with ih have post: "dfsPost g st st1" and dep: "dep \<in> dfsVisited st1" by simp_all
      then have inv1: "dfsInv g st1" and p1: "path st1 = path st"
        and s1: "recursionStack st1 = recursionStack st"
        by (simp_all add: dfsPost_def)
      obtain r2 st2 where run2: "dfsDeps g rest st1 = (r2, st2)" by (cases "dfsDeps g rest st1")
      from "3.IH"(3) [of r st1] w inv1 node False run None ne rest p1 run2
      have ih2: "case r2 of Some c \<Rightarrow> isCycle g c
              | None \<Rightarrow> dfsPost g st1 st2 \<and> set rest \<subseteq> dfsVisited st2 - recursionStack st2"
        by (cases r2) simp_all
      show ?thesis
      proof (cases r2)
        case (Some c)
        with ih2 run run2 None node False show ?thesis by simp
      next
        case n2: None
        with ih2 have post2: "dfsPost g st1 st2"
          and r: "set rest \<subseteq> dfsVisited st2 - recursionStack st2" by simp_all
        from inv False have "dep \<notin> recursionStack st" by (auto simp: dfsInv_def)
        with post2 dep s1 have "dep \<in> dfsVisited st2 - recursionStack st2"
          by (auto simp: dfsPost_def)
        with dfsPost_trans [OF post post2] r run run2 None n2 node False show ?thesis by simp
      qed
    qed
  next
    case True
    show ?thesis
    proof (cases "dep \<in> recursionStack st")
      case stack: True
      with inv have "dep \<in> set (path st)" by (simp add: dfsInv_def)
      moreover from inv have "successively (dependsOn g) (path st)" by (simp add: dfsInv_def)
      ultimately have "isCycle g (sliceFrom dep (path st) @ [dep])"
        using top by (rule sliceFrom_cycle)
      with True stack node show ?thesis by simp
    next
      case False
      obtain r st1 where run: "dfsDeps g rest st = (r, st1)" by (cases "dfsDeps g rest st")
      from "3.IH"(4) w inv ne rest False node True run
      have ih: "case r of Some c \<Rightarrow> isCycle g c
              | None \<Rightarrow> dfsPost g st st1 \<and> set rest \<subseteq> dfsVisited st1 - recursionStack st1"
        by (cases r) simp_all
      show ?thesis
      proof (cases r)
        case (Some c)
        with ih run node True False show ?thesis by simp
      next
        case None
        with ih have post: "dfsPost g st st1"
          and r: "set rest \<subseteq> dfsVisited st1 - recursionStack st1" by simp_all
        from post True False have "dep \<in> dfsVisited st1 - recursionStack st1"
          by (auto simp: dfsPost_def)
        with post r run None node True False show ?thesis by simp
      qed
    qed
  qed
qed

lemma findCycleLoop_correct:
  "wellFormed g \<Longrightarrow> dfsInv g st \<Longrightarrow> path st = [] \<Longrightarrow> set ns \<subseteq> set (nodes g) \<Longrightarrow>
   isCycle g (findCycleLoop g ns st) \<or>
   (findCycleLoop g ns st = [] \<and>
    (\<exists>st1. dfsInv g st1 \<and> path st1 = [] \<and> dfsVisited st \<union> set ns \<subseteq> dfsVisited st1))"
proof (induction ns arbitrary: st)
  case Nil
  then show ?case by auto
next
  case (Cons n ns)
  show ?case
  proof (cases "n \<in> dfsVisited st")
    case True
    with Cons.IH [OF Cons.prems(1,2,3)] Cons.prems(4) show ?thesis by auto
  next
    case False
    obtain r st1 where run: "dfs g n st = (r, st1)" by (cases "dfs g n st")
    from dfs_correct [OF Cons.prems(1,2) _ False] Cons.prems(3,4) run
    have d: "case r of Some c \<Rightarrow> isCycle g c | None \<Rightarrow> dfsPost g st st1 \<and> n \<in> dfsVisited st1"
      by (cases r) simp_all
    show ?thesis
    proof (cases r)
      case (Some c)
      with d run False show ?thesis by simp
    next
      case None
      with d have post: "dfsPost g st st1" and n: "n \<in> dfsVisited st1" by simp_all
      then have "dfsInv g st1" and "path st1 = []" and v: "dfsVisited st \<subseteq> dfsVisited st1"
        using Cons.prems(3) by (simp_all add: dfsPost_def)
      from Cons.IH [OF Cons.prems(1) this(1,2)] Cons.prems(4)
      have "isCycle g (findCycleLoop g ns st1) \<or>
        (findCycleLoop g ns st1 = [] \<and>
         (\<exists>st2. dfsInv g st2 \<and> path st2 = [] \<and> dfsVisited st1 \<union> set ns \<subseteq> dfsVisited st2))"
        by simp
      with run None False n v show ?thesis by auto
    qed
  qed
qed

lemma findCycle_correct:
  assumes w: "wellFormed g"
  shows "isCycle g (findCycle g) \<or> (findCycle g = [] \<and> acyclic (edgeRel g))"
proof -
  let ?st = "\<lparr>dfsVisited = {}, recursionStack = {}, path = []\<rparr>"
  have "depsBefore g []" by simp
  then have "dfsInv g ?st" unfolding dfsInv_def by (intro conjI exI [of _ "[]"]) simp_all
  from findCycleLoop_correct [OF w this, of "nodes g"]
  consider "isCycle g (findCycle g)"
    | st1 where "findCycle g = []" "dfsInv g st1" "path st1 = []" "set (nodes g) \<subseteq> dfsVisited st1"
    by (auto simp: findCycle_def)
  then show ?thesis
  proof cases
    case 1
    then show ?thesis by simp
  next
    case 2
    from 2(2,3) obtain fin where "set fin = dfsVisited st1" "depsBefore g fin"
      by (auto simp: dfsInv_def)
    with 2(4) have "acyclic (edgeRel g)"
      by (intro depsBefore_acyclic [OF w, of fin]) simp_all
    with 2(1) show ?thesis by simp
  qed
qed

lemma isCycle_not_acyclic:
  assumes "isCycle g c"
  shows "\<not> acyclic (edgeRel g)"
proof -
  have walk: "successively (dependsOn g) (x # xs) \<Longrightarrow> xs \<noteq> [] \<Longrightarrow>
      (x, last xs) \<in> (edgeRel g)\<^sup>+" for x xs
  proof (induction xs arbitrary: x)
    case Nil
    then show ?case by simp
  next
    case (Cons y ys)
    from Cons.prems have e: "(x, y) \<in> edgeRel g" by (simp add: edgeRel_def)
    show ?case
    proof (cases ys)
      case Nil
      with e show ?thesis by auto
    next
      case (Cons z zs)
      with Cons.IH [of y] Cons.prems have "(y, last ys) \<in> (edgeRel g)\<^sup>+" by simp
      with e Cons show ?thesis by (auto intro: trancl_into_trancl2)
    qed
  qed
  from assms obtain x y ys where c: "c = x # y # ys"
    by (cases c; cases "tl c") (auto simp: isCycle_def)
  with assms have "successively (dependsOn g) (x # y # ys)" and "last (y # ys) = x"
    by (auto simp: isCycle_def split: if_splits)
  with walk [of x "y # ys"] have "(x, x) \<in> (edgeRel g)\<^sup>+"
    by fastforce
  then show ?thesis by (auto simp: acyclic_def)
qed

text \<open>The graphs of \<open>DependencyGraphBuilder.build\<close> have the invariant.\<close>

lemma wellFormed_addNodes: "wellFormed g \<Longrightarrow> wellFormed (foldl addNode g ids)"
  by (induction ids arbitrary: g) (simp_all add: wellFormed_addNode)

lemma wellFormed_addEdges:
  "wellFormed g \<Longrightarrow>
   wellFormed (foldl (\<lambda>g dep. if dep \<in> S then addEdge g source dep else g) g deps)"
  by (induction deps arbitrary: g) (simp_all add: wellFormed_addEdge)

lemma wellFormed_buildEdges:
  "wellFormed g \<Longrightarrow> buildEdges rt formulaIds formulas g = Some (Inr graph) \<Longrightarrow> wellFormed graph"
proof (induction formulas arbitrary: g)
  case Nil
  then show ?case by simp
next
  case (Cons formula rest)
  from Cons.prems(2) obtain deps
    where "buildEdges rt formulaIds rest
            (foldl (\<lambda>g dep. if dep \<in> set formulaIds then addEdge g (formulaId formula) dep else g)
               g deps) = Some (Inr graph)"
    by (auto split: option.splits sum.splits)
  with Cons.IH [OF wellFormed_addEdges [OF Cons.prems(1)]] show ?case by blast
qed

lemma wellFormed_build:
  "build rt formulas = Some (Inr graph) \<Longrightarrow> wellFormed graph"
  unfolding build_def
  by (erule wellFormed_buildEdges [rotated]) (intro wellFormed_addNodes wellFormed_new)

lemma kahn_placed_closed:
  assumes w: "wellFormed g" and n: "n \<in> set (result (kahn g))" and d: "dependsOn g n d"
  shows "d \<in> set (result (kahn g))"
proof -
  from split_list [OF n] obtain ys zs where r: "result (kahn g) = ys @ n # zs" by blast
  with kahn_result(4) [OF w] have "set (getDependencies g n) \<subseteq> set ys"
    unfolding depsBefore_def by blast
  with d r show ?thesis by (auto simp: dependsOn_def)
qed

lemma kahn_unplaced_blocked:
  assumes w: "wellFormed g" and n: "n \<in> set (nodes g)" and u: "n \<notin> set (result (kahn g))"
  shows "\<exists>d. d \<in> set (nodes g) \<and> d \<notin> set (result (kahn g)) \<and> dependsOn g n d"
proof -
  note inv = kahn_invariant [OF w]
  from inv(1) have v: "set (result (kahn g)) = visited (kahn g)" by (simp add: kahnInv_def)
  from inv n u v have "\<not> set (getDependencies g n) \<subseteq> visited (kahn g)"
    by (auto simp: kahnInv_def)
  then obtain d where "d \<in> set (getDependencies g n)" "d \<notin> visited (kahn g)" by auto
  with getDependencies_wellFormed(2) [OF w, of n] v show ?thesis
    by (auto simp: dependsOn_def)
qed

text \<open>The graph \<open>b \<rightarrow> a\<close>, \<open>c \<rightarrow> b\<close>.\<close>

definition chainGraph :: DependencyGraph where
  "chainGraph = addEdge (addEdge newDependencyGraph ''b'' ''a'') ''c'' ''b''"

text \<open>
  C1. On a graph that the class has built and that has no cycle, topologicalSort returns
  an order; the order has every node of the graph, once; and for every edge from \<open>a\<close> to
  \<open>b\<close> the index of \<open>b\<close> in the order is below the index of \<open>a\<close>.
\<close>

theorem topologicalSort_orders_acyclic_graph:
  assumes "wellFormed g" and "acyclic (edgeRel g)"
  shows "\<exists>order. topologicalSort g = Inr order \<and> distinct order \<and>
           set order = set (nodes g) \<and> length order = length (nodes g) \<and>
           (\<forall>a b. dependsOn g a b \<longrightarrow> indexOf b order < indexOf a order)"
proof -
  let ?order = "result (kahn g)"
  note r = kahn_result [OF assms(1)]
  from kahn_places_all [OF assms] have v: "visited (kahn g) = set (nodes g)" .
  with kahn_complete_iff [OF assms(1)] have l: "length ?order = length (nodes g)" by simp
  have "indexOf b ?order < indexOf a ?order" if "dependsOn g a b" for a b
  proof -
    from dependsOn_nodes(1) [OF assms(1) that] v r(2) have "a \<in> set ?order" by simp
    from depsBefore_index [OF r(4) this that] show ?thesis .
  qed
  with l r(1,2) v show ?thesis
    by (simp add: topologicalSort_def Let_def)
qed

lemma chainGraph_eval:
  "chainGraph = \<lparr>nodes = [''b'', ''a'', ''c''],
                  edges = [(''b'', [''a'']), (''a'', []), (''c'', [''b''])]\<rparr>"
  by (simp add: chainGraph_def addEdge_def addNode_def newDependencyGraph_def setAdd_def
      mapHas_def getDependencies_def Let_def)

lemma chainGraph_dependsOn:
  "dependsOn chainGraph x y = (x = ''b'' \<and> y = ''a'' \<or> x = ''c'' \<and> y = ''b'')"
  by (cases "x = ''b''"; cases "x = ''c''"; cases "x = ''a''";
      simp add: chainGraph_eval dependsOn_def getDependencies_def)

theorem topologicalSort_orders_acyclic_graph_witness:
  "wellFormed chainGraph \<and> acyclic (edgeRel chainGraph) \<and>
   topologicalSort chainGraph = Inr [''a'', ''b'', ''c''] \<and>
   dependsOn chainGraph ''b'' ''a'' \<and>
   indexOf ''a'' [''a'', ''b'', ''c''] < indexOf ''b'' [''a'', ''b'', ''c''] \<and>
   dependsOn chainGraph ''c'' ''b'' \<and>
   indexOf ''b'' [''a'', ''b'', ''c''] < indexOf ''c'' [''a'', ''b'', ''c'']"
proof -
  have w: "wellFormed chainGraph"
    unfolding chainGraph_def by (intro wellFormed_addEdge wellFormed_new)
  have a: "acyclic (edgeRel chainGraph)"
  proof (rule ordered_acyclic)
    fix x y assume "dependsOn chainGraph x y"
    then show "indexOf y [''a'', ''b'', ''c''] < indexOf x [''a'', ''b'', ''c'']"
      by (auto simp: chainGraph_dependsOn)
  qed
  have e: "topologicalSort chainGraph = Inr [''a'', ''b'', ''c'']"
    by (simp add: chainGraph_eval graph_eval)
  from topologicalSort_orders_acyclic_graph [OF w a] e
  have o: "\<forall>a b. dependsOn chainGraph a b \<longrightarrow>
      indexOf b [''a'', ''b'', ''c''] < indexOf a [''a'', ''b'', ''c'']"
    by simp
  have d: "dependsOn chainGraph ''b'' ''a''" "dependsOn chainGraph ''c'' ''b''"
    by (simp_all add: chainGraph_dependsOn)
  from o d have "indexOf ''a'' [''a'', ''b'', ''c''] < indexOf ''b'' [''a'', ''b'', ''c'']"
    and "indexOf ''b'' [''a'', ''b'', ''c''] < indexOf ''c'' [''a'', ''b'', ''c'']"
    by blast+
  with w a e d show ?thesis by simp
qed

text \<open>The graph \<open>a \<rightarrow> b\<close>, \<open>b \<rightarrow> a\<close>, \<open>c \<rightarrow> a\<close>, with the node \<open>d\<close> that has no edge.\<close>

definition loopGraph :: DependencyGraph where
  "loopGraph =
     addEdge (addEdge (addEdge (addNode newDependencyGraph ''d'') ''a'' ''b'') ''b'' ''a'') ''c'' ''a''"

text \<open>
  C2. On a graph that the class has built and that has a cycle, topologicalSort raises
  CircularDependencyError. The cycle of the error has at least two elements, ends where
  it starts, and goes along edges of the graph. The involved nodes are the nodes of the
  graph that the loop has not placed, in the order of \<open>nodes\<close>; each of them depends on
  an involved node, and no placed node does.
\<close>

theorem topologicalSort_reports_cycle:
  assumes "wellFormed g" and "\<not> acyclic (edgeRel g)"
  shows "\<exists>cyc involved.
           topologicalSort g = Inl (CircularDependencyError cyc involved) \<and>
           cyc \<noteq> [] \<and> 2 \<le> length cyc \<and> hd cyc = last cyc \<and> successively (dependsOn g) cyc \<and>
           involved = filter (\<lambda>n. n \<notin> set (result (kahn g))) (nodes g) \<and> involved \<noteq> [] \<and>
           (\<forall>n \<in> set involved. \<exists>d \<in> set involved. dependsOn g n d) \<and>
           (\<forall>n \<in> set (result (kahn g)). \<forall>d. dependsOn g n d \<longrightarrow> d \<in> set (result (kahn g)))"
proof -
  let ?placed = "set (result (kahn g))"
  let ?involved = "filter (\<lambda>n. n \<notin> ?placed) (nodes g)"
  note r = kahn_result [OF assms(1)]
  from kahn_acyclic_iff [OF assms(1)] assms(2) have v: "visited (kahn g) \<noteq> set (nodes g)"
    by simp
  with kahn_complete_iff [OF assms(1)] have l: "length (result (kahn g)) \<noteq> length (nodes g)"
    by simp
  from findCycle_correct [OF assms(1)] assms(2) have c: "isCycle g (findCycle g)" by auto
  from v r(2,3) have ne: "?involved \<noteq> []"
    by (auto simp: filter_empty_conv)
  have blocked: "\<exists>d \<in> set ?involved. dependsOn g n d" if "n \<in> set ?involved" for n
    using kahn_unplaced_blocked [OF assms(1), of n] that by auto
  have closed: "d \<in> ?placed" if "n \<in> ?placed" "dependsOn g n d" for n d
    using kahn_placed_closed [OF assms(1) that] .
  have "topologicalSort g = Inl (CircularDependencyError (findCycle g) ?involved)"
    using l r(2) by (simp add: topologicalSort_def Let_def)
  moreover from c have "findCycle g \<noteq> []" "2 \<le> length (findCycle g)"
    "hd (findCycle g) = last (findCycle g)" "successively (dependsOn g) (findCycle g)"
    by (auto simp: isCycle_def)
  ultimately show ?thesis
    using ne blocked closed by blast
qed

lemma loopGraph_eval:
  "loopGraph = \<lparr>nodes = [''d'', ''a'', ''b'', ''c''],
                 edges = [(''d'', []), (''a'', [''b'']), (''b'', [''a'']), (''c'', [''a''])]\<rparr>"
  by (simp add: loopGraph_def addEdge_def addNode_def newDependencyGraph_def setAdd_def
      mapHas_def getDependencies_def Let_def)

lemma loopGraph_sort:
  "topologicalSort loopGraph =
     Inl (CircularDependencyError [''a'', ''b'', ''a''] [''a'', ''b'', ''c''])"
  by (simp add: loopGraph_eval graph_eval findCycle_def dfs.simps sliceFrom_def)

theorem topologicalSort_reports_cycle_witness:
  "wellFormed loopGraph \<and> \<not> acyclic (edgeRel loopGraph) \<and>
   topologicalSort loopGraph =
     Inl (CircularDependencyError [''a'', ''b'', ''a''] [''a'', ''b'', ''c'']) \<and>
   successively (dependsOn loopGraph) [''a'', ''b'', ''a''] \<and>
   [''a'', ''b'', ''c''] = filter (\<lambda>n. n \<notin> set (result (kahn loopGraph))) (nodes loopGraph)"
proof -
  have w: "wellFormed loopGraph"
    unfolding loopGraph_def by (intro wellFormed_addEdge wellFormed_addNode wellFormed_new)
  have "(''a'', ''b'') \<in> edgeRel loopGraph" and "(''b'', ''a'') \<in> edgeRel loopGraph"
    by (simp_all add: edgeRel_def dependsOn_def loopGraph_eval getDependencies_def)
  then have "(''a'', ''a'') \<in> (edgeRel loopGraph)\<^sup>+" by (rule trancl.intros(2) [OF r_into_trancl])
  then have c: "\<not> acyclic (edgeRel loopGraph)" by (auto simp: acyclic_def)
  from topologicalSort_reports_cycle [OF w c] loopGraph_sort
  have "successively (dependsOn loopGraph) [''a'', ''b'', ''a'']"
    and "[''a'', ''b'', ''c''] = filter (\<lambda>n. n \<notin> set (result (kahn loopGraph))) (nodes loopGraph)"
    by auto
  with w c loopGraph_sort show ?thesis by simp
qed

end
